(* ===== verification/Prelude.thy ===== *)
theory Prelude
  imports Main "HOL-Library.Sublist" "HOL-Library.Word"
begin

text \<open>
  What the components share: the \<^verbatim>\<open>Result\<close> plumbing of the Rust code (\<open>?\<close>, \<open>ensure!\<close>,
  \<open>transpose\<close>, \<open>collect\<close>), the operations of Rust's \<^verbatim>\<open>str\<close> the sources call, and the facts
  about them. A Rust string is its UTF-8 byte sequence, one \<^typ>\<open>char\<close> per byte, so that
  \<open>bytes()\<close>, \<open>len()\<close> and \<open>as_bytes()\<close> are the list itself; \<open>trim\<close> removes the encodings of
  the Unicode white-space characters.
\<close>

named_theorems str_simps \<open>characterisations of the string operations\<close>
named_theorems result_simps \<open>characterisations of the result operations\<close>

section \<open>Results\<close>

type_synonym ('e, 'a) result = "'e + 'a"

abbreviation Err :: "'e \<Rightarrow> ('e, 'a) result" where "Err \<equiv> Inl"
abbreviation Ok :: "'a \<Rightarrow> ('e, 'a) result" where "Ok \<equiv> Inr"

definition bind_r :: "('e, 'a) result \<Rightarrow> ('a \<Rightarrow> ('e, 'b) result) \<Rightarrow> ('e, 'b) result" where
  "bind_r r f = (case r of Inl e \<Rightarrow> Err e | Inr x \<Rightarrow> f x)"

definition ensure_r :: "bool \<Rightarrow> 'e \<Rightarrow> ('e, unit) result" where
  "ensure_r b e = (if b then Ok () else Err e)"

definition ok_or :: "'e \<Rightarrow> 'a option \<Rightarrow> ('e, 'a) result" where
  "ok_or e x = (case x of None \<Rightarrow> Err e | Some v \<Rightarrow> Ok v)"

definition transpose_r :: "('a \<Rightarrow> ('e, 'b) result) \<Rightarrow> 'a option \<Rightarrow> ('e, 'b option) result" where
  "transpose_r f x = (case x of None \<Rightarrow> Ok None | Some v \<Rightarrow> bind_r (f v) (\<lambda>w. Ok (Some w)))"

fun collect_r :: "('a \<Rightarrow> ('e, 'b) result) \<Rightarrow> 'a list \<Rightarrow> ('e, 'b list) result" where
  "collect_r f [] = Ok []"
| "collect_r f (x # xs) = bind_r (f x) (\<lambda>y. bind_r (collect_r f xs) (\<lambda>ys. Ok (y # ys)))"

fun result_ok :: "('e, 'a) result \<Rightarrow> 'a option" where
  "result_ok (Inl e) = None"
| "result_ok (Inr x) = Some x"

definition filter_opt :: "('a \<Rightarrow> bool) \<Rightarrow> 'a option \<Rightarrow> 'a option" where
  "filter_opt P x = (case x of None \<Rightarrow> None | Some v \<Rightarrow> if P v then Some v else None)"

definition opt_or_else :: "'a option \<Rightarrow> 'a option \<Rightarrow> 'a option" where
  "opt_or_else x y = (case x of None \<Rightarrow> y | Some v \<Rightarrow> Some v)"

definition unwrap_or :: "'a \<Rightarrow> 'a option \<Rightarrow> 'a" where
  "unwrap_or d x = (case x of None \<Rightarrow> d | Some v \<Rightarrow> v)"

lemma bind_r_simps [simp]:
  "bind_r (Inl e) f = Inl e"
  "bind_r (Inr x) f = f x"
  by (simp_all add: bind_r_def)

lemma bind_r_Ok_iff [result_simps]: "bind_r r f = Inr y \<longleftrightarrow> (\<exists>x. r = Inr x \<and> f x = Inr y)"
  by (cases r) simp_all

lemma ensure_r_simps [simp]:
  "ensure_r b e = Inr u \<longleftrightarrow> b"
  "ensure_r b e = Inl e' \<longleftrightarrow> \<not> b \<and> e = e'"
  "ensure_r True e = Inr ()"
  "ensure_r False e = Inl e"
  by (auto simp: ensure_r_def)

lemma ok_or_Ok_iff [result_simps]: "ok_or e x = Inr v \<longleftrightarrow> x = Some v"
  by (cases x) (auto simp: ok_or_def)

lemma ok_or_simps [simp]: "ok_or e (Some v) = Inr v" "ok_or e None = Inl e"
  by (simp_all add: ok_or_def)

lemma transpose_r_simps [simp]:
  "transpose_r f None = Inr None"
  "transpose_r f (Some v) = bind_r (f v) (\<lambda>w. Inr (Some w))"
  by (simp_all add: transpose_r_def)

lemma transpose_r_Ok_iff [result_simps]:
  "transpose_r f x = Inr y \<longleftrightarrow>
     (case x of None \<Rightarrow> y = None | Some v \<Rightarrow> (\<exists>w. f v = Inr w \<and> y = Some w))"
  by (auto simp: result_simps split: option.splits)

lemma collect_r_Ok_iff [result_simps]:
  "collect_r f xs = Inr ys \<longleftrightarrow> list_all2 (\<lambda>x y. f x = Inr y) xs ys"
  by (induction xs arbitrary: ys) (auto simp: result_simps list_all2_Cons1)

lemma result_ok_Some_iff [result_simps]: "result_ok r = Some x \<longleftrightarrow> r = Inr x"
  by (cases r) auto

lemma filter_opt_Some_iff [result_simps]: "filter_opt P x = Some v \<longleftrightarrow> x = Some v \<and> P v"
  by (cases x) (auto simp: filter_opt_def)

lemma unwrap_or_simps [simp]: "unwrap_or d None = d" "unwrap_or d (Some v) = v"
  by (simp_all add: unwrap_or_def)

lemma opt_or_else_simps [simp]:
  "opt_or_else None y = y" "opt_or_else (Some v) y = Some v" "opt_or_else x None = x"
  by (simp_all add: opt_or_else_def split: option.split)

section \<open>Folds\<close>

lemma fold_proj:
  assumes "\<And>x s. p (g x s) = f x (p s)"
  shows "p (fold g xs s) = fold f xs (p s)"
  by (induction xs arbitrary: s) (simp_all add: assms)

lemma fold_inv:
  assumes "\<And>x s. p (g x s) = p s"
  shows "p (fold g xs s) = p s"
  by (induction xs arbitrary: s) (simp_all add: assms)

section \<open>Strings\<close>

definition starts_with :: "string \<Rightarrow> string \<Rightarrow> bool" where
  "starts_with s p = prefix p s"

definition ends_with :: "string \<Rightarrow> string \<Rightarrow> bool" where
  "ends_with s p = suffix p s"

definition strip_prefix :: "string \<Rightarrow> string \<Rightarrow> string option" where
  "strip_prefix s p = (if prefix p s then Some (drop (length p) s) else None)"

definition strip_suffix :: "string \<Rightarrow> string \<Rightarrow> string option" where
  "strip_suffix s p = (if suffix p s then Some (take (length s - length p) s) else None)"

definition contains_char :: "string \<Rightarrow> char \<Rightarrow> bool" where
  "contains_char s c = (c \<in> set s)"

definition contains_str :: "string \<Rightarrow> string \<Rightarrow> bool" where
  "contains_str s p = sublist p s"

definition trim_start_matches :: "char \<Rightarrow> string \<Rightarrow> string" where
  "trim_start_matches c s = dropWhile (\<lambda>x. x = c) s"

definition trim_end_matches :: "char \<Rightarrow> string \<Rightarrow> string" where
  "trim_end_matches c s = rev (dropWhile (\<lambda>x. x = c) (rev s))"

definition trim_matches :: "char \<Rightarrow> string \<Rightarrow> string" where
  "trim_matches c s = trim_end_matches c (trim_start_matches c s)"

text \<open>The UTF-8 encodings of the characters with the Unicode property \<^verbatim>\<open>White_Space\<close>.\<close>

definition white_space :: "string list" where
  "white_space =
     map (\<lambda>n. [char_of n]) [9, 10, 11, 12, 13, 32 :: nat]
     @ map (map char_of) [[0xC2, 0x85], [0xC2, 0xA0], [0xE1, 0x9A, 0x80 :: nat]]
     @ map (\<lambda>n. map char_of [0xE2, 0x80, n]) [0x80, 0x81, 0x82, 0x83, 0x84, 0x85, 0x86, 0x87,
          0x88, 0x89, 0x8A, 0xA8, 0xA9, 0xAF :: nat]
     @ map (map char_of) [[0xE2, 0x81, 0x9F], [0xE3, 0x80, 0x80 :: nat]]"

lemma white_space_nonempty: "w \<in> set white_space \<Longrightarrow> w \<noteq> []"
  by (auto simp: white_space_def)

function trim_by :: "string list \<Rightarrow> string \<Rightarrow> string" where
  "trim_by ws s =
     (case find (\<lambda>w. w \<noteq> [] \<and> prefix w s) ws of
        None \<Rightarrow> s
      | Some w \<Rightarrow> trim_by ws (drop (length w) s))"
  by pat_completeness auto
termination
  by (relation "measure (\<lambda>(ws, s). length s)")
     (auto simp: find_Some_iff prefix_def)

declare trim_by.simps [simp del]

definition trim_start :: "string \<Rightarrow> string" where
  "trim_start s = trim_by white_space s"

definition trim_end :: "string \<Rightarrow> string" where
  "trim_end s = rev (trim_by (map rev white_space) (rev s))"

definition trim :: "string \<Rightarrow> string" where
  "trim s = trim_end (trim_start s)"

definition is_ascii_uppercase :: "char \<Rightarrow> bool" where
  "is_ascii_uppercase c = (65 \<le> (of_char c :: nat) \<and> (of_char c :: nat) \<le> 90)"

definition ascii_lower :: "char \<Rightarrow> char" where
  "ascii_lower c = (if is_ascii_uppercase c then char_of ((of_char c :: nat) + 32) else c)"

definition to_ascii_lowercase :: "string \<Rightarrow> string" where
  "to_ascii_lowercase s = map ascii_lower s"

fun split_on :: "char \<Rightarrow> string \<Rightarrow> string list" where
  "split_on c [] = [[]]"
| "split_on c (x # xs) =
     (if x = c then [] # split_on c xs
      else (case split_on c xs of [] \<Rightarrow> [[x]] | w # ws \<Rightarrow> (x # w) # ws))"

definition rsplit_on :: "char \<Rightarrow> string \<Rightarrow> string list" where
  "rsplit_on c s = rev (split_on c s)"

fun join_with :: "char \<Rightarrow> string list \<Rightarrow> string" where
  "join_with c [] = []"
| "join_with c [w] = w"
| "join_with c (w # v # ws) = w @ c # join_with c (v # ws)"


section \<open>Facts about strings\<close>

lemma trim_by_None: "find (\<lambda>w. w \<noteq> [] \<and> prefix w s) ws = None \<Longrightarrow> trim_by ws s = s"
  by (simp add: trim_by.simps)

lemma trim_by_Some:
  "find (\<lambda>w. w \<noteq> [] \<and> prefix w s) ws = Some w \<Longrightarrow> trim_by ws s = trim_by ws (drop (length w) s)"
  by (simp add: trim_by.simps [of ws s])

lemma trim_by_fixed: "find (\<lambda>w. w \<noteq> [] \<and> prefix w (trim_by ws s)) ws = None"
proof (induction ws s rule: trim_by.induct)
  case (1 ws s)
  show ?case
  proof (cases "find (\<lambda>w. w \<noteq> [] \<and> prefix w s) ws")
    case None
    then show ?thesis by (simp add: trim_by_None)
  next
    case (Some w)
    then show ?thesis using "1.IH" [OF Some] by (simp add: trim_by_Some)
  qed
qed

lemma trim_by_idem [simp]: "trim_by ws (trim_by ws s) = trim_by ws s"
  by (rule trim_by_None) (rule trim_by_fixed)

lemma suffix_trim_by: "suffix (trim_by ws s) s"
proof (induction ws s rule: trim_by.induct)
  case (1 ws s)
  show ?case
  proof (cases "find (\<lambda>w. w \<noteq> [] \<and> prefix w s) ws")
    case None
    then show ?thesis by (simp add: trim_by.simps)
  next
    case (Some w)
    then have "suffix (trim_by ws (drop (length w) s)) (drop (length w) s)" by (rule "1.IH")
    then have "suffix (trim_by ws (drop (length w) s)) s"
      using suffix_drop suffix_order.trans by blast
    with Some show ?thesis by (simp add: trim_by_Some)
  qed
qed

lemma trim_by_None_iff: "trim_by ws s = s \<longleftrightarrow> (\<forall>w \<in> set ws. w \<noteq> [] \<longrightarrow> \<not> prefix w s)"
proof
  assume *: "trim_by ws s = s"
  show "\<forall>w \<in> set ws. w \<noteq> [] \<longrightarrow> \<not> prefix w s"
  proof (cases "find (\<lambda>w. w \<noteq> [] \<and> prefix w s) ws")
    case None
    then show ?thesis by (auto simp: find_None_iff)
  next
    case (Some w)
    then have w: "w \<noteq> []" "prefix w s" by (auto simp: find_Some_iff)
    have "suffix (trim_by ws (drop (length w) s)) (drop (length w) s)" by (rule suffix_trim_by)
    then have "length (trim_by ws s) \<le> length s - length w"
      using suffix_length_le by (force simp: trim_by_Some [OF Some])
    moreover have "0 < length w" "length w \<le> length s" using w prefix_length_le by auto
    ultimately have "length (trim_by ws s) < length s" by linarith
    then show ?thesis using * by simp
  qed
next
  assume "\<forall>w \<in> set ws. w \<noteq> [] \<longrightarrow> \<not> prefix w s"
  then have "find (\<lambda>w. w \<noteq> [] \<and> prefix w s) ws = None" by (auto simp: find_None_iff)
  then show "trim_by ws s = s" by (simp add: trim_by.simps)
qed

lemma set_trim_by: "set (trim_by ws s) \<subseteq> set s"
  using suffix_trim_by set_mono_suffix by blast

lemma trim_start_idem [simp]: "trim_start (trim_start s) = trim_start s"
  by (simp add: trim_start_def)

lemma trim_end_idem [simp]: "trim_end (trim_end s) = trim_end s"
  by (simp add: trim_end_def)

lemma prefix_trim_end: "prefix (trim_end s) s"
  using suffix_trim_by [of "map rev white_space" "rev s"]
  by (simp add: trim_end_def suffix_to_prefix)

lemma suffix_trim_start: "suffix (trim_start s) s"
  by (simp add: trim_start_def suffix_trim_by)

lemma set_trim: "set (trim s) \<subseteq> set s"
  using set_mono_suffix [OF suffix_trim_start] set_mono_prefix [OF prefix_trim_end]
  by (auto simp: trim_def)

text \<open>Trimming the end leaves no white space at the front of a string that had none there.\<close>

lemma trim_start_prefix:
  assumes "trim_start s = s" "prefix t s"
  shows "trim_start t = t"
  using assms by (auto simp: trim_start_def trim_by_None_iff intro: prefix_order.trans)

lemma trim_end_suffix:
  assumes "trim_end s = s" "suffix t s"
  shows "trim_end t = t"
proof -
  have "trim_by (map rev white_space) (rev s) = rev s"
    using assms(1) by (simp add: trim_end_def) (metis rev_rev_ident)
  moreover have "prefix (rev t) (rev s)" using assms(2) by (simp add: suffix_to_prefix)
  ultimately have "trim_by (map rev white_space) (rev t) = rev t"
    by (auto simp: trim_by_None_iff intro: prefix_order.trans)
  then show ?thesis by (simp add: trim_end_def)
qed

text \<open>No white space begins or ends with a visible ASCII character.\<close>

definition ascii_graphic :: "char \<Rightarrow> bool" where
  "ascii_graphic c \<longleftrightarrow> 32 < (of_char c :: nat) \<and> (of_char c :: nat) < 127"

lemma white_space_not_graphic: "w \<in> set white_space \<Longrightarrow> \<not> ascii_graphic (hd w) \<and> \<not> ascii_graphic (last w)"
  by (auto simp: white_space_def ascii_graphic_def)

lemma trim_graphic:
  assumes "s \<noteq> []" "ascii_graphic (hd s)" "ascii_graphic (last s)"
  shows "trim s = s"
proof -
  have "\<not> prefix w s" "\<not> prefix (rev w) (rev s)" if "w \<in> set white_space" for w
    using white_space_not_graphic [OF that] white_space_nonempty [OF that] assms
    by (auto simp: prefix_def hd_append rev_eq_append_conv)
  then show ?thesis
    by (simp add: trim_def trim_start_def trim_end_def trim_by_None_iff [THEN iffD2])
qed

lemma trim_start_trim [simp]: "trim_start (trim s) = trim s"
  by (metis trim_def trim_start_idem trim_start_prefix prefix_trim_end)

lemma trim_idem [simp]: "trim (trim s) = trim s"
  by (simp add: trim_def [of "trim s"]) (simp add: trim_def)

lemma trim_end_trim [simp]: "trim_end (trim s) = trim s"
  by (simp add: trim_def)

lemma trim_end_matches_idem [simp]:
  "trim_end_matches c (trim_end_matches c s) = trim_end_matches c s"
  by (simp add: trim_end_matches_def)

lemma trim_start_matches_idem [simp]:
  "trim_start_matches c (trim_start_matches c s) = trim_start_matches c s"
  by (simp add: trim_start_matches_def)

lemma prefix_trim_end_matches: "prefix (trim_end_matches c s) s"
  using suffix_dropWhile [of "\<lambda>x. x = c" "rev s"]
  by (simp add: trim_end_matches_def suffix_to_prefix)

lemma trim_end_matches_last: "trim_end_matches c s \<noteq> [] \<Longrightarrow> last (trim_end_matches c s) \<noteq> c"
  using hd_dropWhile [of "\<lambda>x. x = c" "rev s"] by (simp add: trim_end_matches_def last_rev)

lemma trim_start_matches_hd: "trim_start_matches c s \<noteq> [] \<Longrightarrow> hd (trim_start_matches c s) \<noteq> c"
  using hd_dropWhile [of "\<lambda>x. x = c" s] by (simp add: trim_start_matches_def)

lemma trim_end_matches_id: "s = [] \<or> last s \<noteq> c \<Longrightarrow> trim_end_matches c s = s"
  by (cases s rule: rev_cases) (auto simp: trim_end_matches_def)

lemma trim_start_matches_id: "s = [] \<or> hd s \<noteq> c \<Longrightarrow> trim_start_matches c s = s"
  by (cases s) (auto simp: trim_start_matches_def)

lemma trim_end_matches_decomp: "\<exists>n. s = trim_end_matches c s @ replicate n c"
proof -
  have "rev s = takeWhile (\<lambda>x. x = c) (rev s) @ dropWhile (\<lambda>x. x = c) (rev s)" by simp
  moreover have "takeWhile (\<lambda>x. x = c) (rev s) = replicate (length (takeWhile (\<lambda>x. x = c) (rev s))) c"
    by (rule replicate_length_same [symmetric]) (auto dest: set_takeWhileD)
  ultimately have "rev (rev s) = trim_end_matches c s @ replicate (length (takeWhile (\<lambda>x. x = c) (rev s))) c"
    by (metis rev_append rev_replicate trim_end_matches_def)
  then show ?thesis by auto
qed

lemma not_upper_ascii_lower [simp]: "\<not> is_ascii_uppercase (ascii_lower c)"
proof (cases "is_ascii_uppercase c")
  case True
  then have "(of_char c :: nat) + 32 < 256" by (simp add: is_ascii_uppercase_def)
  then have "(of_char (char_of ((of_char c :: nat) + 32)) :: nat) = of_char c + 32" by simp
  with True show ?thesis by (simp add: ascii_lower_def is_ascii_uppercase_def)
next
  case False
  then show ?thesis by (simp add: ascii_lower_def)
qed

lemma ascii_lower_id: "\<not> is_ascii_uppercase c \<Longrightarrow> ascii_lower c = c"
  by (simp add: ascii_lower_def)

lemma ascii_lower_eq_iff: "\<not> is_ascii_uppercase d \<Longrightarrow> \<not> is_ascii_uppercase c \<Longrightarrow> ascii_lower c = d \<longleftrightarrow> c = d"
  by (simp add: ascii_lower_id)

lemma to_ascii_lowercase_idem [simp]: "to_ascii_lowercase (to_ascii_lowercase s) = to_ascii_lowercase s"
  by (simp add: to_ascii_lowercase_def ascii_lower_id)

lemma to_ascii_lowercase_id: "\<forall>c \<in> set s. \<not> is_ascii_uppercase c \<Longrightarrow> to_ascii_lowercase s = s"
  by (simp add: to_ascii_lowercase_def ascii_lower_id map_idI)

lemma to_ascii_lowercase_Nil [simp]: "to_ascii_lowercase s = [] \<longleftrightarrow> s = []"
  by (simp add: to_ascii_lowercase_def)

lemma not_upper_to_ascii_lowercase: "c \<in> set (to_ascii_lowercase s) \<Longrightarrow> \<not> is_ascii_uppercase c"
  by (auto simp: to_ascii_lowercase_def)

section \<open>Splitting on a separator\<close>

lemma split_on_nonempty [simp]: "split_on c s \<noteq> []"
  by (cases s) (auto split: list.split)

lemma join_split [simp]: "join_with c (split_on c s) = s"
proof (induction s)
  case Nil
  then show ?case by simp
next
  case (Cons x s)
  obtain w ws where w: "split_on c s = w # ws" by (cases "split_on c s") auto
  with Cons show ?case by (cases ws) auto
qed

lemma split_on_append: "split_on c (a @ c # b) = split_on c a @ split_on c b"
  by (induction a) (auto split: list.split)

lemma join_with_append:
  "xs \<noteq> [] \<Longrightarrow> ys \<noteq> [] \<Longrightarrow> join_with c (xs @ ys) = join_with c xs @ c # join_with c ys"
proof (induction c xs rule: join_with.induct)
  case (2 c w)
  then show ?case by (cases ys) auto
qed auto

text \<open>
  A host lies under a domain exactly when the labels of the domain end the labels of the host.
\<close>

lemma suffix_split_on_iff: "suffix (split_on c e) (split_on c h) \<longleftrightarrow> h = e \<or> suffix (c # e) h"
proof
  assume "suffix (split_on c e) (split_on c h)"
  then obtain xs where xs: "split_on c h = xs @ split_on c e" by (auto simp: suffix_def)
  have "h = join_with c (xs @ split_on c e)" using join_split [of c h] xs by simp
  then show "h = e \<or> suffix (c # e) h"
    by (cases "xs = []") (auto simp: join_with_append suffix_def)
next
  assume "h = e \<or> suffix (c # e) h"
  then show "suffix (split_on c e) (split_on c h)"
    by (auto simp: suffix_def split_on_append)
qed

lemma prefix_rsplit_on_iff [str_simps]:
  "prefix (rsplit_on c e) (rsplit_on c h) \<longleftrightarrow> h = e \<or> suffix (c # e) h"
  by (simp add: rsplit_on_def suffix_to_prefix [symmetric] suffix_split_on_iff)

lemma strip_suffix_ends_iff [str_simps]:
  "(case strip_suffix h e of None \<Rightarrow> False | Some v \<Rightarrow> ends_with v [c]) \<longleftrightarrow> suffix (c # e) h"
  by (auto simp: strip_suffix_def ends_with_def suffix_def)

section \<open>Numbers as text\<close>

text \<open>Decimal digits, as \<^verbatim>\<open>usize::to_string\<close> and the formatting of ports write them.\<close>

fun decimal :: "nat \<Rightarrow> string" where
  "decimal n = (if n < 10 then [char_of (48 + n)] else decimal (n div 10) @ [char_of (48 + n mod 10)])"

declare decimal.simps [simp del]

lemma decimal_graphic: "list_all ascii_graphic (decimal n)"
proof (induction n rule: decimal.induct)
  case (1 n)
  have "ascii_graphic (char_of (48 + k))" if "k < 10" for k :: nat using that by (simp add: ascii_graphic_def)
  then show ?case using 1 by (subst decimal.simps) auto
qed

text \<open>A string that starts with a visible character is not blank.\<close>

lemma trim_by_all: "trim_by ws s = [] \<Longrightarrow> \<exists>vs. set vs \<subseteq> set ws - {[]} \<and> s = concat vs"
proof (induction ws s rule: trim_by.induct)
  case (1 ws s)
  show ?case
  proof (cases "find (\<lambda>w. w \<noteq> [] \<and> prefix w s) ws")
    case None
    with "1.prems" have "s = []" by (simp add: trim_by.simps)
    then show ?thesis by (intro exI [of _ "[]"]) simp
  next
    case (Some w)
    with "1.prems" have "trim_by ws (drop (length w) s) = []" by (simp add: trim_by.simps)
    from "1.IH" [OF Some this] obtain vs where "set vs \<subseteq> set ws - {[]}" "drop (length w) s = concat vs" by blast
    moreover from Some have "w \<noteq> []" "w \<in> set ws" "s = w @ drop (length w) s" by (auto simp: find_Some_iff prefix_def)
    ultimately show ?thesis by (intro exI [of _ "w # vs"]) auto
  qed
qed

lemma trim_nonempty:
  assumes "ascii_graphic c"
  shows "trim (c # s) \<noteq> []"
proof
  have "trim_start (c # s) = c # s"
    using assms white_space_not_graphic unfolding trim_start_def trim_by_None_iff
    by (metis list.sel(1) prefix_Cons)
  moreover assume "trim (c # s) = []"
  ultimately have "trim_by (map rev white_space) (rev (c # s)) = []" by (simp add: trim_def trim_end_def)
  from trim_by_all [OF this] obtain vs where vs: "set vs \<subseteq> set (map rev white_space) - {[]}" "rev (c # s) = concat vs" by blast
  then have "c # s = concat (map rev (rev vs))" by (metis rev_concat rev_rev_ident rev_map)
  moreover have "map rev (rev vs) \<noteq> []" using calculation by auto
  moreover have "hd (map rev (rev vs)) \<in> set white_space" "hd (map rev (rev vs)) \<noteq> []"
    using vs(1) \<open>map rev (rev vs) \<noteq> []\<close> by (auto simp: hd_rev hd_map dest!: last_in_set)
  ultimately have "c = hd (hd (map rev (rev vs)))"
    by (metis concat.simps(2) hd_append2 list.exhaust_sel list.sel(1))
  then show False using white_space_not_graphic \<open>hd (map rev (rev vs)) \<in> set white_space\<close> assms by metis
qed

section \<open>Time and shared state\<close>

text \<open>
  An \<^verbatim>\<open>Instant\<close> and a \<^verbatim>\<open>Duration\<close> are numbers of nanoseconds, a \<^verbatim>\<open>Mutex\<close> is its content and its
  poison flag.
\<close>

type_synonym instant = nat
type_synonym duration = nat
type_synonym system_time = nat

record 'a mutex =
  mx_poisoned :: bool
  mx_value :: 'a

definition mutex_new :: "'a \<Rightarrow> 'a mutex" where
  "mutex_new v = \<lparr>mx_poisoned = False, mx_value = v\<rparr>"

text \<open>The contract of a cache: a step keeps entries, drops them or adds some that were built for their key.\<close>

locale keyed_cache =
  fixes start :: 's
    and step :: "'s \<Rightarrow> 's \<Rightarrow> bool"
    and entries :: "'s \<Rightarrow> 'k \<rightharpoonup> 'v"
    and built :: "'k \<Rightarrow> 'v \<Rightarrow> bool"
  assumes starts_empty: "entries start k = None"
    and step_builds: "step\<^sup>*\<^sup>* start s \<Longrightarrow> step s s' \<Longrightarrow> entries s' k = Some v \<Longrightarrow> entries s k = Some v \<or> built k v"
begin

lemma cached_built:
  assumes "step\<^sup>*\<^sup>* start s" "entries s k = Some v"
  shows "built k v"
  using assms
proof (induction arbitrary: k v rule: rtranclp_induct)
  case (step s s')
  then show ?case using step_builds by blast
qed (simp add: starts_empty)

end

end
