(* ===== verification/Net_Types.thy ===== *)
theory Net_Types
  imports Prelude
begin

text \<open>
  Addresses, networks and URLs. The IP address types and the textual parser of
  \<^verbatim>\<open>std::net\<close> are modelled here, since the sources call \<^verbatim>\<open>str::parse::<IpAddr>\<close>. The crates
  \<^verbatim>\<open>url\<close> and \<^verbatim>\<open>ipnet\<close> are not part of the repository: a \<^verbatim>\<open>Url\<close> or an \<^verbatim>\<open>Ipv4Net\<close> is
  the record of what its accessors return, and the functions of those crates that compute (parsing,
  the URL setters, network membership) are the fields of \<open>ext_lib\<close>, an argument of the definitions
  that use them.
\<close>

section \<open>Machine integers\<close>

type_synonym u8 = "8 word"
type_synonym u16 = "16 word"
type_synonym u32 = "32 word"
type_synonym u128 = "128 word"

definition saturating_add :: "'a::len word \<Rightarrow> 'a word \<Rightarrow> 'a word" where
  "saturating_add x y = (if unat x + unat y < 2 ^ LENGTH('a) then x + y else - 1)"

lemma unat_max_value: "unat (- 1 :: 'a::len word) = 2 ^ LENGTH('a) - 1"
  by transfer (simp add: take_bit_minus_one_eq_mask nat_mask_eq mask_nat_def)

lemma unat_saturating_add:
  "unat (saturating_add x y) = min (unat x + unat y) (2 ^ LENGTH('a) - 1)"
  for x y :: "'a::len word"
  by (auto simp: saturating_add_def unat_word_ariths unat_max_value)

section \<open>IP addresses\<close>

datatype ip_addr = V4 u32 | V6 u128

record socket_addr =
  sock_ip :: ip_addr
  sock_port :: u16
  sock_scope_id :: u32

text \<open>The parser of \<^verbatim>\<open>core::net::parser\<close>: each reader returns the value and the rest.\<close>

definition to_digit :: "nat \<Rightarrow> char \<Rightarrow> nat option" where
  "to_digit radix c =
     (let n = (of_char c :: nat);
          d = (if 48 \<le> n \<and> n \<le> 57 then Some (n - 48)
               else if 97 \<le> n \<and> n \<le> 122 then Some (n - 87)
               else if 65 \<le> n \<and> n \<le> 90 then Some (n - 55)
               else None)
      in filter_opt (\<lambda>v. v < radix) d)"

fun read_digits :: "nat \<Rightarrow> nat \<Rightarrow> nat \<Rightarrow> nat \<Rightarrow> string \<Rightarrow> (nat \<times> nat \<times> string) option" where
  "read_digits radix max_digits cnt acc [] = Some (acc, cnt, [])"
| "read_digits radix max_digits cnt acc (c # cs) =
     (case to_digit radix c of
        None \<Rightarrow> Some (acc, cnt, c # cs)
      | Some d \<Rightarrow> if cnt + 1 > max_digits then None
                 else read_digits radix max_digits (cnt + 1) (acc * radix + d) cs)"

definition read_number :: "nat \<Rightarrow> nat \<Rightarrow> nat \<Rightarrow> bool \<Rightarrow> string \<Rightarrow> (nat \<times> string) option" where
  "read_number radix max_value max_digits allow_zero_prefix s =
     (case read_digits radix max_digits 0 0 s of
        None \<Rightarrow> None
      | Some (v, cnt, rest) \<Rightarrow>
          if cnt = 0 then None
          else if \<not> allow_zero_prefix \<and> starts_with s ''0'' \<and> cnt > 1 then None
          else if v > max_value then None
          else Some (v, rest))"

definition read_separator ::
  "char \<Rightarrow> nat \<Rightarrow> (string \<Rightarrow> ('a \<times> string) option) \<Rightarrow> string \<Rightarrow> ('a \<times> string) option" where
  "read_separator sep i inner s =
     (if i > 0 then (case s of [] \<Rightarrow> None | c # cs \<Rightarrow> if c = sep then inner cs else None)
      else inner s)"

text \<open>
  The loops over the groups of an address run over the list of the group numbers that are left.
\<close>

fun read_octets :: "nat list \<Rightarrow> string \<Rightarrow> (nat list \<times> string) option" where
  "read_octets [] s = Some ([], s)"
| "read_octets (i # is) s =
     (case read_separator CHR ''.'' i (read_number 10 255 3 False) s of
        None \<Rightarrow> None
      | Some (v, rest) \<Rightarrow>
          (case read_octets is rest of
             None \<Rightarrow> None
           | Some (vs, rest') \<Rightarrow> Some (v # vs, rest')))"

definition read_ipv4_addr :: "string \<Rightarrow> (nat list \<times> string) option" where
  "read_ipv4_addr s = read_octets [0, 1, 2, 3] s"

fun read_groups :: "nat list \<Rightarrow> string \<Rightarrow> nat list \<times> bool \<times> string" where
  "read_groups [] s = ([], False, s)"
| "read_groups (i # is) s =
     (case (if is \<noteq> [] then read_separator CHR '':'' i read_ipv4_addr s else None) of
        Some ([a, b, c, d], rest) \<Rightarrow> ([a * 256 + b, c * 256 + d], True, rest)
      | _ \<Rightarrow>
          (case read_separator CHR '':'' i (read_number 16 65535 4 True) s of
             None \<Rightarrow> ([], False, s)
           | Some (g, rest) \<Rightarrow>
               (case read_groups is rest of (gs, v4, rest') \<Rightarrow> (g # gs, v4, rest'))))"

definition read_ipv6_addr :: "string \<Rightarrow> (nat list \<times> string) option" where
  "read_ipv6_addr s =
     (case read_groups [0, 1, 2, 3, 4, 5, 6, 7] s of
        (head, head_ipv4, rest) \<Rightarrow>
          if length head = 8 then Some (head, rest)
          else if head_ipv4 then None
          else (case strip_prefix rest ''::'' of
                  None \<Rightarrow> None
                | Some rest' \<Rightarrow>
                    (case read_groups (take (8 - (length head + 1)) [0, 1, 2, 3, 4, 5, 6]) rest' of
                       (tail, _, rest'') \<Rightarrow>
                         Some (head @ replicate (8 - length head - length tail) 0 @ tail, rest''))))"

definition from_groups :: "nat \<Rightarrow> nat list \<Rightarrow> 'a::len word" where
  "from_groups base gs = of_nat (foldl (\<lambda>acc g. acc * base + g) 0 gs)"

definition parse_ip_addr :: "string \<Rightarrow> ip_addr option" where
  "parse_ip_addr s =
     (case read_ipv4_addr s of
        Some (os, rest) \<Rightarrow> if rest = [] then Some (V4 (from_groups 256 os)) else None
      | None \<Rightarrow>
          (case read_ipv6_addr s of
             Some (gs, rest) \<Rightarrow> if rest = [] then Some (V6 (from_groups 65536 gs)) else None
           | None \<Rightarrow> None))"

text \<open>Socket addresses: \<^verbatim>\<open>1.2.3.4:80\<close>, \<^verbatim>\<open>[::1]:80\<close>, \<^verbatim>\<open>[fe80::1%2]:80\<close>; only IPv6 has a scope.\<close>

definition read_port :: "string \<Rightarrow> (u16 \<times> string) option" where
  "read_port s =
     (case strip_prefix s '':'' of
        None \<Rightarrow> None
      | Some rest \<Rightarrow> map_option (\<lambda>(v, r). (of_nat v, r)) (read_number 10 65535 (length rest) True rest))"

definition read_socket_addr_v4 :: "string \<Rightarrow> (socket_addr \<times> string) option" where
  "read_socket_addr_v4 s =
     (case read_ipv4_addr s of
        None \<Rightarrow> None
      | Some (os, rest) \<Rightarrow>
          map_option (\<lambda>(p, r). (\<lparr>sock_ip = V4 (from_groups 256 os), sock_port = p, sock_scope_id = 0\<rparr>, r)) (read_port rest))"

definition read_scope_id :: "string \<Rightarrow> (u32 \<times> string) option" where
  "read_scope_id s =
     (case strip_prefix s ''%'' of
        None \<Rightarrow> None
      | Some rest \<Rightarrow> map_option (\<lambda>(v, r). (of_nat v, r)) (read_number 10 4294967295 (length rest) True rest))"

definition read_socket_addr_v6 :: "string \<Rightarrow> (socket_addr \<times> string) option" where
  "read_socket_addr_v6 s =
     Option.bind (strip_prefix s ''['') (\<lambda>s.
     Option.bind (read_ipv6_addr s) (\<lambda>(gs, s).
     let (scope, s) = (case read_scope_id s of Some (v, r) \<Rightarrow> (v, r) | None \<Rightarrow> (0, s))
     in Option.bind (strip_prefix s '']'') (\<lambda>s.
        map_option (\<lambda>(p, r). (\<lparr>sock_ip = V6 (from_groups 65536 gs), sock_port = p, sock_scope_id = scope\<rparr>, r))
          (read_port s))))"

definition parse_socket_addr :: "string \<Rightarrow> socket_addr option" where
  "parse_socket_addr s =
     (case (case read_socket_addr_v4 s of Some x \<Rightarrow> Some x | None \<Rightarrow> read_socket_addr_v6 s) of
        Some (a, rest) \<Rightarrow> if rest = [] then Some a else None
      | None \<Rightarrow> None)"

text \<open>\<^verbatim>\<open>str::parse::<u16>()\<close>: decimal digits after an optional plus sign.\<close>

definition parse_u16 :: "string \<Rightarrow> u16 option" where
  "parse_u16 s =
     (let digits = unwrap_or s (strip_prefix s ''+'')
      in case read_number 10 65535 (length digits) True digits of
           Some (v, rest) \<Rightarrow> if rest = [] then Some (of_nat v) else None
         | None \<Rightarrow> None)"

text \<open>The \<^verbatim>\<open>Display\<close> of addresses: octets in decimal, groups in hexadecimal with the first longest run of zero
  groups left out, and IPv4-mapped addresses with their IPv4 part.\<close>

definition octets :: "nat \<Rightarrow> nat \<Rightarrow> nat list" where
  "octets n w = map (\<lambda>i. w div 256 ^ i mod 256) (rev [0..<n])"

definition show_ipv4 :: "u32 \<Rightarrow> string" where
  "show_ipv4 a = join_with CHR ''.'' (map decimal (octets 4 (unat a)))"

definition hex_digit :: "nat \<Rightarrow> char" where
  "hex_digit d = (if d < 10 then char_of (48 + d) else char_of (87 + d))"

fun hexadecimal :: "nat \<Rightarrow> string" where
  "hexadecimal n = (if n < 16 then [hex_digit n] else hexadecimal (n div 16) @ [hex_digit (n mod 16)])"

declare hexadecimal.simps [simp del]

definition segments :: "u128 \<Rightarrow> nat list" where
  "segments a = map (\<lambda>i. unat a div 65536 ^ i mod 65536) (rev [0..<8])"

fun longest_zero_span :: "nat \<Rightarrow> nat \<times> nat \<Rightarrow> nat \<times> nat \<Rightarrow> nat list \<Rightarrow> nat \<times> nat" where
  "longest_zero_span i longest current [] = longest"
| "longest_zero_span i longest current (g # gs) =
     (if g = 0
      then (let current = (if snd current = 0 then (i, 1) else (fst current, snd current + 1))
            in longest_zero_span (i + 1) (if snd current > snd longest then current else longest) current gs)
      else longest_zero_span (i + 1) longest (0, 0) gs)"

definition show_ipv6 :: "u128 \<Rightarrow> string" where
  "show_ipv6 a =
     (let gs = segments a; fmt = (\<lambda>gs. join_with CHR '':'' (map hexadecimal gs))
      in if take 6 gs = [0, 0, 0, 0, 0, 65535]
         then ''::ffff:'' @ show_ipv4 (of_nat (unat a mod 2 ^ 32))
         else case longest_zero_span 0 (0, 0) (0, 0) gs of
                (start, len) \<Rightarrow>
                  if len > 1 then fmt (take start gs) @ ''::'' @ fmt (drop (start + len) gs) else fmt gs)"

text \<open>A bracketed address, the form in which URLs write IPv6 hosts, is not an address to this parser.\<close>

lemma read_number_bracket [simp]: "read_number r v m z (CHR ''['' # s) = None"
  by (auto simp: read_number_def to_digit_def filter_opt_def Let_def)

lemma read_octets_bracket [simp]: "read_octets (0 # is) (CHR ''['' # s) = None"
  by (simp add: read_separator_def)

lemma read_groups_bracket [simp]: "read_groups (0 # is) (CHR ''['' # s) = ([], False, CHR ''['' # s)"
  by (simp add: read_separator_def read_ipv4_addr_def)

lemma parse_ip_addr_bracket: "starts_with s ''['' \<Longrightarrow> parse_ip_addr s = None"
  by (auto simp: starts_with_def prefix_def parse_ip_addr_def read_ipv4_addr_def read_ipv6_addr_def
      read_separator_def strip_prefix_def)

lemma replicate_numeral_eval: "replicate (numeral k) x = x # replicate (pred_numeral k) x"
  by (simp add: numeral_eq_Suc)

lemmas ip_parse_eval = replicate_numeral_eval
  parse_ip_addr_def read_ipv4_addr_def read_ipv6_addr_def read_number_def read_separator_def
  to_digit_def filter_opt_def Let_def starts_with_def strip_prefix_def from_groups_def

section \<open>Networks (crate ipnet)\<close>

record ipv4_net =
  net4_network :: u32
  net4_prefix_len :: nat
  net4_broadcast :: u32

record ipv6_net =
  net6_network :: u128
  net6_prefix_len :: nat

datatype ip_net = NetV4 ipv4_net | NetV6 ipv6_net

text \<open>What \<^verbatim>\<open>ipnet\<close> guarantees of every network value: the prefix length fits the address,
  \<open>network()\<close> has no host bits and \<open>broadcast()\<close> has all of them.\<close>

definition ipv4_net_ok :: "ipv4_net \<Rightarrow> bool" where
  "ipv4_net_ok n \<longleftrightarrow> net4_prefix_len n \<le> 32
     \<and> take_bit (32 - net4_prefix_len n) (net4_network n) = 0
     \<and> net4_broadcast n = net4_network n + mask (32 - net4_prefix_len n)"

definition ipv6_net_ok :: "ipv6_net \<Rightarrow> bool" where
  "ipv6_net_ok n \<longleftrightarrow> net6_prefix_len n \<le> 128
     \<and> take_bit (128 - net6_prefix_len n) (net6_network n) = 0"

definition ip_net_ok :: "ip_net \<Rightarrow> bool" where
  "ip_net_ok n = (case n of NetV4 m \<Rightarrow> ipv4_net_ok m | NetV6 m \<Rightarrow> ipv6_net_ok m)"

section \<open>URLs (crate url)\<close>

record url =
  url_scheme :: string
  url_host_str :: "string option"
  url_port :: "u16 option"
  url_port_or_known_default :: "u16 option"
  url_path :: string
  url_query :: "string option"
  url_fragment :: "string option"
  url_as_str :: string

record ext_lib =
  url_parse :: "string \<Rightarrow> url option"
  url_set_path :: "url \<Rightarrow> string \<Rightarrow> url"
  url_set_query :: "url \<Rightarrow> string option \<Rightarrow> url"
  url_set_fragment :: "url \<Rightarrow> string option \<Rightarrow> url"
  ipnet_parse :: "string \<Rightarrow> ip_net option"
  ipnet_contains :: "ip_net \<Rightarrow> ip_addr \<Rightarrow> bool"

text \<open>
  Membership as \<^verbatim>\<open>ipnet\<close> documents it: an address of the same family that agrees with the
  network on the bits of the prefix.
\<close>

definition in_prefix :: "'a::len word \<Rightarrow> nat \<Rightarrow> 'a word \<Rightarrow> bool" where
  "in_prefix net len a = (drop_bit (LENGTH('a) - len) a = drop_bit (LENGTH('a) - len) net)"

definition ip_net_contains :: "ip_net \<Rightarrow> ip_addr \<Rightarrow> bool" where
  "ip_net_contains n a =
     (case (n, a) of
        (NetV4 m, V4 x) \<Rightarrow> in_prefix (net4_network m) (net4_prefix_len m) x
      | (NetV6 m, V6 x) \<Rightarrow> in_prefix (net6_network m) (net6_prefix_len m) x
      | _ \<Rightarrow> False)"

definition ipnet_contains_law :: "ext_lib \<Rightarrow> bool" where
  "ipnet_contains_law L \<longleftrightarrow> (\<forall>n a. ip_net_ok n \<longrightarrow> ipnet_contains L n a = ip_net_contains n a)"

section \<open>A concrete instance\<close>

text \<open>
  URLs of the form the theorems are applied at, and crate functions that act on the records as the
  crates document: the setters replace one component, membership compares the prefix bits.
\<close>

definition sample_url :: "string \<Rightarrow> string \<Rightarrow> url" where
  "sample_url host path =
     \<lparr>url_scheme = ''https'', url_host_str = Some host, url_port = None,
      url_port_or_known_default = Some 443, url_path = path, url_query = None, url_fragment = None,
      url_as_str = ''https://'' @ host @ path\<rparr>"

definition sample_lib :: ext_lib where
  "sample_lib =
     \<lparr>url_parse = (\<lambda>s. map_option
          (\<lambda>rest. sample_url (takeWhile (\<lambda>c. c \<noteq> CHR ''/'') rest)
             (CHR ''/'' # tl (dropWhile (\<lambda>c. c \<noteq> CHR ''/'') rest)))
          (strip_prefix s ''https://'')),
      url_set_path = (\<lambda>u p. u\<lparr>url_path := p\<rparr>),
      url_set_query = (\<lambda>u q. u\<lparr>url_query := q\<rparr>),
      url_set_fragment = (\<lambda>u f. u\<lparr>url_fragment := f\<rparr>),
      ipnet_parse = (\<lambda>s. if s = ''10.0.0.0/8''
        then Some (NetV4 \<lparr>net4_network = 0x0A000000, net4_prefix_len = 8, net4_broadcast = 0x0AFFFFFF\<rparr>)
        else None),
      ipnet_contains = ip_net_contains\<rparr>"

lemma sample_lib_contains_law: "ipnet_contains_law sample_lib"
  by (simp add: ipnet_contains_law_def sample_lib_def)

end
