(* ===== verification/Rule_Model.thy ===== *)
theory Rule_Model
  imports Net_Types
begin

text \<open>
  The data of the rule engine: \<^verbatim>\<open>src/src/rules/model.rs\<close> (compiled rules) and
  \<^verbatim>\<open>src/src/rules/schema.rs\<close> (rules as the configuration writes them). Type variables stand for
  types of crates: \<open>'h\<close> for \<^verbatim>\<open>http::HeaderMap\<close>, \<open>'j\<close> for \<^verbatim>\<open>serde_json::Value\<close>.
\<close>

section \<open>Compiled rules (model.rs)\<close>

datatype dns_mode = DnsSystem | DnsUdp | DnsDot | DnsDoh

record dns_plan =
  dp_mode :: dns_mode
  dp_server :: "string option"

record upstream_plan =
  up_url :: url
  up_sni :: "string option"
  up_host :: "string option"
  up_connect_host :: "string option"
  up_connect_ip :: "ip_addr option"
  up_dns :: "dns_plan option"

record reject_rule_action =
  rej_status :: u16
  rej_message :: string

datatype respond_body_source = BodyInline string | BodyFile string

record 'h respond_rule_action =
  resp_status :: u16
  resp_headers :: 'h
  resp_body :: respond_body_source

datatype 'h rule_action =
    ActMirror upstream_plan
  | ActDirect
  | ActRespond "'h respond_rule_action"
  | ActPlugin string
  | ActReject reject_rule_action

datatype rule_action_kind = KMirror | KDirect | KRespond | KPlugin | KReject

datatype 'h resolved_rule_action =
    ResMirror upstream_plan
  | ResDirect upstream_plan
  | ResRespond "'h respond_rule_action"
  | ResPlugin string
  | ResReject reject_rule_action

datatype host_pattern = HostExact string | HostAnyOf "string list" | HostSuffix string

datatype ip_pattern = IpExact ip_addr | IpCidr ip_net

record host_rule_matcher =
  hm_pattern :: host_pattern
  hm_scheme :: "string option"
  hm_port :: "u16 option"
  hm_path_prefix :: "string option"

record ip_rule_matcher =
  im_pattern :: ip_pattern
  im_scheme :: "string option"
  im_port :: "u16 option"
  im_path_prefix :: "string option"

datatype rule_matcher =
    ExactUrl url
  | PrefixUrl url
  | HostM host_rule_matcher
  | IpM ip_rule_matcher

datatype rule_kind = KindExact | KindPrefix | KindHost | KindHosts | KindHostSuffix | KindIp | KindIpCidr

text \<open>\<^verbatim>\<open>RulePriority(i32)\<close> derives its order from its field; the field is only compared.\<close>

datatype rule_priority = RulePriority (priority_value: int)

instantiation rule_priority :: linorder
begin

definition less_eq_rule_priority :: "rule_priority \<Rightarrow> rule_priority \<Rightarrow> bool" where
  "less_eq_rule_priority p q = (priority_value p \<le> priority_value q)"

definition less_rule_priority :: "rule_priority \<Rightarrow> rule_priority \<Rightarrow> bool" where
  "less_rule_priority p q = (priority_value p < priority_value q)"

instance
  by standard (auto simp: less_eq_rule_priority_def less_rule_priority_def rule_priority.expand)

end

definition XLOW :: rule_priority where "XLOW = RulePriority (- 200)"
definition LOW :: rule_priority where "LOW = RulePriority (- 100)"
definition MEDIUM :: rule_priority where "MEDIUM = RulePriority 0"
definition HIGH :: rule_priority where "HIGH = RulePriority 100"
definition XHIGH :: rule_priority where "XHIGH = RulePriority 200"

lemmas priority_consts = XLOW_def LOW_def MEDIUM_def HIGH_def XHIGH_def

definition semantic_name :: "rule_priority \<Rightarrow> string option" where
  "semantic_name p =
     (if p = XLOW then Some ''xlow''
      else if p = LOW then Some ''low''
      else if p = MEDIUM then Some ''medium''
      else if p = HIGH then Some ''high''
      else if p = XHIGH then Some ''xhigh''
      else None)"

record 'h rule =
  r_kind :: rule_kind
  r_matcher :: rule_matcher
  r_action :: "'h rule_action"
  r_priority :: rule_priority
  r_spread :: bool

section \<open>Rules as configured (schema.rs)\<close>

datatype named_rule_priority = NXLow | NLow | NMedium | NHigh | NXHigh

datatype rule_priority_schema = Named named_rule_priority | Numeric int

fun named_into_priority :: "named_rule_priority \<Rightarrow> rule_priority" where
  "named_into_priority NXLow = XLOW"
| "named_into_priority NLow = LOW"
| "named_into_priority NMedium = MEDIUM"
| "named_into_priority NHigh = HIGH"
| "named_into_priority NXHigh = XHIGH"

fun into_priority :: "rule_priority_schema \<Rightarrow> rule_priority" where
  "into_priority (Named v) = named_into_priority v"
| "into_priority (Numeric v) = RulePriority v"

record rule_matcher_schema =
  ms_exact :: "string option"
  ms_prefix :: "string option"
  ms_host :: "string option"
  ms_hosts :: "string list option"
  ms_host_suffix :: "string option"
  ms_ip :: "ip_addr option"
  ms_ip_cidr :: "string option"
  ms_scheme :: "string option"
  ms_port :: "u16 option"
  ms_path_prefix :: "string option"

record dns_plan_schema =
  ds_mode :: dns_mode
  ds_server :: "string option"

record upstream_plan_schema =
  us_url :: string
  us_sni :: "string option"
  us_host :: "string option"
  us_connect_host :: "string option"
  us_connect_ip :: "ip_addr option"
  us_dns :: "dns_plan_schema option"

record 'j respond_body_schema =
  bs_text :: "string option"
  bs_json :: "'j option"
  bs_base64 :: "string option"
  bs_file :: "string option"

text \<open>The \<^verbatim>\<open>HashMap\<close> of response headers is the list of its entries in iteration order.\<close>

datatype 'j rule_action_schema =
    SMirror upstream_plan_schema
  | SDirect
  | SRespond "u16 option" "(string \<times> string) list option" "string option" "'j respond_body_schema option"
  | SPlugin string
  | SReject "u16 option" "string option"

record 'j rule_schema =
  rs_matcher :: rule_matcher_schema
  rs_priority :: "rule_priority_schema option"
  rs_spread :: "bool option"
  rs_action :: "'j rule_action_schema"

section \<open>Facts\<close>

lemma priority_order: "XLOW < LOW" "LOW < MEDIUM" "MEDIUM < HIGH" "HIGH < XHIGH"
  by (simp_all add: less_rule_priority_def priority_consts)

lemma semantic_name_named: "semantic_name (named_into_priority n) \<noteq> None"
  by (cases n) (simp_all add: semantic_name_def)

lemma named_into_priority_inj: "named_into_priority m = named_into_priority n \<Longrightarrow> m = n"
  by (cases m; cases n) (simp_all add: priority_consts)

end
