(* ===== verification/Rule_Matching.thy ===== *)
theory Rule_Matching
  imports Rule_Model
begin

text \<open>
  URL and path comparison and the normalisation of matcher fields: \<^verbatim>\<open>src/src/rules/matching.rs\<close>.
  The \<^verbatim>\<open>anyhow\<close> errors are the constructors of \<open>rule_error\<close>, shared with the rule compiler;
  a constructor carries the values its message interpolates.
\<close>

datatype rule_error =
    HostEmpty
  | HostNotBare string
  | HostSuffixEmpty
  | HostSuffixNotBare string
  | BadScheme string
  | BadPathPrefix string
  | MatchNotExactlyOne
  | ExactCombined
  | BadExactUrl string
  | PrefixCombined
  | BadPrefixUrl string
  | HostsEmpty
  | BadIpCidr string
  | PluginNameEmpty
  | RejectStatus u16
  | RejectMessageEmpty
  | BadUpstreamUrl string
  | RespondStatus u16
  | BadHeaderName string
  | HeaderContentLength
  | HeaderContentType
  | BadHeaderValue string
  | ContentTypeEmpty
  | BadContentType string
  | BodyNotExactlyOne
  | JsonSerialize
  | BodyFileEmpty
  | BodyFileUnreadable string
  | BodyFileNotRegular string
  | BadBase64
  | DnsServerForbidden
  | DnsServerRequired
  | PrefixQuery url url
  | HostPrefixQuery url
  | IpPrefixQuery url
  | ConnectHostAndIp
  | DnsWithConnectIp

section \<open>Definitions\<close>

definition same_origin :: "url \<Rightarrow> url \<Rightarrow> bool" where
  "same_origin left right =
     (url_scheme left = url_scheme right
      \<and> url_host_str left = url_host_str right
      \<and> url_port_or_known_default left = url_port_or_known_default right)"

definition same_url :: "url \<Rightarrow> url \<Rightarrow> bool" where
  "same_url left right =
     (same_origin left right \<and> url_path left = url_path right \<and> url_query left = url_query right)"

text \<open>\<^verbatim>\<open>path.as_bytes().get(prefix.len())\<close>, \<open>None\<close> past the end.\<close>

definition byte_at :: "string \<Rightarrow> nat \<Rightarrow> char option" where
  "byte_at s i = (if i < length s then Some (s ! i) else None)"

definition path_has_prefix :: "string \<Rightarrow> string \<Rightarrow> bool" where
  "path_has_prefix path pre =
     (if pre = ''/'' then True
      else if \<not> starts_with path pre then False
      else if ends_with pre ''/'' then True
      else (case byte_at path (length pre) of None \<Rightarrow> True | Some b \<Rightarrow> b = CHR ''/''))"

definition join_paths :: "string \<Rightarrow> string \<Rightarrow> string" where
  "join_paths base suf =
     (let result = trim_end_matches CHR ''/'' base;
          suf = trim_start_matches CHR ''/'' suf;
          result = (if result = [] then ''/'' else result)
      in if suf \<noteq> [] then (if \<not> ends_with result ''/'' then result @ ''/'' else result) @ suf
         else result)"

definition normalize_host_cow :: "string \<Rightarrow> (rule_error, string) result" where
  "normalize_host_cow value =
     (let trimmed = trim value;
          normalized = trim_end_matches CHR ''.'' trimmed
      in bind_r (ensure_r (normalized \<noteq> []) HostEmpty) (\<lambda>_.
         bind_r (ensure_r (\<not> contains_str normalized ''://'' \<and> \<not> contains_char normalized CHR ''/'')
                   (HostNotBare value)) (\<lambda>_.
         if list_all (\<lambda>b. \<not> is_ascii_uppercase b) normalized then Ok normalized
         else Ok (to_ascii_lowercase normalized))))"

definition normalize_host :: "string \<Rightarrow> (rule_error, string) result" where
  "normalize_host value = bind_r (normalize_host_cow value) (\<lambda>normalized. Ok normalized)"

definition normalize_host_suffix :: "string \<Rightarrow> (rule_error, string) result" where
  "normalize_host_suffix value =
     (let normalized = to_ascii_lowercase (trim_matches CHR ''.'' (trim value))
      in bind_r (ensure_r (normalized \<noteq> []) HostSuffixEmpty) (\<lambda>_.
         bind_r (ensure_r (\<not> contains_str normalized ''://'' \<and> \<not> contains_char normalized CHR ''/'')
                   (HostSuffixNotBare value)) (\<lambda>_.
         Ok normalized)))"

definition normalize_scheme :: "string \<Rightarrow> (rule_error, string) result" where
  "normalize_scheme value =
     (if value = ''http'' \<or> value = ''https'' then Ok value else Err (BadScheme value))"

definition normalize_path_prefix :: "string \<Rightarrow> (rule_error, string) result" where
  "normalize_path_prefix value =
     bind_r (ensure_r (starts_with value ''/'') (BadPathPrefix value)) (\<lambda>_. Ok value)"

section \<open>Paths\<close>

text \<open>
  A path lies under a prefix: it is the prefix, or it continues it at a segment boundary (the
  prefix ends with a slash, or a slash follows).
\<close>

definition under_prefix :: "string \<Rightarrow> string \<Rightarrow> bool" where
  "under_prefix path pre \<longleftrightarrow>
     (\<exists>rest. path = pre @ rest \<and> (rest = [] \<or> hd rest = CHR ''/'' \<or> ends_with pre ''/''))"

lemma path_has_prefix_iff:
  "path_has_prefix path pre \<longleftrightarrow> pre = ''/'' \<or> under_prefix path pre"
  by (auto simp: path_has_prefix_def under_prefix_def starts_with_def prefix_def byte_at_def
      nth_append hd_conv_nth split: if_splits)

lemma path_has_prefix_root [simp]: "path_has_prefix path ''/''"
  by (simp add: path_has_prefix_def)

lemma path_has_prefix_refl [simp]: "path_has_prefix p p"
  by (auto simp: path_has_prefix_iff under_prefix_def)

lemma trim_end_matches_not_suffix: "\<not> suffix [c] (trim_end_matches c s)"
  using trim_end_matches_last [of c s] by (auto simp: suffix_def)

lemma dropWhile_replicate_eq [simp]:
  "dropWhile (\<lambda>x. x = c) (replicate n c @ s) = dropWhile (\<lambda>x. x = c) s"
  by (induction n) simp_all

lemma trim_end_matches_append [simp]:
  "trim_end_matches c (s @ replicate n c) = trim_end_matches c s"
  by (simp add: trim_end_matches_def)

lemma join_paths_alt:
  "join_paths base suf =
     (let b = trim_end_matches CHR ''/'' base; s = trim_start_matches CHR ''/'' suf
      in if b = [] then ''/'' @ s else if s = [] then b else b @ ''/'' @ s)"
  by (simp add: join_paths_def Let_def ends_with_def trim_end_matches_not_suffix)

text \<open>
  Joining places exactly one slash at the seam: the result is under the base, is the base when
  there is nothing to append, and is never empty.
\<close>

lemma join_paths_nonempty: "join_paths base suf \<noteq> []"
  by (auto simp: join_paths_alt Let_def)

lemma join_paths_under:
  "under_prefix (join_paths base suf) (trim_end_matches CHR ''/'' base)"
  by (auto simp: join_paths_alt Let_def under_prefix_def)

lemma join_paths_slashes:
  "join_paths (trim_end_matches CHR ''/'' base @ replicate n CHR ''/'') (replicate m CHR ''/'' @ suf)
     = join_paths base suf"
proof -
  have "trim_end_matches CHR ''/'' (trim_end_matches CHR ''/'' base @ replicate n CHR ''/'')
      = trim_end_matches CHR ''/'' base"
    by (simp add: trim_end_matches_append)
  moreover have "trim_start_matches CHR ''/'' (replicate m CHR ''/'' @ suf)
      = trim_start_matches CHR ''/'' suf"
    by (simp add: trim_start_matches_def)
  ultimately show ?thesis by (simp add: join_paths_alt)
qed

lemma join_paths_starts_slash:
  assumes "starts_with base ''/''"
  shows "starts_with (join_paths base suf) ''/''"
proof (cases "trim_end_matches CHR ''/'' base")
  case Nil
  then show ?thesis by (simp add: join_paths_alt starts_with_def)
next
  case (Cons c cs)
  then have "c = CHR ''/''"
    using assms prefix_trim_end_matches [of "CHR ''/''" base] by (auto simp: starts_with_def prefix_def)
  with Cons show ?thesis by (simp add: join_paths_alt starts_with_def Let_def)
qed

section \<open>Hosts\<close>

text \<open>What a normalised host looks like: bare, lower-case, without white space in front or a final dot.\<close>

definition bare_host :: "string \<Rightarrow> bool" where
  "bare_host h \<longleftrightarrow> h \<noteq> [] \<and> last h \<noteq> CHR ''.'' \<and> CHR ''/'' \<notin> set h
     \<and> (\<forall>c \<in> set h. \<not> is_ascii_uppercase c)"

lemma contains_str_char: "contains_str s p \<Longrightarrow> c \<in> set p \<Longrightarrow> contains_char s c"
  by (auto simp: contains_str_def contains_char_def sublist_def)

lemma ascii_lower_eq_not_upper:
  assumes "\<not> is_ascii_uppercase d" "of_char d < (97 :: nat) \<or> 122 < (of_char d :: nat)"
  shows "ascii_lower c = d \<longleftrightarrow> c = d"
proof
  assume *: "ascii_lower c = d"
  show "c = d"
  proof (rule ccontr)
    assume "c \<noteq> d"
    with * have u: "is_ascii_uppercase c" by (auto simp: ascii_lower_def split: if_splits)
    then have "(of_char c :: nat) + 32 < 256" by (simp add: is_ascii_uppercase_def)
    with * u have "(of_char d :: nat) = of_char c + 32" by (auto simp: ascii_lower_def)
    with u assms(2) show False by (simp add: is_ascii_uppercase_def)
  qed
next
  assume "c = d"
  with assms(1) show "ascii_lower c = d" by (simp add: ascii_lower_def)
qed

lemma ascii_lower_eq_slash [simp]: "ascii_lower c = CHR ''/'' \<longleftrightarrow> c = CHR ''/''"
  by (rule ascii_lower_eq_not_upper) (simp_all add: is_ascii_uppercase_def)

lemma ascii_lower_eq_dot [simp]: "ascii_lower c = CHR ''.'' \<longleftrightarrow> c = CHR ''.''"
  by (rule ascii_lower_eq_not_upper) (simp_all add: is_ascii_uppercase_def)

lemma set_lower_slash [simp]: "CHR ''/'' \<in> set (to_ascii_lowercase s) \<longleftrightarrow> CHR ''/'' \<in> set s"
  by (simp add: to_ascii_lowercase_def image_iff eq_commute [of "CHR ''/''"])

lemma last_lower_dot [simp]:
  "s \<noteq> [] \<Longrightarrow> last (to_ascii_lowercase s) = CHR ''.'' \<longleftrightarrow> last s = CHR ''.''"
  by (simp add: to_ascii_lowercase_def last_map)

text \<open>\<open>normalize_host\<close> is \<open>normalize_host_cow\<close> with the borrow made owned.\<close>

lemma normalize_host_Ok_iff:
  "normalize_host value = Ok h \<longleftrightarrow>
     h = to_ascii_lowercase (trim_end_matches CHR ''.'' (trim value)) \<and> h \<noteq> []
     \<and> CHR ''/'' \<notin> set h"
  by (auto simp: normalize_host_def normalize_host_cow_def Let_def result_simps list_all_iff
      to_ascii_lowercase_id contains_char_def dest: contains_str_char [where c = "CHR ''/''"])

lemma normalize_host_cow_eq: "normalize_host_cow value = normalize_host value"
  by (cases "normalize_host_cow value") (simp_all add: normalize_host_def)

lemma normalize_host_bare: "normalize_host value = Ok h \<Longrightarrow> bare_host h"
  using trim_end_matches_last [of "CHR ''.''" "trim value"]
  by (auto simp: normalize_host_Ok_iff bare_host_def not_upper_to_ascii_lowercase)

lemma normalize_host_error:
  "normalize_host value = Err e \<longleftrightarrow>
     (let n = trim_end_matches CHR ''.'' (trim value)
      in if n = [] then e = HostEmpty else CHR ''/'' \<in> set n \<and> e = HostNotBare value)"
  by (auto simp: normalize_host_def normalize_host_cow_def Let_def bind_r_def ensure_r_def
      contains_char_def dest: contains_str_char [where c = "CHR ''/''"])

lemma normalize_host_id: "bare_host h \<Longrightarrow> trim h = h \<Longrightarrow> normalize_host h = Ok h"
  by (simp add: normalize_host_Ok_iff bare_host_def trim_end_matches_id to_ascii_lowercase_id)

lemma normalize_host_suffix_Ok_iff:
  "normalize_host_suffix value = Ok h \<longleftrightarrow>
     h = to_ascii_lowercase (trim_matches CHR ''.'' (trim value)) \<and> h \<noteq> [] \<and> CHR ''/'' \<notin> set h"
  by (auto simp: normalize_host_suffix_def Let_def result_simps
      contains_char_def dest: contains_str_char [where c = "CHR ''/''"])

lemma normalize_host_suffix_bare: "normalize_host_suffix value = Ok h \<Longrightarrow> bare_host h"
  using trim_end_matches_last [of "CHR ''.''" "trim_start_matches CHR ''.'' (trim value)"]
  by (auto simp: normalize_host_suffix_Ok_iff bare_host_def trim_matches_def
      not_upper_to_ascii_lowercase)

end
