(* ===== verification/Rule_Trie.thy ===== *)
theory Rule_Trie
  imports Rule_Matching
begin

text \<open>
  The tries of the rule index: \<^verbatim>\<open>src/src/rules/pool/trie.rs\<close>. A node keeps its children in a
  map, its terminals in a vector and the smallest rule index below it; the mutable walk
  \<^verbatim>\<open>node = node.children.entry(..).or_default()\<close> is recursion on the key. A visitor closure
  that pushes is the list of the indices it receives, in the order of the calls.

  The locale \<open>index_trie\<close> is what the three node types have in common; \<open>rule_buckets\<close> is the contract
  the rule index relies on: which indices a visit reports after a sequence of insertions.
\<close>

section \<open>Pruning by rule index\<close>

fun update_min_rule_index :: "nat option \<Rightarrow> nat \<Rightarrow> nat option" where
  "update_min_rule_index (Some current) index = (if current \<le> index then Some current else Some index)"
| "update_min_rule_index None index = Some index"

definition should_skip_index :: "nat \<Rightarrow> nat option \<Rightarrow> bool" where
  "should_skip_index index cutoff_index = (case cutoff_index of None \<Rightarrow> False | Some cutoff \<Rightarrow> index \<ge> cutoff)"

definition should_skip_subtree :: "nat option \<Rightarrow> nat option \<Rightarrow> bool" where
  "should_skip_subtree min_rule_index cutoff_index =
     (min_rule_index = None
      \<or> (case (cutoff_index, min_rule_index) of
           (Some cutoff, Some min_index) \<Rightarrow> min_index \<ge> cutoff
         | _ \<Rightarrow> False))"

section \<open>PrefixPathTrie\<close>

record prefix_terminal =
  pt_index :: nat
  pt_matches_descendants :: bool

datatype prefix_path_node =
  PrefixPathNode (pp_children: "char \<Rightarrow> prefix_path_node option")
    (pp_terminals: "prefix_terminal list") (pp_min_rule_index: "nat option")

definition prefix_path_default :: prefix_path_node where
  "prefix_path_default = PrefixPathNode Map.empty [] None"

fun prefix_path_insert_at :: "string \<Rightarrow> prefix_terminal \<Rightarrow> prefix_path_node \<Rightarrow> prefix_path_node" where
  "prefix_path_insert_at [] t (PrefixPathNode ch ts m) =
     PrefixPathNode ch (ts @ [t]) (update_min_rule_index m (pt_index t))"
| "prefix_path_insert_at (b # bs) t (PrefixPathNode ch ts m) =
     PrefixPathNode (ch(b \<mapsto> prefix_path_insert_at bs t (unwrap_or prefix_path_default (ch b)))) ts
       (update_min_rule_index m (pt_index t))"

definition prefix_path_insert :: "string \<Rightarrow> nat \<Rightarrow> prefix_path_node \<Rightarrow> prefix_path_node" where
  "prefix_path_insert path index root =
     prefix_path_insert_at path
       \<lparr>pt_index = index, pt_matches_descendants = (path = ''/'' \<or> ends_with path ''/'')\<rparr> root"

definition terminal_visible :: "string \<Rightarrow> prefix_terminal \<Rightarrow> bool" where
  "terminal_visible rest t =
     (pt_matches_descendants t \<or> (case rest of [] \<Rightarrow> True | b # _ \<Rightarrow> b = CHR ''/''))"

fun prefix_path_walk :: "string \<Rightarrow> nat option \<Rightarrow> prefix_path_node \<Rightarrow> nat list" where
  "prefix_path_walk [] cutoff node = []"
| "prefix_path_walk (b # rest) cutoff node =
     (case pp_children node b of
        None \<Rightarrow> []
      | Some nxt \<Rightarrow>
          if should_skip_subtree (pp_min_rule_index nxt) cutoff then []
          else map pt_index
                 (filter (\<lambda>t. \<not> should_skip_index (pt_index t) cutoff \<and> terminal_visible rest t)
                    (pp_terminals nxt))
               @ prefix_path_walk rest cutoff nxt)"

definition prefix_path_visit :: "prefix_path_node \<Rightarrow> string \<Rightarrow> nat option \<Rightarrow> nat list" where
  "prefix_path_visit root path cutoff =
     (if should_skip_subtree (pp_min_rule_index root) cutoff then []
      else prefix_path_walk path cutoff root)"

section \<open>SuffixHostTrie\<close>

datatype suffix_host_node =
  SuffixHostNode (sh_children: "string \<Rightarrow> suffix_host_node option")
    (sh_rule_indices: "nat list") (sh_dns_terminal: bool) (sh_min_rule_index: "nat option")

definition suffix_host_default :: suffix_host_node where
  "suffix_host_default = SuffixHostNode Map.empty [] False None"

fun suffix_host_insert_at :: "string list \<Rightarrow> nat \<Rightarrow> suffix_host_node \<Rightarrow> suffix_host_node" where
  "suffix_host_insert_at [] i (SuffixHostNode ch is d m) =
     SuffixHostNode ch (is @ [i]) d (update_min_rule_index m i)"
| "suffix_host_insert_at (l # ls) i (SuffixHostNode ch is d m) =
     SuffixHostNode (ch(l \<mapsto> suffix_host_insert_at ls i (unwrap_or suffix_host_default (ch l)))) is d
       (update_min_rule_index m i)"

definition suffix_host_insert_rule :: "string \<Rightarrow> nat \<Rightarrow> suffix_host_node \<Rightarrow> suffix_host_node" where
  "suffix_host_insert_rule suf index root = suffix_host_insert_at (rsplit_on CHR ''.'' suf) index root"

fun mark_dns_at :: "string list \<Rightarrow> suffix_host_node \<Rightarrow> suffix_host_node" where
  "mark_dns_at [] (SuffixHostNode ch is d m) = SuffixHostNode ch is True m"
| "mark_dns_at (l # ls) (SuffixHostNode ch is d m) =
     SuffixHostNode (ch(l \<mapsto> mark_dns_at ls (unwrap_or suffix_host_default (ch l)))) is d m"

definition mark_dns :: "string \<Rightarrow> suffix_host_node \<Rightarrow> suffix_host_node" where
  "mark_dns suf root = mark_dns_at (rsplit_on CHR ''.'' suf) root"

fun suffix_host_walk :: "string list \<Rightarrow> nat option \<Rightarrow> suffix_host_node \<Rightarrow> nat list" where
  "suffix_host_walk [] cutoff node = []"
| "suffix_host_walk (l # ls) cutoff node =
     (case sh_children node l of
        None \<Rightarrow> []
      | Some nxt \<Rightarrow>
          if should_skip_subtree (sh_min_rule_index nxt) cutoff then []
          else filter (\<lambda>i. \<not> should_skip_index i cutoff) (sh_rule_indices nxt)
               @ suffix_host_walk ls cutoff nxt)"

definition suffix_host_visit :: "suffix_host_node \<Rightarrow> string \<Rightarrow> nat option \<Rightarrow> nat list" where
  "suffix_host_visit root host cutoff =
     (if should_skip_subtree (sh_min_rule_index root) cutoff then []
      else suffix_host_walk (rsplit_on CHR ''.'' host) cutoff root)"

fun suffix_host_matches_at :: "string list \<Rightarrow> suffix_host_node \<Rightarrow> bool" where
  "suffix_host_matches_at [] node = False"
| "suffix_host_matches_at (l # ls) node =
     (case sh_children node l of
        None \<Rightarrow> False
      | Some nxt \<Rightarrow> if sh_dns_terminal nxt then True else suffix_host_matches_at ls nxt)"

definition suffix_host_matches :: "suffix_host_node \<Rightarrow> string \<Rightarrow> bool" where
  "suffix_host_matches root host = suffix_host_matches_at (rsplit_on CHR ''.'' host) root"

section \<open>CIDR tries\<close>

datatype cidr_node =
  CidrNode (cidr_zero: "cidr_node option") (cidr_one: "cidr_node option")
    (cidr_terminal_indices: "nat list") (cidr_min_rule_index: "nat option")

definition cidr_default :: cidr_node where
  "cidr_default = CidrNode None None [] None"

definition cidr_child :: "cidr_node \<Rightarrow> bool \<Rightarrow> cidr_node option" where
  "cidr_child node b = (if b then cidr_one node else cidr_zero node)"

text \<open>\<^verbatim>\<open>((value >> shift) & 1) == 1\<close> with \<^verbatim>\<open>shift = max_depth - depth - 1\<close>.\<close>

definition cidr_bit :: "u128 \<Rightarrow> nat \<Rightarrow> nat \<Rightarrow> bool" where
  "cidr_bit value max_depth depth =
     (let shift = max_depth - depth - 1 in and (drop_bit shift value) 1 = 1)"

text \<open>The loop \<^verbatim>\<open>for depth in 0..prefix_len\<close>, on the list of the depths that are left.\<close>

fun insert_cidr_at :: "u128 \<Rightarrow> nat \<Rightarrow> nat list \<Rightarrow> nat \<Rightarrow> cidr_node \<Rightarrow> cidr_node" where
  "insert_cidr_at bits max_depth [] i (CidrNode z one is m) =
     CidrNode z one (is @ [i]) (update_min_rule_index m i)"
| "insert_cidr_at bits max_depth (d # ds) i (CidrNode z one is m) =
     (if cidr_bit bits max_depth d
      then CidrNode z (Some (insert_cidr_at bits max_depth ds i (unwrap_or cidr_default one))) is
             (update_min_rule_index m i)
      else CidrNode (Some (insert_cidr_at bits max_depth ds i (unwrap_or cidr_default z))) one is
             (update_min_rule_index m i))"

definition insert_cidr :: "cidr_node \<Rightarrow> u128 \<Rightarrow> nat \<Rightarrow> nat \<Rightarrow> nat \<Rightarrow> cidr_node" where
  "insert_cidr root bits prefix_len max_depth index =
     insert_cidr_at bits max_depth [0..<prefix_len] index root"

definition visit_terminal_indices :: "nat list \<Rightarrow> nat option \<Rightarrow> nat list" where
  "visit_terminal_indices is cutoff = filter (\<lambda>i. \<not> should_skip_index i cutoff) is"

fun cidr_walk :: "u128 \<Rightarrow> nat \<Rightarrow> nat list \<Rightarrow> nat option \<Rightarrow> cidr_node \<Rightarrow> nat list" where
  "cidr_walk bits max_depth [] cutoff node = []"
| "cidr_walk bits max_depth (d # ds) cutoff node =
     (case cidr_child node (cidr_bit bits max_depth d) of
        None \<Rightarrow> []
      | Some nxt \<Rightarrow>
          if should_skip_subtree (cidr_min_rule_index nxt) cutoff then []
          else visit_terminal_indices (cidr_terminal_indices nxt) cutoff
               @ cidr_walk bits max_depth ds cutoff nxt)"

definition visit_cidr_matches :: "cidr_node \<Rightarrow> u128 \<Rightarrow> nat \<Rightarrow> nat option \<Rightarrow> nat list" where
  "visit_cidr_matches root bits max_depth cutoff =
     (if should_skip_subtree (cidr_min_rule_index root) cutoff then []
      else visit_terminal_indices (cidr_terminal_indices root) cutoff
           @ cidr_walk bits max_depth [0..<max_depth] cutoff root)"

definition ipv4_cidr_insert :: "ipv4_net \<Rightarrow> nat \<Rightarrow> cidr_node \<Rightarrow> cidr_node" where
  "ipv4_cidr_insert cidr index root =
     insert_cidr root (ucast (net4_network cidr)) (net4_prefix_len cidr) 32 index"

definition ipv4_cidr_visit :: "cidr_node \<Rightarrow> u32 \<Rightarrow> nat option \<Rightarrow> nat list" where
  "ipv4_cidr_visit root ip cutoff = visit_cidr_matches root (ucast ip) 32 cutoff"

definition ipv6_cidr_insert :: "ipv6_net \<Rightarrow> nat \<Rightarrow> cidr_node \<Rightarrow> cidr_node" where
  "ipv6_cidr_insert cidr index root =
     insert_cidr root (net6_network cidr) (net6_prefix_len cidr) 128 index"

definition ipv6_cidr_visit :: "cidr_node \<Rightarrow> u128 \<Rightarrow> nat option \<Rightarrow> nat list" where
  "ipv6_cidr_visit root ip cutoff = visit_cidr_matches root ip 128 cutoff"

section \<open>What the node types share\<close>

lemma ex_split_Cons:
  "(\<exists>p r. k # ks = p @ r \<and> p \<noteq> [] \<and> Q p r) \<longleftrightarrow> (\<exists>p r. ks = p @ r \<and> Q (k # p) r)"
  by (metis append_Cons list.distinct(1) list.inject neq_Nil_conv)

lemma update_min_rule_index_eq:
  "update_min_rule_index m i = Some (case m of None \<Rightarrow> i | Some j \<Rightarrow> min j i)"
  by (cases m) auto

lemma should_skip_subtree_iff:
  "should_skip_subtree m c \<longleftrightarrow> (case m of None \<Rightarrow> True | Some j \<Rightarrow> should_skip_index j c)"
  by (auto simp: should_skip_subtree_def should_skip_index_def split: option.splits)

lemma should_skip_index_None [simp]: "\<not> should_skip_index i None"
  by (simp add: should_skip_index_def)

lemma should_skip_index_mono: "should_skip_index j c \<Longrightarrow> j \<le> i \<Longrightarrow> should_skip_index i c"
  by (auto simp: should_skip_index_def split: option.splits)

lemma Collect_image_disj:
  "{i. \<exists>t. i = f t \<and> (A t \<or> B t) \<and> C i} =
     {f t | t. A t \<and> C (f t)} \<union> {i. \<exists>t. i = f t \<and> B t \<and> C i}"
  by blast

locale index_trie =
  fixes child :: "'n \<Rightarrow> 'k \<Rightarrow> 'n option"
    and terms :: "'n \<Rightarrow> 't list"
    and min_index :: "'n \<Rightarrow> nat option"
    and idx :: "'t \<Rightarrow> nat"
    and fresh :: 'n
    and ins :: "'k list \<Rightarrow> 't \<Rightarrow> 'n \<Rightarrow> 'n"
  assumes fresh: "child fresh k = None" "terms fresh = []" "min_index fresh = None"
    and child_ins_Nil: "child (ins [] t n) = child n"
    and terms_ins_Nil: "terms (ins [] t n) = terms n @ [t]"
    and child_ins_Cons:
      "child (ins (k # ks) t n) = (child n)(k \<mapsto> ins ks t (unwrap_or fresh (child n k)))"
    and terms_ins_Cons: "terms (ins (k # ks) t n) = terms n"
    and min_index_ins: "min_index (ins ks t n) = update_min_rule_index (min_index n) (idx t)"
begin

lemmas ins_simps = child_ins_Nil terms_ins_Nil child_ins_Cons terms_ins_Cons min_index_ins

fun at :: "'n \<Rightarrow> 'k list \<Rightarrow> 't list" where
  "at n [] = terms n"
| "at n (k # ks) = (case child n k of None \<Rightarrow> [] | Some m \<Rightarrow> at m ks)"

fun min_at :: "'n \<Rightarrow> 'k list \<Rightarrow> nat option" where
  "min_at n [] = min_index n"
| "min_at n (k # ks) = (case child n k of None \<Rightarrow> None | Some m \<Rightarrow> min_at m ks)"

definition min_sound :: "'n \<Rightarrow> bool" where
  "min_sound n \<longleftrightarrow> (\<forall>ks qs. \<forall>t \<in> set (at n (ks @ qs)). \<exists>j. min_at n ks = Some j \<and> j \<le> idx t)"

fun walk :: "('k list \<Rightarrow> 't \<Rightarrow> bool) \<Rightarrow> nat option \<Rightarrow> 'k list \<Rightarrow> 'n \<Rightarrow> nat list" where
  "walk P c [] n = []"
| "walk P c (k # ks) n =
     (case child n k of
        None \<Rightarrow> []
      | Some m \<Rightarrow>
          if should_skip_subtree (min_index m) c then []
          else map idx (filter (\<lambda>t. \<not> should_skip_index (idx t) c \<and> P ks t) (terms m)) @ walk P c ks m)"

lemma at_fresh [simp]: "at fresh ks = []"
  by (cases ks) (simp_all add: fresh)

lemma min_at_fresh [simp]: "min_at fresh ks = None"
  by (cases ks) (simp_all add: fresh)

lemma min_sound_fresh: "min_sound fresh"
  by (simp add: min_sound_def)

lemma at_unwrap: "at (unwrap_or fresh x) ks = (case x of None \<Rightarrow> [] | Some m \<Rightarrow> at m ks)"
  by (cases x) simp_all

lemma min_at_unwrap: "min_at (unwrap_or fresh x) ks = (case x of None \<Rightarrow> None | Some m \<Rightarrow> min_at m ks)"
  by (cases x) simp_all

lemma at_ins: "at (ins ks t n) qs = at n qs @ (if qs = ks then [t] else [])"
proof (induction ks arbitrary: n qs)
  case Nil
  then show ?case by (cases qs) (simp_all add: ins_simps)
next
  case (Cons k ks)
  then show ?case by (cases qs) (auto simp: ins_simps at_unwrap split: option.splits)
qed

lemma min_at_ins:
  "min_at (ins ks t n) qs =
     (if prefix qs ks then update_min_rule_index (min_at n qs) (idx t) else min_at n qs)"
proof (induction ks arbitrary: n qs)
  case Nil
  then show ?case by (cases qs) (simp_all add: ins_simps)
next
  case (Cons k ks)
  then show ?case by (cases qs) (auto simp: ins_simps min_at_unwrap split: option.splits)
qed

lemma min_sound_ins:
  assumes "min_sound n"
  shows "min_sound (ins ks t n)"
  unfolding min_sound_def
proof (intro allI ballI)
  fix xs ys u
  assume "u \<in> set (at (ins ks t n) (xs @ ys))"
  then consider "u \<in> set (at n (xs @ ys))" | "xs @ ys = ks" "u = t"
    by (auto simp: at_ins split: if_splits)
  then show "\<exists>j. min_at (ins ks t n) xs = Some j \<and> j \<le> idx u"
  proof cases
    case 1
    then obtain j where "min_at n xs = Some j" "j \<le> idx u"
      using assms unfolding min_sound_def by blast
    then show ?thesis by (auto simp: min_at_ins)
  next
    case 2
    then show ?thesis by (auto simp: min_at_ins update_min_rule_index_eq split: option.splits)
  qed
qed

lemma min_sound_child:
  assumes "min_sound n" "child n k = Some m"
  shows "min_sound m"
  unfolding min_sound_def
proof (intro allI ballI)
  fix xs ys u
  assume "u \<in> set (at m (xs @ ys))"
  then have "u \<in> set (at n ((k # xs) @ ys))" using assms(2) by simp
  then show "\<exists>j. min_at m xs = Some j \<and> j \<le> idx u"
    using assms unfolding min_sound_def by (metis min_at.simps(2) option.simps(5))
qed

lemma min_sound_cong:
  assumes "\<And>ks. at m ks = at n ks" "\<And>ks. min_at m ks = min_at n ks"
  shows "min_sound m = min_sound n"
  using assms by (simp add: min_sound_def)

text \<open>A pruned subtree holds nothing the cutoff lets through.\<close>

lemma skip_subtree_sound:
  assumes "min_sound n" "should_skip_subtree (min_index n) c" "t \<in> set (at n ks)"
  shows "should_skip_index (idx t) c"
proof -
  have "\<exists>j. min_at n [] = Some j \<and> j \<le> idx t"
    using assms(1,3) unfolding min_sound_def by (metis append_Nil)
  with assms(2) show ?thesis
    by (auto simp: should_skip_subtree_iff intro: should_skip_index_mono)
qed

definition found :: "('k list \<Rightarrow> 't \<Rightarrow> bool) \<Rightarrow> nat option \<Rightarrow> 'k list \<Rightarrow> 'n \<Rightarrow> nat set" where
  "found P c ks n = {idx t | t p r. ks = p @ r \<and> p \<noteq> [] \<and> t \<in> set (at n p) \<and> P r t
     \<and> \<not> should_skip_index (idx t) c}"

lemma found_eq:
  "found P c ks n = {i. \<exists>t. i = idx t \<and> (\<exists>p r. ks = p @ r \<and> p \<noteq> [] \<and> t \<in> set (at n p) \<and> P r t)
     \<and> \<not> should_skip_index i c}"
  by (auto simp: found_def)

lemma found_Nil [simp]: "found P c [] n = {}"
  by (simp add: found_def)

lemma found_Cons:
  "found P c (k # ks) n =
     (case child n k of None \<Rightarrow> {}
      | Some m \<Rightarrow> {idx t | t. t \<in> set (terms m) \<and> P ks t \<and> \<not> should_skip_index (idx t) c}
               \<union> found P c ks m)"
proof (cases "child n k")
  case None
  then show ?thesis by (simp add: found_eq ex_split_Cons)
next
  case (Some m)
  have "(\<exists>p r. ks = p @ r \<and> t \<in> set (at m p) \<and> P r t) \<longleftrightarrow>
      t \<in> set (terms m) \<and> P ks t \<or> (\<exists>p r. ks = p @ r \<and> p \<noteq> [] \<and> t \<in> set (at m p) \<and> P r t)" for t
    by (metis at.simps(1) append_Nil)
  note split = this
  have "found P c (k # ks) n = {i. \<exists>t. i = idx t \<and>
      (t \<in> set (terms m) \<and> P ks t \<or> (\<exists>p r. ks = p @ r \<and> p \<noteq> [] \<and> t \<in> set (at m p) \<and> P r t))
      \<and> \<not> should_skip_index i c}"
    unfolding found_eq ex_split_Cons by (simp add: Some split)
  then show ?thesis unfolding Some option.case found_eq [of P c ks m]
    by (simp only: Collect_image_disj conj_assoc)
qed

lemma found_skip: "min_sound n \<Longrightarrow> should_skip_subtree (min_index n) c \<Longrightarrow> found P c ks n = {}"
  by (auto simp: found_def dest: skip_subtree_sound)

lemma set_walk: "min_sound n \<Longrightarrow> set (walk P c ks n) = found P c ks n"
proof (induction ks arbitrary: n)
  case Nil
  then show ?case by simp
next
  case (Cons k ks)
  show ?case
  proof (cases "child n k")
    case None
    then show ?thesis by (simp add: found_Cons)
  next
    case (Some m)
    then have m: "min_sound m" using Cons.prems min_sound_child by blast
    show ?thesis
    proof (cases "should_skip_subtree (min_index m) c")
      case True
      have "should_skip_index (idx t) c" if "t \<in> set (terms m)" for t
        using skip_subtree_sound [OF m True, of t "[]"] that by simp
      with True Some show ?thesis by (auto simp: found_Cons found_skip [OF m True])
    next
      case False
      with Some Cons.IH [OF m] show ?thesis by (auto simp: found_Cons)
    qed
  qed
qed

lemma found_ins:
  "found P c qs (ins ks t n) = found P c qs n \<union>
     (if ks \<noteq> [] \<and> (\<exists>r. qs = ks @ r \<and> P r t) \<and> \<not> should_skip_index (idx t) c then {idx t} else {})"
  by (auto simp: found_def at_ins split: if_splits)

end

text \<open>The three node types are such tries.\<close>

lemma prefix_path_insert_at_sel:
  "pp_children (prefix_path_insert_at [] t n) = pp_children n"
  "pp_terminals (prefix_path_insert_at [] t n) = pp_terminals n @ [t]"
  "pp_children (prefix_path_insert_at (b # bs) t n) =
     (pp_children n)(b \<mapsto> prefix_path_insert_at bs t (unwrap_or prefix_path_default (pp_children n b)))"
  "pp_terminals (prefix_path_insert_at (b # bs) t n) = pp_terminals n"
  "pp_min_rule_index (prefix_path_insert_at ks t n) =
     update_min_rule_index (pp_min_rule_index n) (pt_index t)"
  by (cases n; cases ks; simp)+

interpretation path_trie: index_trie pp_children pp_terminals pp_min_rule_index pt_index
  prefix_path_default prefix_path_insert_at
  by unfold_locales (simp_all only: prefix_path_insert_at_sel, simp_all add: prefix_path_default_def)

lemma suffix_host_insert_at_sel:
  "sh_children (suffix_host_insert_at [] i n) = sh_children n"
  "sh_rule_indices (suffix_host_insert_at [] i n) = sh_rule_indices n @ [i]"
  "sh_children (suffix_host_insert_at (l # ls) i n) =
     (sh_children n)(l \<mapsto> suffix_host_insert_at ls i (unwrap_or suffix_host_default (sh_children n l)))"
  "sh_rule_indices (suffix_host_insert_at (l # ls) i n) = sh_rule_indices n"
  "sh_min_rule_index (suffix_host_insert_at ks i n) = update_min_rule_index (sh_min_rule_index n) i"
  by (cases n; cases ks; simp)+

interpretation host_trie: index_trie sh_children sh_rule_indices sh_min_rule_index "\<lambda>i. i"
  suffix_host_default suffix_host_insert_at
  by unfold_locales (simp_all only: suffix_host_insert_at_sel, simp_all add: suffix_host_default_def)

text \<open>A CIDR node is keyed by the bits of the network; the depths only select them.\<close>

fun cidr_ins :: "bool list \<Rightarrow> nat \<Rightarrow> cidr_node \<Rightarrow> cidr_node" where
  "cidr_ins [] i (CidrNode z one is m) = CidrNode z one (is @ [i]) (update_min_rule_index m i)"
| "cidr_ins (True # bs) i (CidrNode z one is m) =
     CidrNode z (Some (cidr_ins bs i (unwrap_or cidr_default one))) is (update_min_rule_index m i)"
| "cidr_ins (False # bs) i (CidrNode z one is m) =
     CidrNode (Some (cidr_ins bs i (unwrap_or cidr_default z))) one is (update_min_rule_index m i)"

lemma insert_cidr_at_bits:
  "insert_cidr_at bits md ds i n = cidr_ins (map (cidr_bit bits md) ds) i n"
proof (induction ds arbitrary: n)
  case Nil
  then show ?case by (cases n) simp
next
  case (Cons d ds)
  then show ?case by (cases n; cases "cidr_bit bits md d") simp_all
qed

lemma cidr_ins_sel:
  "cidr_child (cidr_ins [] i n) = cidr_child n"
  "cidr_terminal_indices (cidr_ins [] i n) = cidr_terminal_indices n @ [i]"
  "cidr_child (cidr_ins (b # bs) i n) =
     (cidr_child n)(b \<mapsto> cidr_ins bs i (unwrap_or cidr_default (cidr_child n b)))"
  "cidr_terminal_indices (cidr_ins (b # bs) i n) = cidr_terminal_indices n"
  "cidr_min_rule_index (cidr_ins ks i n) = update_min_rule_index (cidr_min_rule_index n) i"
  by (cases n; cases b; cases "(ks, i, n)" rule: cidr_ins.cases; auto simp: cidr_child_def fun_eq_iff)+

interpretation cidr_trie: index_trie cidr_child cidr_terminal_indices cidr_min_rule_index "\<lambda>i. i"
  cidr_default cidr_ins
  by unfold_locales (simp_all only: cidr_ins_sel, simp_all add: cidr_default_def cidr_child_def)

section \<open>The contract of a rule bucket\<close>

text \<open>
  A bucket collects rule indices under keys. \<open>hits k q\<close> says that key \<open>k\<close> applies to query \<open>q\<close>. After an
  insertion a visit reports what it reported before and the new index when its key applies and the
  cutoff lets it through.
\<close>

locale rule_buckets =
  fixes empty :: 's
    and ins :: "'k \<Rightarrow> nat \<Rightarrow> 's \<Rightarrow> 's"
    and visit :: "'s \<Rightarrow> 'q \<Rightarrow> nat option \<Rightarrow> nat list"
    and invar :: "'s \<Rightarrow> bool"
    and hits :: "'k \<Rightarrow> 'q \<Rightarrow> bool"
  assumes invar_empty: "invar empty"
    and invar_ins: "invar s \<Longrightarrow> invar (ins k i s)"
    and visit_empty: "set (visit empty q c) = {}"
    and visit_ins: "invar s \<Longrightarrow> set (visit (ins k i s) q c) =
      set (visit s q c) \<union> (if hits k q \<and> \<not> should_skip_index i c then {i} else {})"
begin

definition add_rule :: "('r \<Rightarrow> 'k list) \<Rightarrow> nat \<times> 'r \<Rightarrow> 's \<Rightarrow> 's" where
  "add_rule keys = (\<lambda>(i, r). fold (\<lambda>k. ins k i) (keys r))"

lemma fold_ins:
  assumes "invar s"
  shows "invar (fold (\<lambda>k. ins k i) ks s)"
    and "set (visit (fold (\<lambda>k. ins k i) ks s) q c) =
      set (visit s q c) \<union> (if (\<exists>k \<in> set ks. hits k q) \<and> \<not> should_skip_index i c then {i} else {})"
  using assms by (induction ks arbitrary: s) (auto simp: invar_ins visit_ins)

text \<open>A step that adds the keys of a rule, whatever else it does to the bucket.\<close>

definition adds :: "('r \<Rightarrow> 'k list) \<Rightarrow> (nat \<times> 'r \<Rightarrow> 's \<Rightarrow> 's) \<Rightarrow> bool" where
  "adds keys f \<longleftrightarrow> (\<forall>i r s. invar s \<longrightarrow> invar (f (i, r) s) \<and>
     (\<forall>q c. set (visit (f (i, r) s) q c) = set (visit s q c) \<union>
        (if (\<exists>k \<in> set (keys r). hits k q) \<and> \<not> should_skip_index i c then {i} else {})))"

lemma adds_add_rule: "adds keys (add_rule keys)"
  by (simp add: adds_def add_rule_def fold_ins)

lemma adds_step:
  assumes "adds keys f" "invar s"
  shows "invar (f ir s)"
    and "set (visit (f ir s) q c) = set (visit s q c) \<union>
      (if (\<exists>k \<in> set (keys (snd ir)). hits k q) \<and> \<not> should_skip_index (fst ir) c then {fst ir} else {})"
  using assms unfolding adds_def by (metis prod.collapse)+

lemma adds_fold:
  assumes "adds keys f" "invar s"
  shows "invar (fold f irs s)"
    and "set (visit (fold f irs s) q c) = set (visit s q c) \<union>
      {i. \<exists>r. (i, r) \<in> set irs \<and> (\<exists>k \<in> set (keys r). hits k q) \<and> \<not> should_skip_index i c}"
  using assms(2) by (induction irs arbitrary: s)
    (auto simp: adds_step [OF assms(1)] split: if_splits | blast)+

lemma visit_build:
  assumes "adds keys f"
  shows "set (visit (fold f (enumerate 0 rs) empty) q c) =
     {i. i < length rs \<and> (\<exists>k \<in> set (keys (rs ! i)). hits k q) \<and> \<not> should_skip_index i c}"
  by (auto simp: adds_fold [OF assms invar_empty] visit_empty in_set_enumerate_eq)

end

section \<open>The tries are rule buckets\<close>

lemma prefix_path_walk_eq: "prefix_path_walk path c n = path_trie.walk terminal_visible c path n"
  by (induction path arbitrary: n) (auto split: option.splits)

lemma set_prefix_path_visit:
  "path_trie.min_sound n \<Longrightarrow> set (prefix_path_visit n path c) = path_trie.found terminal_visible c path n"
  by (simp add: prefix_path_visit_def prefix_path_walk_eq path_trie.set_walk path_trie.found_skip)

lemma terminal_visible_iff:
  "(\<exists>r. path = pre @ r \<and> terminal_visible r
      \<lparr>pt_index = i, pt_matches_descendants = (pre = ''/'' \<or> ends_with pre ''/'')\<rparr>)
     \<longleftrightarrow> under_prefix path pre"
proof -
  have "terminal_visible r \<lparr>pt_index = i, pt_matches_descendants = (pre = ''/'' \<or> ends_with pre ''/'')\<rparr>
      \<longleftrightarrow> r = [] \<or> hd r = CHR ''/'' \<or> ends_with pre ''/''" for r
    by (cases r) (auto simp: terminal_visible_def ends_with_def)
  then show ?thesis by (simp add: under_prefix_def)
qed

interpretation prefix_bucket: rule_buckets prefix_path_default prefix_path_insert prefix_path_visit
  path_trie.min_sound "\<lambda>pre path. pre \<noteq> [] \<and> under_prefix path pre"
proof
  fix s k i q c
  show "path_trie.min_sound prefix_path_default" by (rule path_trie.min_sound_fresh)
  show "set (prefix_path_visit prefix_path_default q c) = {}"
    by (simp add: prefix_path_visit_def should_skip_subtree_def prefix_path_default_def)
  assume s: "path_trie.min_sound s"
  then show ins: "path_trie.min_sound (prefix_path_insert k i s)"
    by (simp add: prefix_path_insert_def path_trie.min_sound_ins)
  show "set (prefix_path_visit (prefix_path_insert k i s) q c) = set (prefix_path_visit s q c) \<union>
      (if (k \<noteq> [] \<and> under_prefix q k) \<and> \<not> should_skip_index i c then {i} else {})"
    using s ins by (simp add: set_prefix_path_visit) (simp add: prefix_path_insert_def
        path_trie.found_ins terminal_visible_iff)
qed

text \<open>A host lies under a suffix when it is the suffix or ends with a dot and the suffix.\<close>

definition under_host_suffix :: "string \<Rightarrow> string \<Rightarrow> bool" where
  "under_host_suffix suf host \<longleftrightarrow> host = suf \<or> suffix (CHR ''.'' # suf) host"

lemma suffix_host_walk_eq: "suffix_host_walk ls c n = host_trie.walk (\<lambda>_ _. True) c ls n"
  by (induction ls arbitrary: n) (auto split: option.splits)

lemma set_suffix_host_visit:
  "host_trie.min_sound n \<Longrightarrow>
     set (suffix_host_visit n host c) = host_trie.found (\<lambda>_ _. True) c (rsplit_on CHR ''.'' host) n"
  by (simp add: suffix_host_visit_def suffix_host_walk_eq host_trie.set_walk host_trie.found_skip)

lemma rsplit_on_nonempty [simp]: "rsplit_on c s \<noteq> []"
  by (simp add: rsplit_on_def)

lemma under_host_suffix_labels:
  "(\<exists>r. rsplit_on CHR ''.'' host = rsplit_on CHR ''.'' suf @ r) \<longleftrightarrow> under_host_suffix suf host"
  using prefix_rsplit_on_iff [of "CHR ''.''" suf host] by (auto simp: prefix_def under_host_suffix_def)

interpretation suffix_bucket: rule_buckets suffix_host_default suffix_host_insert_rule
  suffix_host_visit host_trie.min_sound under_host_suffix
proof
  fix s k i q c
  show "host_trie.min_sound suffix_host_default" by (rule host_trie.min_sound_fresh)
  show "set (suffix_host_visit suffix_host_default q c) = {}"
    by (simp add: suffix_host_visit_def should_skip_subtree_def suffix_host_default_def)
  assume s: "host_trie.min_sound s"
  then show ins: "host_trie.min_sound (suffix_host_insert_rule k i s)"
    by (simp add: suffix_host_insert_rule_def host_trie.min_sound_ins)
  show "set (suffix_host_visit (suffix_host_insert_rule k i s) q c) = set (suffix_host_visit s q c) \<union>
      (if under_host_suffix k q \<and> \<not> should_skip_index i c then {i} else {})"
    using s ins by (simp add: set_suffix_host_visit) (simp add: suffix_host_insert_rule_def
        host_trie.found_ins under_host_suffix_labels)
qed

lemma cidr_walk_eq:
  "cidr_walk bits md ds c n = cidr_trie.walk (\<lambda>_ _. True) c (map (cidr_bit bits md) ds) n"
  by (induction ds arbitrary: n) (auto simp: visit_terminal_indices_def split: option.splits)

definition cidr_key :: "u128 \<Rightarrow> nat \<Rightarrow> nat \<Rightarrow> bool list" where
  "cidr_key bits len md = map (cidr_bit bits md) [0..<len]"

lemma set_visit_cidr_matches:
  assumes "cidr_trie.min_sound n"
  shows "set (visit_cidr_matches n bits md c) =
    {i. \<exists>p. prefix p (cidr_key bits md md) \<and> i \<in> set (cidr_trie.at n p) \<and> \<not> should_skip_index i c}"
proof (cases "should_skip_subtree (cidr_min_rule_index n) c")
  case True
  then show ?thesis
    using cidr_trie.skip_subtree_sound [OF assms True] by (auto simp: visit_cidr_matches_def)
next
  case False
  then have "set (visit_cidr_matches n bits md c) =
      {i. i \<in> set (cidr_trie.at n []) \<and> \<not> should_skip_index i c}
      \<union> cidr_trie.found (\<lambda>_ _. True) c (cidr_key bits md md) n"
    using assms by (auto simp: visit_cidr_matches_def visit_terminal_indices_def cidr_walk_eq
        cidr_trie.set_walk cidr_key_def)
  also have "\<dots> = {i. \<exists>p. prefix p (cidr_key bits md md) \<and> i \<in> set (cidr_trie.at n p)
      \<and> \<not> should_skip_index i c}"
  proof (rule set_eqI)
    fix i
    have "(\<exists>p. prefix p K \<and> i \<in> set (cidr_trie.at n p)) \<longleftrightarrow> i \<in> set (cidr_trie.at n [])
        \<or> (\<exists>p. p \<noteq> [] \<and> prefix p K \<and> i \<in> set (cidr_trie.at n p))" for K
      by (metis Nil_prefix)
    then show "i \<in> {i. i \<in> set (cidr_trie.at n []) \<and> \<not> should_skip_index i c}
        \<union> cidr_trie.found (\<lambda>_ _. True) c (cidr_key bits md md) n \<longleftrightarrow>
      i \<in> {i. \<exists>p. prefix p (cidr_key bits md md) \<and> i \<in> set (cidr_trie.at n p)
        \<and> \<not> should_skip_index i c}"
      by (auto simp: cidr_trie.found_def prefix_def)
  qed
  finally show ?thesis .
qed

lemma set_visit_insert_cidr:
  assumes "cidr_trie.min_sound n"
  shows "cidr_trie.min_sound (insert_cidr n bits len md i)"
    and "set (visit_cidr_matches (insert_cidr n bits len md i) qbits md c) =
      set (visit_cidr_matches n qbits md c) \<union>
      (if prefix (cidr_key bits len md) (cidr_key qbits md md) \<and> \<not> should_skip_index i c then {i} else {})"
proof -
  have eq: "insert_cidr n bits len md i = cidr_ins (cidr_key bits len md) i n"
    by (simp add: insert_cidr_def insert_cidr_at_bits cidr_key_def)
  show ins: "cidr_trie.min_sound (insert_cidr n bits len md i)"
    by (simp add: eq cidr_trie.min_sound_ins assms)
  show "set (visit_cidr_matches (insert_cidr n bits len md i) qbits md c) =
      set (visit_cidr_matches n qbits md c) \<union>
      (if prefix (cidr_key bits len md) (cidr_key qbits md md) \<and> \<not> should_skip_index i c then {i} else {})"
    unfolding set_visit_cidr_matches [OF ins] set_visit_cidr_matches [OF assms]
    by (auto simp: eq cidr_trie.at_ins split: if_splits)
qed

lemma cidr_bit_iff: "depth < md \<Longrightarrow> cidr_bit v md depth \<longleftrightarrow> bit v (md - Suc depth)"
  by (simp add: cidr_bit_def Let_def bit_iff_and_drop_bit_eq_1 and.commute)

lemma cidr_key_prefix_iff:
  "prefix (cidr_key x len md) (cidr_key y md md) \<longleftrightarrow>
     len \<le> md \<and> (\<forall>n < md. md - len \<le> n \<longrightarrow> bit x n = bit y n)"
proof -
  have "prefix (cidr_key x len md) (cidr_key y md md) \<longleftrightarrow>
      len \<le> md \<and> (\<forall>d < len. cidr_bit x md d = cidr_bit y md d)"
  proof (cases "len \<le> md")
    case True
    then have "prefix (cidr_key x len md) (cidr_key y md md) \<longleftrightarrow> cidr_key x len md = take len (cidr_key y md md)"
      using take_is_prefix [of len "cidr_key y md md"]
      by (auto simp: prefix_def cidr_key_def)
    also have "\<dots> \<longleftrightarrow> (\<forall>d < len. cidr_bit x md d = cidr_bit y md d)"
      using True by (auto simp: cidr_key_def list_eq_iff_nth_eq take_map)
    finally show ?thesis using True by simp
  next
    case False
    then show ?thesis by (auto simp: cidr_key_def dest: prefix_length_le)
  qed
  also have "\<dots> \<longleftrightarrow> len \<le> md \<and> (\<forall>n < md. md - len \<le> n \<longrightarrow> bit x n = bit y n)"
  proof -
    have "(\<forall>d < len. cidr_bit x md d = cidr_bit y md d) \<longleftrightarrow> (\<forall>n < md. md - len \<le> n \<longrightarrow> bit x n = bit y n)"
      if "len \<le> md"
    proof (rule iffI; intro allI impI)
      fix n assume "\<forall>d < len. cidr_bit x md d = cidr_bit y md d" "n < md" "md - len \<le> n"
      then have "cidr_bit x md (md - Suc n) = cidr_bit y md (md - Suc n)" using that by auto
      with \<open>n < md\<close> show "bit x n = bit y n" by (simp add: cidr_bit_iff Suc_diff_Suc)
    next
      fix d assume "\<forall>n < md. md - len \<le> n \<longrightarrow> bit x n = bit y n" "d < len"
      then show "cidr_bit x md d = cidr_bit y md d" using that by (simp add: cidr_bit_iff)
    qed
    then show ?thesis by blast
  qed
  finally show ?thesis .
qed

lemma in_prefix_iff:
  "in_prefix net len a \<longleftrightarrow> (\<forall>n < LENGTH('a). LENGTH('a) - len \<le> n \<longrightarrow> bit net n = bit a n)"
  for net a :: "'a::len word"
proof -
  have "in_prefix net len a \<longleftrightarrow> (\<forall>n. bit a (LENGTH('a) - len + n) = bit net (LENGTH('a) - len + n))"
    unfolding in_prefix_def bit_eq_iff bit_drop_bit_eq
    by simp (metis bit_imp_le_length add_lessD1 add.commute)
  also have "\<dots> \<longleftrightarrow> (\<forall>n < LENGTH('a). LENGTH('a) - len \<le> n \<longrightarrow> bit net n = bit a n)"
    by (auto simp: le_iff_add) (metis bit_imp_le_length not_less)+
  finally show ?thesis .
qed

lemma ipv4_cidr_key_iff:
  "prefix (cidr_key (ucast x) len 32) (cidr_key (ucast y) 32 32) \<longleftrightarrow> len \<le> 32 \<and> in_prefix x len y"
  for x y :: u32
  by (auto simp: cidr_key_prefix_iff in_prefix_iff bit_ucast_iff)

lemma ipv6_cidr_key_iff:
  "prefix (cidr_key x len 128) (cidr_key y 128 128) \<longleftrightarrow> len \<le> 128 \<and> in_prefix x len y"
  by (auto simp: cidr_key_prefix_iff in_prefix_iff)

lemma visit_cidr_default [simp]: "visit_cidr_matches cidr_default bits md c = []"
  by (simp add: visit_cidr_matches_def should_skip_subtree_def cidr_default_def)

interpretation ipv4_bucket: rule_buckets cidr_default ipv4_cidr_insert ipv4_cidr_visit
  cidr_trie.min_sound
  "\<lambda>net ip. net4_prefix_len net \<le> 32 \<and> in_prefix (net4_network net) (net4_prefix_len net) ip"
  by unfold_locales (simp_all add: cidr_trie.min_sound_fresh ipv4_cidr_insert_def ipv4_cidr_visit_def
      set_visit_insert_cidr ipv4_cidr_key_iff)

interpretation ipv6_bucket: rule_buckets cidr_default ipv6_cidr_insert ipv6_cidr_visit
  cidr_trie.min_sound
  "\<lambda>net ip. net6_prefix_len net \<le> 128 \<and> in_prefix (net6_network net) (net6_prefix_len net) ip"
  by unfold_locales (simp_all add: cidr_trie.min_sound_fresh ipv6_cidr_insert_def ipv6_cidr_visit_def
      set_visit_insert_cidr ipv6_cidr_key_iff)

section \<open>DNS marks\<close>

text \<open>
  Marking a suffix for DNS touches no rule index and no minimum, and inserting a rule touches no mark:
  the two uses of the host trie do not interfere.
\<close>

lemma mark_dns_at_sel:
  "sh_children (mark_dns_at [] n) = sh_children n"
  "sh_children (mark_dns_at (l # ls) n) =
     (sh_children n)(l \<mapsto> mark_dns_at ls (unwrap_or suffix_host_default (sh_children n l)))"
  "sh_rule_indices (mark_dns_at ks n) = sh_rule_indices n"
  "sh_min_rule_index (mark_dns_at ks n) = sh_min_rule_index n"
  "sh_dns_terminal (mark_dns_at [] n)"
  "sh_dns_terminal (mark_dns_at (l # ls) n) = sh_dns_terminal n"
  by (cases n; cases ks; simp)+

lemma sh_dns_terminal_insert [simp]:
  "sh_dns_terminal (suffix_host_insert_at ls i n) = sh_dns_terminal n"
  by (cases n; cases ls; simp)

lemma at_mark_dns [simp]: "host_trie.at (mark_dns_at ls n) ks = host_trie.at n ks"
proof (induction ls arbitrary: n ks)
  case Nil
  then show ?case by (cases ks) (simp_all add: mark_dns_at_sel)
next
  case (Cons l ls)
  then show ?case
    by (cases ks) (auto simp: mark_dns_at_sel host_trie.at_unwrap split: option.splits)
qed

lemma min_at_mark_dns [simp]: "host_trie.min_at (mark_dns_at ls n) ks = host_trie.min_at n ks"
proof (induction ls arbitrary: n ks)
  case Nil
  then show ?case by (cases ks) (simp_all add: mark_dns_at_sel)
next
  case (Cons l ls)
  then show ?case
    by (cases ks) (auto simp: mark_dns_at_sel host_trie.min_at_unwrap split: option.splits)
qed

lemma min_sound_mark_dns [simp]: "host_trie.min_sound (mark_dns suf n) = host_trie.min_sound n"
  by (rule host_trie.min_sound_cong) (simp_all add: mark_dns_def)

lemma visit_mark_dns:
  "host_trie.min_sound n \<Longrightarrow> set (suffix_host_visit (mark_dns suf n) host c) = set (suffix_host_visit n host c)"
  by (simp add: set_suffix_host_visit) (simp add: host_trie.found_def mark_dns_def)

lemma matches_default [simp]: "\<not> suffix_host_matches_at ls suffix_host_default"
  by (cases ls) (simp_all add: suffix_host_default_def)

lemma matches_unwrap:
  "suffix_host_matches_at ls (unwrap_or suffix_host_default x) =
     (case x of None \<Rightarrow> False | Some m \<Rightarrow> suffix_host_matches_at ls m)"
  by (cases x) simp_all

lemma dns_terminal_unwrap:
  "sh_dns_terminal (unwrap_or suffix_host_default x) = (case x of None \<Rightarrow> False | Some m \<Rightarrow> sh_dns_terminal m)"
  by (cases x) (simp_all add: suffix_host_default_def)

lemma matches_insert_at [simp]:
  "suffix_host_matches_at qs (suffix_host_insert_at ls i n) = suffix_host_matches_at qs n"
proof (induction ls arbitrary: n qs)
  case Nil
  then show ?case by (cases qs) (simp_all add: suffix_host_insert_at_sel)
next
  case (Cons l ls)
  then show ?case
    by (cases qs) (auto simp: suffix_host_insert_at_sel matches_unwrap dns_terminal_unwrap
        split: option.splits)
qed

lemma matches_mark_at:
  "suffix_host_matches_at qs (mark_dns_at ls n) \<longleftrightarrow>
     suffix_host_matches_at qs n \<or> ls \<noteq> [] \<and> prefix ls qs"
proof (induction ls arbitrary: n qs)
  case Nil
  then show ?case by (cases qs) (simp_all add: mark_dns_at_sel)
next
  case (Cons l ls)
  show ?case
  proof (cases qs)
    case (Cons q qs')
    then show ?thesis
      using Cons.IH [of qs' "unwrap_or suffix_host_default (sh_children n l)"]
      by (cases ls) (auto simp: mark_dns_at_sel matches_unwrap dns_terminal_unwrap
          split: option.splits)
  qed simp
qed

lemma suffix_host_matches_insert [simp]:
  "suffix_host_matches (suffix_host_insert_rule suf i n) host = suffix_host_matches n host"
  by (simp add: suffix_host_matches_def suffix_host_insert_rule_def)

lemma suffix_host_matches_mark [simp]:
  "suffix_host_matches (mark_dns suf n) host \<longleftrightarrow> suffix_host_matches n host \<or> under_host_suffix suf host"
  by (simp add: suffix_host_matches_def mark_dns_def matches_mark_at prefix_rsplit_on_iff
      under_host_suffix_def)

section \<open>Properties\<close>

text \<open>
  The path trie is correct and its pruning loses nothing: after the paths \<open>ps\<close> have been
  inserted under their positions, a visit with a path reports exactly the positions below the
  cutoff whose path is a prefix of it at a segment boundary.
\<close>

theorem prefix_path_trie_correct:
  "set (prefix_path_visit
      (fold (\<lambda>(i, p). prefix_path_insert p i) (enumerate 0 ps) prefix_path_default) path cutoff) =
     {i. i < length ps \<and> ps ! i \<noteq> [] \<and> under_prefix path (ps ! i) \<and> \<not> should_skip_index i cutoff}"
  using prefix_bucket.visit_build [OF prefix_bucket.adds_add_rule, of "\<lambda>p. [p]" ps path cutoff]
  by (simp add: prefix_bucket.add_rule_def conj_assoc)

text \<open>
  The host trie finds a rule exactly when the host is its suffix or a subdomain of it, and
  the marks for DNS interleaved with the insertions change nothing.
\<close>

theorem suffix_host_trie_correct:
  "set (suffix_host_visit
      (fold (\<lambda>(i, s). mark_dns (m i) \<circ> suffix_host_insert_rule s i) (enumerate 0 ss) suffix_host_default)
      host cutoff) =
     {i. i < length ss \<and> (host = ss ! i \<or> suffix (''.'' @ ss ! i) host) \<and> \<not> should_skip_index i cutoff}"
proof -
  have "suffix_bucket.adds (\<lambda>s. [s]) (\<lambda>(i, s). mark_dns (m i) \<circ> suffix_host_insert_rule s i)"
    by (simp add: suffix_bucket.adds_def suffix_bucket.invar_ins visit_mark_dns suffix_bucket.visit_ins)
  from suffix_bucket.visit_build [OF this, of ss host cutoff] show ?thesis
    by (simp add: under_host_suffix_def)
qed

text \<open>
  The IPv4 CIDR trie finds a network exactly when the address agrees with it on the bits of its
  prefix; the bit-by-bit walk of the 128-bit value from position 31 down is membership.
\<close>

theorem ipv4_cidr_trie_correct:
  "set (ipv4_cidr_visit
      (fold (\<lambda>(i, n). ipv4_cidr_insert n i) (enumerate 0 ns) cidr_default) ip cutoff) =
     {i. i < length ns \<and> net4_prefix_len (ns ! i) \<le> 32
       \<and> drop_bit (32 - net4_prefix_len (ns ! i)) ip
         = drop_bit (32 - net4_prefix_len (ns ! i)) (net4_network (ns ! i))
       \<and> \<not> should_skip_index i cutoff}"
  using ipv4_bucket.visit_build [OF ipv4_bucket.adds_add_rule, of "\<lambda>n. [n]" ns ip cutoff]
  by (simp add: ipv4_bucket.add_rule_def in_prefix_def conj_assoc)

end
