(* ===== verification/Rule_Index.thy ===== *)
theory Rule_Index
  imports Rule_Trie
begin

text \<open>
  The compiled rule index: \<^verbatim>\<open>src/src/rules/pool/compiled.rs\<close>. A \<^verbatim>\<open>HashMap\<close> is a map, its
  \<^verbatim>\<open>entry(..).or_insert_with(Vec::new).push(index)\<close> is \<open>push_index\<close>. Each field of the index is a
  rule bucket (locale \<open>rule_buckets\<close>), so that what a lookup in it returns after compilation is one
  lemma per field.
\<close>

section \<open>Definitions\<close>

record origin_key =
  ok_scheme :: string
  ok_host :: string
  ok_port :: u16

record exact_url_key =
  ek_origin :: origin_key
  ek_path :: string
  ek_query :: "string option"

record rule_dns_keys =
  dk_exact_hosts :: "string list"
  dk_suffix_hosts :: "string list"

record compiled_rule_index =
  ci_exact_urls :: "exact_url_key \<rightharpoonup> nat list"
  ci_prefix_origins :: "origin_key \<rightharpoonup> prefix_path_node"
  ci_exact_hosts :: "string \<rightharpoonup> nat list"
  ci_suffix_hosts :: suffix_host_node
  ci_exact_ips :: "ip_addr \<rightharpoonup> nat list"
  ci_ipv4_cidr_ips :: cidr_node
  ci_ipv6_cidr_ips :: cidr_node
  ci_dns_exact_hosts :: "string set"

definition origin_key_from_url :: "url \<Rightarrow> origin_key" where
  "origin_key_from_url u =
     \<lparr>ok_scheme = url_scheme u,
      ok_host = (case normalize_host (unwrap_or [] (url_host_str u)) of Inl _ \<Rightarrow> [] | Inr h \<Rightarrow> h),
      ok_port = unwrap_or 0 (url_port_or_known_default u)\<rparr>"

definition exact_url_key_from_url :: "url \<Rightarrow> exact_url_key" where
  "exact_url_key_from_url u =
     \<lparr>ek_origin = origin_key_from_url u, ek_path = url_path u, ek_query = url_query u\<rparr>"

definition dns_keys_default :: rule_dns_keys where
  "dns_keys_default = \<lparr>dk_exact_hosts = [], dk_suffix_hosts = []\<rparr>"

definition url_dns_keys :: "url \<Rightarrow> rule_dns_keys" where
  "url_dns_keys origin =
     unwrap_or dns_keys_default
       (map_option (\<lambda>host. \<lparr>dk_exact_hosts = [host], dk_suffix_hosts = []\<rparr>)
          (Option.bind (url_host_str origin) (\<lambda>host. result_ok (normalize_host host))))"

definition dns_host_keys :: "'h rule \<Rightarrow> rule_dns_keys" where
  "dns_host_keys r =
     (if r_action r = ActDirect then dns_keys_default
      else (case r_matcher r of
              ExactUrl origin \<Rightarrow> url_dns_keys origin
            | PrefixUrl origin \<Rightarrow> url_dns_keys origin
            | HostM hm \<Rightarrow>
                (case hm_pattern hm of
                   HostExact host \<Rightarrow> \<lparr>dk_exact_hosts = [host], dk_suffix_hosts = []\<rparr>
                 | HostAnyOf hosts \<Rightarrow> \<lparr>dk_exact_hosts = hosts, dk_suffix_hosts = []\<rparr>
                 | HostSuffix suf \<Rightarrow> \<lparr>dk_exact_hosts = [], dk_suffix_hosts = [suf]\<rparr>)
            | IpM _ \<Rightarrow> dns_keys_default))"

definition push_index :: "'k \<Rightarrow> nat \<Rightarrow> ('k \<rightharpoonup> nat list) \<Rightarrow> ('k \<rightharpoonup> nat list)" where
  "push_index k index m = m(k \<mapsto> unwrap_or [] (m k) @ [index])"

definition prefix_origins_insert ::
  "origin_key \<times> string \<Rightarrow> nat \<Rightarrow> (origin_key \<rightharpoonup> prefix_path_node) \<Rightarrow> (origin_key \<rightharpoonup> prefix_path_node)" where
  "prefix_origins_insert k index m =
     m(fst k \<mapsto> prefix_path_insert (snd k) index (unwrap_or prefix_path_default (m (fst k))))"

definition freeze_index_map :: "('k \<rightharpoonup> nat list) \<Rightarrow> ('k \<rightharpoonup> nat list)" where
  "freeze_index_map m = (\<lambda>k. map_option (\<lambda>indices. indices) (m k))"

definition empty_index :: compiled_rule_index where
  "empty_index =
     \<lparr>ci_exact_urls = Map.empty, ci_prefix_origins = Map.empty, ci_exact_hosts = Map.empty,
      ci_suffix_hosts = suffix_host_default, ci_exact_ips = Map.empty,
      ci_ipv4_cidr_ips = cidr_default, ci_ipv6_cidr_ips = cidr_default, ci_dns_exact_hosts = {}\<rparr>"

definition index_matcher :: "nat \<Rightarrow> rule_matcher \<Rightarrow> compiled_rule_index \<Rightarrow> compiled_rule_index" where
  "index_matcher index m ci =
     (case m of
        ExactUrl origin \<Rightarrow>
          ci\<lparr>ci_exact_urls := push_index (exact_url_key_from_url origin) index (ci_exact_urls ci)\<rparr>
      | PrefixUrl origin \<Rightarrow>
          ci\<lparr>ci_prefix_origins :=
               prefix_origins_insert (origin_key_from_url origin, url_path origin) index
                 (ci_prefix_origins ci)\<rparr>
      | HostM hm \<Rightarrow>
          (case hm_pattern hm of
             HostExact host \<Rightarrow> ci\<lparr>ci_exact_hosts := push_index host index (ci_exact_hosts ci)\<rparr>
           | HostAnyOf hosts \<Rightarrow>
               ci\<lparr>ci_exact_hosts := fold (\<lambda>host. push_index host index) hosts (ci_exact_hosts ci)\<rparr>
           | HostSuffix suf \<Rightarrow>
               ci\<lparr>ci_suffix_hosts := suffix_host_insert_rule suf index (ci_suffix_hosts ci)\<rparr>)
      | IpM im \<Rightarrow>
          (case im_pattern im of
             IpExact ip \<Rightarrow> ci\<lparr>ci_exact_ips := push_index ip index (ci_exact_ips ci)\<rparr>
           | IpCidr (NetV4 cidr) \<Rightarrow>
               ci\<lparr>ci_ipv4_cidr_ips := ipv4_cidr_insert cidr index (ci_ipv4_cidr_ips ci)\<rparr>
           | IpCidr (NetV6 cidr) \<Rightarrow>
               ci\<lparr>ci_ipv6_cidr_ips := ipv6_cidr_insert cidr index (ci_ipv6_cidr_ips ci)\<rparr>))"

definition index_dns :: "'h rule \<Rightarrow> compiled_rule_index \<Rightarrow> compiled_rule_index" where
  "index_dns r ci =
     (let dns_keys = dns_host_keys r
      in ci\<lparr>ci_dns_exact_hosts := ci_dns_exact_hosts ci \<union> set (dk_exact_hosts dns_keys),
            ci_suffix_hosts := fold mark_dns (dk_suffix_hosts dns_keys) (ci_suffix_hosts ci)\<rparr>)"

definition compile_rule :: "nat \<times> 'h rule \<Rightarrow> compiled_rule_index \<Rightarrow> compiled_rule_index" where
  "compile_rule ir ci = index_dns (snd ir) (index_matcher (fst ir) (r_matcher (snd ir)) ci)"

definition compile :: "'h rule list \<Rightarrow> compiled_rule_index" where
  "compile entries =
     (let ci = fold compile_rule (enumerate 0 entries) empty_index
      in ci\<lparr>ci_exact_urls := freeze_index_map (ci_exact_urls ci),
            ci_exact_hosts := freeze_index_map (ci_exact_hosts ci),
            ci_exact_ips := freeze_index_map (ci_exact_ips ci)\<rparr>)"

section \<open>Hash maps of indices are buckets\<close>

definition map_visit :: "('k \<rightharpoonup> nat list) \<Rightarrow> 'k \<Rightarrow> nat option \<Rightarrow> nat list" where
  "map_visit m k c = filter (\<lambda>i. \<not> should_skip_index i c) (unwrap_or [] (m k))"

interpretation map_bucket: rule_buckets Map.empty push_index map_visit "\<lambda>_. True" "(=)"
  by unfold_locales (auto simp: map_visit_def push_index_def)

definition origins_visit ::
  "(origin_key \<rightharpoonup> prefix_path_node) \<Rightarrow> origin_key \<times> string \<Rightarrow> nat option \<Rightarrow> nat list" where
  "origins_visit m q c = (case m (fst q) of None \<Rightarrow> [] | Some t \<Rightarrow> prefix_path_visit t (snd q) c)"

definition origins_sound :: "(origin_key \<rightharpoonup> prefix_path_node) \<Rightarrow> bool" where
  "origins_sound m \<longleftrightarrow> (\<forall>k t. m k = Some t \<longrightarrow> path_trie.min_sound t)"

interpretation origins_bucket: rule_buckets Map.empty prefix_origins_insert origins_visit
  origins_sound "\<lambda>k q. fst k = fst q \<and> snd k \<noteq> [] \<and> under_prefix (snd q) (snd k)"
proof
  fix s i c and k q :: "origin_key \<times> string"
  show "origins_sound Map.empty" "set (origins_visit Map.empty q c) = {}"
    by (simp_all add: origins_sound_def origins_visit_def)
  assume s: "origins_sound s"
  then have t: "path_trie.min_sound (unwrap_or prefix_path_default (s (fst k)))"
    by (cases "s (fst k)") (auto simp: origins_sound_def prefix_bucket.invar_empty)
  then show "origins_sound (prefix_origins_insert k i s)"
    using s by (auto simp: origins_sound_def prefix_origins_insert_def prefix_bucket.invar_ins)
  show "set (origins_visit (prefix_origins_insert k i s) q c) = set (origins_visit s q c) \<union>
      (if (fst k = fst q \<and> snd k \<noteq> [] \<and> under_prefix (snd q) (snd k)) \<and> \<not> should_skip_index i c
       then {i} else {})"
    using prefix_bucket.visit_ins [OF t, of "snd k" i "snd q" c]
    by (cases "s (fst k)") (auto simp: origins_visit_def prefix_origins_insert_def
        prefix_bucket.visit_empty)
qed

section \<open>What each field holds after compilation\<close>

text \<open>The keys a matcher files its index under, per field.\<close>

definition exact_url_keys :: "'h rule \<Rightarrow> exact_url_key list" where
  "exact_url_keys r = (case r_matcher r of ExactUrl o' \<Rightarrow> [exact_url_key_from_url o'] | _ \<Rightarrow> [])"

definition prefix_keys :: "'h rule \<Rightarrow> (origin_key \<times> string) list" where
  "prefix_keys r =
     (case r_matcher r of PrefixUrl o' \<Rightarrow> [(origin_key_from_url o', url_path o')] | _ \<Rightarrow> [])"

definition exact_host_keys :: "'h rule \<Rightarrow> string list" where
  "exact_host_keys r =
     (case r_matcher r of
        HostM hm \<Rightarrow> (case hm_pattern hm of HostExact h \<Rightarrow> [h] | HostAnyOf hs \<Rightarrow> hs | _ \<Rightarrow> [])
      | _ \<Rightarrow> [])"

definition suffix_keys :: "'h rule \<Rightarrow> string list" where
  "suffix_keys r =
     (case r_matcher r of HostM hm \<Rightarrow> (case hm_pattern hm of HostSuffix s \<Rightarrow> [s] | _ \<Rightarrow> []) | _ \<Rightarrow> [])"

definition exact_ip_keys :: "'h rule \<Rightarrow> ip_addr list" where
  "exact_ip_keys r =
     (case r_matcher r of IpM im \<Rightarrow> (case im_pattern im of IpExact ip \<Rightarrow> [ip] | _ \<Rightarrow> []) | _ \<Rightarrow> [])"

definition ipv4_keys :: "'h rule \<Rightarrow> ipv4_net list" where
  "ipv4_keys r =
     (case r_matcher r of IpM im \<Rightarrow> (case im_pattern im of IpCidr (NetV4 n) \<Rightarrow> [n] | _ \<Rightarrow> []) | _ \<Rightarrow> [])"

definition ipv6_keys :: "'h rule \<Rightarrow> ipv6_net list" where
  "ipv6_keys r =
     (case r_matcher r of IpM im \<Rightarrow> (case im_pattern im of IpCidr (NetV6 n) \<Rightarrow> [n] | _ \<Rightarrow> []) | _ \<Rightarrow> [])"

lemmas rule_keys_defs = exact_url_keys_def prefix_keys_def exact_host_keys_def suffix_keys_def
  exact_ip_keys_def ipv4_keys_def ipv6_keys_def

lemmas compile_step_defs = compile_rule_def index_dns_def index_matcher_def Let_def rule_keys_defs
  map_bucket.add_rule_def origins_bucket.add_rule_def ipv4_bucket.add_rule_def ipv6_bucket.add_rule_def

lemma compile_rule_fields:
  "ci_exact_urls (compile_rule ir ci) = map_bucket.add_rule exact_url_keys ir (ci_exact_urls ci)"
  "ci_prefix_origins (compile_rule ir ci) = origins_bucket.add_rule prefix_keys ir (ci_prefix_origins ci)"
  "ci_exact_hosts (compile_rule ir ci) = map_bucket.add_rule exact_host_keys ir (ci_exact_hosts ci)"
  "ci_exact_ips (compile_rule ir ci) = map_bucket.add_rule exact_ip_keys ir (ci_exact_ips ci)"
  "ci_ipv4_cidr_ips (compile_rule ir ci) = ipv4_bucket.add_rule ipv4_keys ir (ci_ipv4_cidr_ips ci)"
  "ci_ipv6_cidr_ips (compile_rule ir ci) = ipv6_bucket.add_rule ipv6_keys ir (ci_ipv6_cidr_ips ci)"
  by (cases ir; simp add: compile_step_defs split: rule_matcher.split host_pattern.split
      ip_pattern.split ip_net.split)+

definition suffix_step :: "nat \<times> 'h rule \<Rightarrow> suffix_host_node \<Rightarrow> suffix_host_node" where
  "suffix_step ir n = fold mark_dns (dk_suffix_hosts (dns_host_keys (snd ir)))
     (fold (\<lambda>s. suffix_host_insert_rule s (fst ir)) (suffix_keys (snd ir)) n)"

lemma compile_rule_suffix: "ci_suffix_hosts (compile_rule ir ci) = suffix_step ir (ci_suffix_hosts ci)"
  by (simp add: suffix_step_def compile_step_defs split: rule_matcher.split host_pattern.split
      ip_pattern.split ip_net.split)

lemma compile_rule_dns:
  "ci_dns_exact_hosts (compile_rule ir ci) =
     (\<lambda>ir s. s \<union> set (dk_exact_hosts (dns_host_keys (snd ir)))) ir (ci_dns_exact_hosts ci)"
  by (simp add: compile_step_defs split: rule_matcher.split host_pattern.split
      ip_pattern.split ip_net.split)

lemma fold_mark_dns:
  assumes "host_trie.min_sound n"
  shows "host_trie.min_sound (fold mark_dns ss n)"
    and "set (suffix_host_visit (fold mark_dns ss n) q c) = set (suffix_host_visit n q c)"
  using assms by (induction ss arbitrary: n) (simp_all add: visit_mark_dns)

lemma suffix_step_adds: "suffix_bucket.adds suffix_keys suffix_step"
  by (simp add: suffix_bucket.adds_def suffix_step_def suffix_bucket.fold_ins fold_mark_dns)

lemma freeze_index_map_id [simp]: "freeze_index_map m = m"
  by (simp add: freeze_index_map_def option.map_ident)

lemma empty_index_sel [simp]:
  "ci_exact_urls empty_index = Map.empty" "ci_prefix_origins empty_index = Map.empty"
  "ci_exact_hosts empty_index = Map.empty" "ci_suffix_hosts empty_index = suffix_host_default"
  "ci_exact_ips empty_index = Map.empty" "ci_ipv4_cidr_ips empty_index = cidr_default"
  "ci_ipv6_cidr_ips empty_index = cidr_default" "ci_dns_exact_hosts empty_index = {}"
  by (simp_all add: empty_index_def)

lemma compile_fold_sel:
  "ci_exact_urls (fold compile_rule irs ci) =
     fold (map_bucket.add_rule exact_url_keys) irs (ci_exact_urls ci)"
  "ci_prefix_origins (fold compile_rule irs ci) =
     fold (origins_bucket.add_rule prefix_keys) irs (ci_prefix_origins ci)"
  "ci_exact_hosts (fold compile_rule irs ci) =
     fold (map_bucket.add_rule exact_host_keys) irs (ci_exact_hosts ci)"
  "ci_suffix_hosts (fold compile_rule irs ci) = fold suffix_step irs (ci_suffix_hosts ci)"
  "ci_exact_ips (fold compile_rule irs ci) =
     fold (map_bucket.add_rule exact_ip_keys) irs (ci_exact_ips ci)"
  "ci_ipv4_cidr_ips (fold compile_rule irs ci) =
     fold (ipv4_bucket.add_rule ipv4_keys) irs (ci_ipv4_cidr_ips ci)"
  "ci_ipv6_cidr_ips (fold compile_rule irs ci) =
     fold (ipv6_bucket.add_rule ipv6_keys) irs (ci_ipv6_cidr_ips ci)"
  "ci_dns_exact_hosts (fold compile_rule irs ci) =
     fold (\<lambda>ir s. s \<union> set (dk_exact_hosts (dns_host_keys (snd ir)))) irs (ci_dns_exact_hosts ci)"
  by (rule fold_proj; rule compile_rule_fields compile_rule_suffix compile_rule_dns)+

lemma compile_sel:
  "ci_exact_urls (compile rs) = fold (map_bucket.add_rule exact_url_keys) (enumerate 0 rs) Map.empty"
  "ci_prefix_origins (compile rs) = fold (origins_bucket.add_rule prefix_keys) (enumerate 0 rs) Map.empty"
  "ci_exact_hosts (compile rs) = fold (map_bucket.add_rule exact_host_keys) (enumerate 0 rs) Map.empty"
  "ci_suffix_hosts (compile rs) = fold suffix_step (enumerate 0 rs) suffix_host_default"
  "ci_exact_ips (compile rs) = fold (map_bucket.add_rule exact_ip_keys) (enumerate 0 rs) Map.empty"
  "ci_ipv4_cidr_ips (compile rs) = fold (ipv4_bucket.add_rule ipv4_keys) (enumerate 0 rs) cidr_default"
  "ci_ipv6_cidr_ips (compile rs) = fold (ipv6_bucket.add_rule ipv6_keys) (enumerate 0 rs) cidr_default"
  "ci_dns_exact_hosts (compile rs) =
     fold (\<lambda>ir s. s \<union> set (dk_exact_hosts (dns_host_keys (snd ir)))) (enumerate 0 rs) {}"
  by (simp_all add: compile_def Let_def compile_fold_sel)

text \<open>
  The lookup lemmas: a field reports exactly the rules that filed a key which applies to the query.
\<close>

lemmas compile_lookups =
  map_bucket.visit_build [OF map_bucket.adds_add_rule, of exact_url_keys, folded compile_sel]
  origins_bucket.visit_build [OF origins_bucket.adds_add_rule, of prefix_keys, folded compile_sel]
  map_bucket.visit_build [OF map_bucket.adds_add_rule, of exact_host_keys, folded compile_sel]
  suffix_bucket.visit_build [OF suffix_step_adds, folded compile_sel]
  map_bucket.visit_build [OF map_bucket.adds_add_rule, of exact_ip_keys, folded compile_sel]
  ipv4_bucket.visit_build [OF ipv4_bucket.adds_add_rule, of ipv4_keys, folded compile_sel]
  ipv6_bucket.visit_build [OF ipv6_bucket.adds_add_rule, of ipv6_keys, folded compile_sel]

lemma dns_exact_hosts_compile:
  "ci_dns_exact_hosts (compile rs) = (\<Union>r \<in> set rs. set (dk_exact_hosts (dns_host_keys r)))"
proof -
  have "fold (\<lambda>ir s. s \<union> set (dk_exact_hosts (dns_host_keys (snd ir)))) irs S =
      S \<union> (\<Union>r \<in> set (map snd irs). set (dk_exact_hosts (dns_host_keys r)))"
    for irs :: "(nat \<times> 'a rule) list" and S
    by (induction irs arbitrary: S) auto
  then have "ci_dns_exact_hosts (compile rs) =
      {} \<union> (\<Union>r \<in> set (map snd (enumerate 0 rs)). set (dk_exact_hosts (dns_host_keys r)))"
    by (simp only: compile_sel)
  then show ?thesis by (simp only: map_snd_enumerate Un_empty_left)
qed

lemma suffix_matches_compile:
  "suffix_host_matches (ci_suffix_hosts (compile rs)) host \<longleftrightarrow>
     (\<exists>r \<in> set rs. \<exists>suf \<in> set (dk_suffix_hosts (dns_host_keys r)). under_host_suffix suf host)"
proof -
  have marks: "suffix_host_matches (fold mark_dns ss n) host \<longleftrightarrow>
      suffix_host_matches n host \<or> (\<exists>suf \<in> set ss. under_host_suffix suf host)" for ss n
    by (induction ss arbitrary: n) auto
  have ins: "suffix_host_matches (fold (\<lambda>s. suffix_host_insert_rule s i) ks n) host \<longleftrightarrow>
      suffix_host_matches n host" for ks n i
    by (induction ks arbitrary: n) auto
  have "suffix_host_matches (fold suffix_step irs n) host \<longleftrightarrow> suffix_host_matches n host \<or>
      (\<exists>r \<in> snd ` set irs. \<exists>suf \<in> set (dk_suffix_hosts (dns_host_keys r)). under_host_suffix suf host)"
    for irs :: "(nat \<times> 'a rule) list" and n
    by (induction irs arbitrary: n) (auto simp: suffix_step_def marks ins)
  then show ?thesis
    by (simp add: compile_sel suffix_host_matches_def flip: set_map)
qed

end
