(* ===== verification/Rule_Runtime.thy ===== *)
theory Rule_Runtime
  imports Rule_Index
begin

text \<open>
  Resolution and explanation of a request URL: \<^verbatim>\<open>src/src/rules/pool/runtime.rs\<close> and
  \<^verbatim>\<open>src/src/rules/pool/mod.rs\<close>. The messages of \<^verbatim>\<open>RuleMatchExplain::Mismatch\<close> are the
  constructors of \<open>mismatch\<close> with the values they interpolate. The loops over the candidates carry
  their mutable variables as arguments.
\<close>

section \<open>Matching one rule\<close>

record lookup_context =
  lc_exact_url_key :: exact_url_key
  lc_origin_key :: origin_key
  lc_scheme :: string
  lc_port :: "u16 option"
  lc_path :: string
  lc_normalized_host :: "string option"
  lc_ip :: "ip_addr option"

datatype mismatch =
    ExactUrlMismatch url url
  | OriginMismatch url url
  | PathPrefixMismatch string string
  | SchemeMismatch string string
  | PortMismatch u16 "u16 option"
  | NoHostname
  | HostMismatch string string
  | HostsMismatch "string list" string
  | HostSuffixMismatch string string
  | HostNotLiteralIp
  | IpMismatch ip_addr ip_addr
  | IpCidrMismatch ip_net ip_addr

datatype rule_match_explain = Matched "string option" | Mismatch mismatch

definition parse_host_ip :: "string \<Rightarrow> ip_addr option" where
  "parse_host_ip host = parse_ip_addr host"

definition lookup_from_url :: "url \<Rightarrow> lookup_context" where
  "lookup_from_url original =
     (let host = url_host_str original
      in \<lparr>lc_exact_url_key = exact_url_key_from_url original,
          lc_origin_key = origin_key_from_url original,
          lc_scheme = url_scheme original,
          lc_port = url_port_or_known_default original,
          lc_path = url_path original,
          lc_normalized_host = Option.bind host (\<lambda>v. result_ok (normalize_host_cow v)),
          lc_ip = Option.bind host parse_host_ip\<rparr>)"

definition explain_common_lookup_parts ::
  "string option \<Rightarrow> u16 option \<Rightarrow> string option \<Rightarrow> lookup_context \<Rightarrow> (mismatch, unit) result" where
  "explain_common_lookup_parts expected_scheme expected_port path_pre lookup =
     bind_r (case expected_scheme of
               Some s \<Rightarrow> if lc_scheme lookup \<noteq> s then Err (SchemeMismatch s (lc_scheme lookup)) else Ok ()
             | None \<Rightarrow> Ok ()) (\<lambda>_.
     bind_r (case expected_port of
               Some p \<Rightarrow> if lc_port lookup \<noteq> Some p then Err (PortMismatch p (lc_port lookup)) else Ok ()
             | None \<Rightarrow> Ok ()) (\<lambda>_.
     case path_pre of
       Some pre \<Rightarrow> if \<not> path_has_prefix (lc_path lookup) pre
                  then Err (PathPrefixMismatch pre (lc_path lookup)) else Ok ()
     | None \<Rightarrow> Ok ()))"

definition resolve_path_suffix :: "string option \<Rightarrow> string \<Rightarrow> string" where
  "resolve_path_suffix path_pre original_path =
     (case path_pre of
        None \<Rightarrow> unwrap_or [] (strip_prefix original_path ''/'')
      | Some pre \<Rightarrow>
          unwrap_or [] (opt_or_else (strip_prefix original_path pre) (strip_prefix original_path ''/'')))"

definition host_explain_match :: "host_rule_matcher \<Rightarrow> lookup_context \<Rightarrow> rule_match_explain" where
  "host_explain_match hm lookup =
     (case explain_common_lookup_parts (hm_scheme hm) (hm_port hm) (hm_path_prefix hm) lookup of
        Inl reason \<Rightarrow> Mismatch reason
      | Inr _ \<Rightarrow>
          (case lc_normalized_host lookup of
             None \<Rightarrow> Mismatch NoHostname
           | Some host \<Rightarrow>
               (let matched = Matched (Some (resolve_path_suffix (hm_path_prefix hm) (lc_path lookup)))
                in case hm_pattern hm of
                     HostExact expected \<Rightarrow>
                       if expected = host then matched else Mismatch (HostMismatch expected host)
                   | HostAnyOf expected \<Rightarrow>
                       if list_ex (\<lambda>v. v = host) expected then matched
                       else Mismatch (HostsMismatch expected host)
                   | HostSuffix expected \<Rightarrow>
                       if host = expected
                          \<or> (case strip_suffix host expected of
                               None \<Rightarrow> False | Some v \<Rightarrow> ends_with v ''.'')
                       then matched
                       else Mismatch (HostSuffixMismatch expected host))))"

definition ip_explain_match :: "ext_lib \<Rightarrow> ip_rule_matcher \<Rightarrow> lookup_context \<Rightarrow> rule_match_explain" where
  "ip_explain_match L im lookup =
     (case explain_common_lookup_parts (im_scheme im) (im_port im) (im_path_prefix im) lookup of
        Inl reason \<Rightarrow> Mismatch reason
      | Inr _ \<Rightarrow>
          (case lc_ip lookup of
             None \<Rightarrow> Mismatch HostNotLiteralIp
           | Some ip \<Rightarrow>
               (let matched = Matched (Some (resolve_path_suffix (im_path_prefix im) (lc_path lookup)))
                in case im_pattern im of
                     IpExact expected \<Rightarrow>
                       if expected = ip then matched else Mismatch (IpMismatch expected ip)
                   | IpCidr expected \<Rightarrow>
                       if ipnet_contains L expected ip then matched
                       else Mismatch (IpCidrMismatch expected ip))))"

definition explain_with_lookup ::
  "ext_lib \<Rightarrow> rule_matcher \<Rightarrow> url \<Rightarrow> lookup_context \<Rightarrow> rule_match_explain" where
  "explain_with_lookup L m original lookup =
     (case m of
        ExactUrl origin \<Rightarrow>
          if same_url original origin then Matched None
          else Mismatch (ExactUrlMismatch origin original)
      | PrefixUrl origin \<Rightarrow>
          if \<not> same_origin original origin then Mismatch (OriginMismatch origin original)
          else if \<not> path_has_prefix (url_path original) (url_path origin)
          then Mismatch (PathPrefixMismatch (url_path origin) (url_path original))
          else Matched (Some (unwrap_or [] (opt_or_else
                 (strip_prefix (url_path original) (url_path origin))
                 (strip_prefix (url_path original) ''/''))))
      | HostM hm \<Rightarrow> host_explain_match hm lookup
      | IpM im \<Rightarrow> ip_explain_match L im lookup)"

fun matcher_kind :: "rule_matcher \<Rightarrow> rule_kind" where
  "matcher_kind (ExactUrl _) = KindExact"
| "matcher_kind (PrefixUrl _) = KindPrefix"
| "matcher_kind (HostM hm) =
     (case hm_pattern hm of HostExact _ \<Rightarrow> KindHost | HostAnyOf _ \<Rightarrow> KindHosts | HostSuffix _ \<Rightarrow> KindHostSuffix)"
| "matcher_kind (IpM im) = (case im_pattern im of IpExact _ \<Rightarrow> KindIp | IpCidr _ \<Rightarrow> KindIpCidr)"

definition upstream_direct :: "url \<Rightarrow> upstream_plan" where
  "upstream_direct original =
     \<lparr>up_url = original, up_sni = None, up_host = None, up_connect_host = None,
      up_connect_ip = None, up_dns = None\<rparr>"

definition resolve_mirror_upstream ::
  "ext_lib \<Rightarrow> upstream_plan \<Rightarrow> url \<Rightarrow> string option \<Rightarrow> upstream_plan" where
  "resolve_mirror_upstream L upstream original path_suf =
     (case path_suf of
        None \<Rightarrow> upstream
      | Some suf \<Rightarrow>
          (let u = url_set_path L (up_url upstream) (join_paths (url_path (up_url upstream)) suf);
               u = url_set_query L u (url_query original);
               u = url_set_fragment L u None
           in upstream\<lparr>up_url := u\<rparr>))"

definition resolve_action ::
  "ext_lib \<Rightarrow> 'h rule_action \<Rightarrow> url \<Rightarrow> string option \<Rightarrow> 'h resolved_rule_action" where
  "resolve_action L a original path_suf =
     (case a of
        ActMirror upstream \<Rightarrow> ResMirror (resolve_mirror_upstream L upstream original path_suf)
      | ActDirect \<Rightarrow> ResDirect (upstream_direct original)
      | ActRespond respond \<Rightarrow> ResRespond respond
      | ActPlugin plugin \<Rightarrow> ResPlugin plugin
      | ActReject reject \<Rightarrow> ResReject reject)"

definition resolve_with_lookup ::
  "ext_lib \<Rightarrow> 'h rule \<Rightarrow> url \<Rightarrow> lookup_context \<Rightarrow> 'h resolved_rule_action option" where
  "resolve_with_lookup L r original lookup =
     (case explain_with_lookup L (r_matcher r) original lookup of
        Matched path_suf \<Rightarrow> Some (resolve_action L (r_action r) original path_suf)
      | Mismatch _ \<Rightarrow> None)"

section \<open>Candidates\<close>

definition exact_lookup :: "('k \<rightharpoonup> nat list) \<Rightarrow> 'k \<Rightarrow> nat list" where
  "exact_lookup m k = (case m k of Some indices \<Rightarrow> indices | None \<Rightarrow> [])"

definition collect_candidate_indices ::
  "compiled_rule_index \<Rightarrow> url \<Rightarrow> lookup_context \<Rightarrow> nat list" where
  "collect_candidate_indices ci original lookup =
     exact_lookup (ci_exact_urls ci) (lc_exact_url_key lookup)
     @ (case ci_prefix_origins ci (lc_origin_key lookup) of
          Some trie \<Rightarrow> prefix_path_visit trie (url_path original) None
        | None \<Rightarrow> [])
     @ (case lc_normalized_host lookup of
          Some host \<Rightarrow>
            exact_lookup (ci_exact_hosts ci) host @ suffix_host_visit (ci_suffix_hosts ci) host None
        | None \<Rightarrow> [])
     @ (case lc_ip lookup of
          Some ip \<Rightarrow>
            exact_lookup (ci_exact_ips ci) ip
            @ (case ip of
                 V4 ipv4 \<Rightarrow> ipv4_cidr_visit (ci_ipv4_cidr_ips ci) ipv4 None
               | V6 ipv6 \<Rightarrow> ipv6_cidr_visit (ci_ipv6_cidr_ips ci) ipv6 None)
        | None \<Rightarrow> [])"

datatype ordering = Less | Equal | Greater

definition cmp :: "'a::linorder \<Rightarrow> 'a \<Rightarrow> ordering" where
  "cmp x y = (if x < y then Less else if x = y then Equal else Greater)"

definition then_with :: "ordering \<Rightarrow> ordering \<Rightarrow> ordering" where
  "then_with a b = (case a of Equal \<Rightarrow> b | _ \<Rightarrow> a)"

definition compare_candidate_order :: "'h rule list \<Rightarrow> nat \<Rightarrow> nat \<Rightarrow> ordering" where
  "compare_candidate_order entries left right =
     then_with (cmp (r_priority (entries ! right)) (r_priority (entries ! left))) (cmp left right)"

text \<open>\<^verbatim>\<open>sort_unstable_by\<close>: elements that compare equal under this order are equal.\<close>

fun insert_by :: "('a \<Rightarrow> 'a \<Rightarrow> ordering) \<Rightarrow> 'a \<Rightarrow> 'a list \<Rightarrow> 'a list" where
  "insert_by f x [] = [x]"
| "insert_by f x (y # ys) = (if f y x = Less then y # insert_by f x ys else x # y # ys)"

definition sort_unstable_by :: "('a \<Rightarrow> 'a \<Rightarrow> ordering) \<Rightarrow> 'a list \<Rightarrow> 'a list" where
  "sort_unstable_by f xs = foldr (insert_by f) xs []"

definition candidate_order :: "'h rule list \<Rightarrow> compiled_rule_index \<Rightarrow> url \<Rightarrow> nat list" where
  "candidate_order entries ci original =
     remdups_adj (sort_unstable_by (compare_candidate_order entries)
       (collect_candidate_indices ci original (lookup_from_url original)))"

section \<open>Resolution\<close>

record 'h matched_rule =
  mr_action :: "'h resolved_rule_action"
  mr_rule :: "'h rule"

fun resolve_candidates_loop ::
  "ext_lib \<Rightarrow> 'h rule list \<Rightarrow> url \<Rightarrow> lookup_context \<Rightarrow> nat list \<Rightarrow>
     'h matched_rule option \<Rightarrow> rule_priority option \<Rightarrow> 'h matched_rule option \<Rightarrow> 'h matched_rule option" where
  "resolve_candidates_loop L entries original lookup [] propagated active priority_match =
     (case priority_match of
        Some matched \<Rightarrow> if \<not> r_spread (mr_rule matched) then Some matched else Some matched
      | None \<Rightarrow> propagated)"
| "resolve_candidates_loop L entries original lookup (index # rest) propagated active priority_match =
     (let rule = entries ! index;
          cont = (\<lambda>propagated active priority_match.
            if priority_match \<noteq> None
            then resolve_candidates_loop L entries original lookup rest propagated active priority_match
            else (case resolve_with_lookup L rule original lookup of
                    Some action \<Rightarrow>
                      resolve_candidates_loop L entries original lookup rest propagated active
                        (Some \<lparr>mr_action = action, mr_rule = rule\<rparr>)
                  | None \<Rightarrow>
                      resolve_candidates_loop L entries original lookup rest propagated active
                        priority_match))
      in if active \<noteq> Some (r_priority rule)
         then (case priority_match of
                 Some matched \<Rightarrow>
                   if \<not> r_spread (mr_rule matched) then Some matched
                   else cont (Some matched) (Some (r_priority rule)) None
               | None \<Rightarrow> cont propagated (Some (r_priority rule)) None)
         else cont propagated active priority_match)"

definition resolve_candidates ::
  "ext_lib \<Rightarrow> 'h rule list \<Rightarrow> url \<Rightarrow> lookup_context \<Rightarrow> nat list \<Rightarrow> 'h matched_rule option" where
  "resolve_candidates L entries original lookup candidate_indices =
     resolve_candidates_loop L entries original lookup candidate_indices None None None"

definition index_resolve ::
  "ext_lib \<Rightarrow> compiled_rule_index \<Rightarrow> 'h rule list \<Rightarrow> url \<Rightarrow> 'h matched_rule option" where
  "index_resolve L ci entries original =
     resolve_candidates L entries original (lookup_from_url original)
       (candidate_order entries ci original)"

section \<open>Explanation\<close>

record rule_explain_priority =
  rep_value :: int
  rep_semantic :: "string option"

datatype rule_explain_propagation = NoMatch | Continue | Stop

record rule_explain_candidate =
  rec_rule_index :: nat
  rec_matcher_kind :: string
  rec_action_kind :: string
  rec_priority :: rule_explain_priority
  rec_spread :: bool
  rec_matched :: "bool option"
  rec_mismatch_reason :: "mismatch option"

record rule_explain_winner =
  rew_rule_index :: nat
  rew_matcher_kind :: string
  rew_action_kind :: string
  rew_priority :: rule_explain_priority
  rew_spread :: bool
  rew_upstream_url :: "string option"

record rule_explain_priority_group =
  reg_priority :: rule_explain_priority
  reg_candidates :: "rule_explain_candidate list"
  reg_winner :: "rule_explain_winner option"
  reg_propagation :: rule_explain_propagation

record rule_explain_trace =
  ret_priority_groups :: "rule_explain_priority_group list"
  ret_final_match :: "rule_explain_winner option"

definition explain_priority_from :: "rule_priority \<Rightarrow> rule_explain_priority" where
  "explain_priority_from p = \<lparr>rep_value = priority_value p, rep_semantic = semantic_name p\<rparr>"

definition rule_matcher_kind_name :: "'h rule \<Rightarrow> string" where
  "rule_matcher_kind_name r =
     (case r_kind r of
        KindExact \<Rightarrow> ''exact'' | KindPrefix \<Rightarrow> ''prefix'' | KindHost \<Rightarrow> ''host'' | KindHosts \<Rightarrow> ''hosts''
      | KindHostSuffix \<Rightarrow> ''host-suffix'' | KindIp \<Rightarrow> ''ip'' | KindIpCidr \<Rightarrow> ''ip-cidr'')"

definition rule_action_kind_name :: "'h rule_action \<Rightarrow> string" where
  "rule_action_kind_name a =
     (case a of
        ActMirror _ \<Rightarrow> ''mirror'' | ActDirect \<Rightarrow> ''direct'' | ActRespond _ \<Rightarrow> ''respond''
      | ActPlugin _ \<Rightarrow> ''plugin'' | ActReject _ \<Rightarrow> ''reject'')"

definition resolved_action_kind_name :: "'h resolved_rule_action \<Rightarrow> string" where
  "resolved_action_kind_name a =
     (case a of
        ResMirror _ \<Rightarrow> ''mirror'' | ResDirect _ \<Rightarrow> ''direct'' | ResRespond _ \<Rightarrow> ''respond''
      | ResPlugin _ \<Rightarrow> ''plugin'' | ResReject _ \<Rightarrow> ''reject'')"

fun resolved_kind :: "'h resolved_rule_action \<Rightarrow> rule_action_kind" where
  "resolved_kind (ResMirror _) = KMirror"
| "resolved_kind (ResDirect _) = KDirect"
| "resolved_kind (ResRespond _) = KRespond"
| "resolved_kind (ResPlugin _) = KPlugin"
| "resolved_kind (ResReject _) = KReject"

fun resolved_upstream :: "'h resolved_rule_action \<Rightarrow> upstream_plan option" where
  "resolved_upstream (ResMirror up) = Some up"
| "resolved_upstream (ResDirect up) = Some up"
| "resolved_upstream _ = None"

fun resolved_reject :: "'h resolved_rule_action \<Rightarrow> reject_rule_action option" where
  "resolved_reject (ResReject r) = Some r"
| "resolved_reject _ = None"

fun resolved_respond :: "'h resolved_rule_action \<Rightarrow> 'h respond_rule_action option" where
  "resolved_respond (ResRespond r) = Some r"
| "resolved_respond _ = None"

fun resolved_plugin :: "'h resolved_rule_action \<Rightarrow> string option" where
  "resolved_plugin (ResPlugin p) = Some p"
| "resolved_plugin _ = None"

text \<open>The mutable variables of \<^verbatim>\<open>explain_candidates\<close>.\<close>

record explain_state =
  es_priority_groups :: "rule_explain_priority_group list"
  es_current_priority :: "rule_priority option"
  es_current_candidates :: "rule_explain_candidate list"
  es_current_winner :: "rule_explain_winner option"
  es_final_winner :: "rule_explain_winner option"

definition explain_init :: explain_state where
  "explain_init =
     \<lparr>es_priority_groups = [], es_current_priority = None, es_current_candidates = [],
      es_current_winner = None, es_final_winner = None\<rparr>"

definition finalize_explain_group :: "explain_state \<Rightarrow> explain_state" where
  "finalize_explain_group st =
     (case es_current_priority st of
        None \<Rightarrow> st
      | Some priority \<Rightarrow>
          (let winner = es_current_winner st;
               propagation = (case winner of
                   Some w \<Rightarrow> if rew_spread w then Continue else Stop
                 | None \<Rightarrow> NoMatch);
               final = (case winner of Some w \<Rightarrow> Some w | None \<Rightarrow> es_final_winner st)
           in \<lparr>es_priority_groups = es_priority_groups st @
                 [\<lparr>reg_priority = explain_priority_from priority,
                   reg_candidates = es_current_candidates st,
                   reg_winner = winner, reg_propagation = propagation\<rparr>],
               es_current_priority = None, es_current_candidates = [],
               es_current_winner = None, es_final_winner = final\<rparr>))"

definition explain_candidate ::
  "'h rule \<Rightarrow> nat \<Rightarrow> string \<Rightarrow> bool option \<Rightarrow> mismatch option \<Rightarrow> rule_explain_candidate" where
  "explain_candidate r index kind matched reason =
     \<lparr>rec_rule_index = index, rec_matcher_kind = rule_matcher_kind_name r, rec_action_kind = kind,
      rec_priority = explain_priority_from (r_priority r), rec_spread = r_spread r,
      rec_matched = matched, rec_mismatch_reason = reason\<rparr>"

definition explain_winner :: "'h rule \<Rightarrow> nat \<Rightarrow> 'h resolved_rule_action \<Rightarrow> rule_explain_winner" where
  "explain_winner r index action =
     \<lparr>rew_rule_index = index, rew_matcher_kind = rule_matcher_kind_name r,
      rew_action_kind = resolved_action_kind_name action,
      rew_priority = explain_priority_from (r_priority r), rew_spread = r_spread r,
      rew_upstream_url = map_option (\<lambda>up. url_as_str (up_url up)) (resolved_upstream action)\<rparr>"

definition explain_step ::
  "ext_lib \<Rightarrow> 'h rule list \<Rightarrow> url \<Rightarrow> lookup_context \<Rightarrow> nat \<Rightarrow> explain_state \<Rightarrow> explain_state" where
  "explain_step L entries original lookup index st =
     (let r = entries ! index;
          st = (if es_current_priority st \<noteq> Some (r_priority r)
                then (finalize_explain_group st)\<lparr>es_current_priority := Some (r_priority r)\<rparr>
                else st)
      in if es_current_winner st \<noteq> None
         then st\<lparr>es_current_candidates := es_current_candidates st @
                [explain_candidate r index (rule_action_kind_name (r_action r)) None None]\<rparr>
         else (case explain_with_lookup L (r_matcher r) original lookup of
                 Matched path_suf \<Rightarrow>
                   (let action = resolve_action L (r_action r) original path_suf
                    in st\<lparr>es_current_candidates := es_current_candidates st @
                             [explain_candidate r index (resolved_action_kind_name action) (Some True) None],
                          es_current_winner := Some (explain_winner r index action)\<rparr>)
               | Mismatch reason \<Rightarrow>
                   st\<lparr>es_current_candidates := es_current_candidates st @
                       [explain_candidate r index (rule_action_kind_name (r_action r)) (Some False)
                          (Some reason)]\<rparr>))"

definition explain_candidates ::
  "ext_lib \<Rightarrow> 'h rule list \<Rightarrow> url \<Rightarrow> lookup_context \<Rightarrow> nat list \<Rightarrow> rule_explain_trace" where
  "explain_candidates L entries original lookup candidate_indices =
     (let st = finalize_explain_group
                 (fold (explain_step L entries original lookup) candidate_indices explain_init)
      in \<lparr>ret_priority_groups = es_priority_groups st, ret_final_match = es_final_winner st\<rparr>)"

definition index_explain ::
  "ext_lib \<Rightarrow> compiled_rule_index \<Rightarrow> 'h rule list \<Rightarrow> url \<Rightarrow> rule_explain_trace" where
  "index_explain L ci entries original =
     explain_candidates L entries original (lookup_from_url original)
       (candidate_order entries ci original)"

definition index_matches_dns_host :: "compiled_rule_index \<Rightarrow> string \<Rightarrow> bool" where
  "index_matches_dns_host ci host =
     (case normalize_host_cow host of
        Inl _ \<Rightarrow> False
      | Inr h \<Rightarrow> h \<in> ci_dns_exact_hosts ci \<or> suffix_host_matches (ci_suffix_hosts ci) h)"

section \<open>Rule sets\<close>

record 'h rule_set =
  rset_entries :: "'h rule list"
  rset_index :: compiled_rule_index

definition rule_set_new :: "'h rule list \<Rightarrow> 'h rule_set" where
  "rule_set_new entries = \<lparr>rset_entries = entries, rset_index = compile entries\<rparr>"

definition resolve :: "ext_lib \<Rightarrow> 'h rule_set \<Rightarrow> url \<Rightarrow> 'h matched_rule option" where
  "resolve L rset original = index_resolve L (rset_index rset) (rset_entries rset) original"

definition explain :: "ext_lib \<Rightarrow> 'h rule_set \<Rightarrow> url \<Rightarrow> rule_explain_trace" where
  "explain L rset original = index_explain L (rset_index rset) (rset_entries rset) original"

definition rule_set_len :: "'h rule_set \<Rightarrow> nat" where
  "rule_set_len rset = length (rset_entries rset)"

definition matches_dns_host :: "'h rule_set \<Rightarrow> string \<Rightarrow> bool" where
  "matches_dns_host rset host = index_matches_dns_host (rset_index rset) host"

text \<open>\<^verbatim>\<open>LiveRuleSet\<close>: the content of the \<^verbatim>\<open>ArcSwap\<close> is the state.\<close>

record 'h live_rule_set =
  live_inner :: "'h rule_set"

definition live_new :: "'h rule_set \<Rightarrow> 'h live_rule_set" where
  "live_new rules = \<lparr>live_inner = rules\<rparr>"

definition live_snapshot :: "'h live_rule_set \<Rightarrow> 'h rule_set" where
  "live_snapshot l = live_inner l"

definition live_replace :: "'h rule_set \<Rightarrow> 'h live_rule_set \<Rightarrow> nat \<times> 'h live_rule_set" where
  "live_replace rules l = (let rule_count = rule_set_len rules in (rule_count, l\<lparr>live_inner := rules\<rparr>))"

definition live_matches_dns_host :: "'h live_rule_set \<Rightarrow> string \<Rightarrow> bool" where
  "live_matches_dns_host l host = matches_dns_host (live_snapshot l) host"

end
