(* ===== verification/Rule_Resolution.thy ===== *)
theory Rule_Resolution
  imports Rule_Runtime
begin

text \<open>
  Correctness of rule resolution. The abstract specification looks at every rule: in each priority
  level the first matching rule wins the level; from the highest level down, the first winner that
  does not spread decides, and when all winners spread the one of the lowest level does. The
  compiled index with its candidate lists, sort and loop implements it.
\<close>

section \<open>Specification\<close>

definition rule_matches :: "ext_lib \<Rightarrow> 'h rule \<Rightarrow> url \<Rightarrow> bool" where
  "rule_matches L r u = (resolve_with_lookup L r u (lookup_from_url u) \<noteq> None)"

definition level_winner :: "ext_lib \<Rightarrow> 'h rule list \<Rightarrow> url \<Rightarrow> nat \<Rightarrow> bool" where
  "level_winner L rs u i \<longleftrightarrow> i < length rs \<and> rule_matches L (rs ! i) u
     \<and> (\<forall>j < i. rule_matches L (rs ! j) u \<longrightarrow> r_priority (rs ! j) \<noteq> r_priority (rs ! i))"

definition routed :: "ext_lib \<Rightarrow> 'h rule list \<Rightarrow> url \<Rightarrow> nat \<Rightarrow> bool" where
  "routed L rs u i \<longleftrightarrow> level_winner L rs u i
     \<and> (\<forall>j < length rs. level_winner L rs u j \<and> r_priority (rs ! i) < r_priority (rs ! j)
          \<longrightarrow> r_spread (rs ! j))
     \<and> (r_spread (rs ! i) \<longrightarrow>
          (\<forall>j < length rs. level_winner L rs u j \<longrightarrow> r_priority (rs ! i) \<le> r_priority (rs ! j)))"

definition matched_at :: "ext_lib \<Rightarrow> 'h rule list \<Rightarrow> url \<Rightarrow> nat \<Rightarrow> 'h matched_rule option" where
  "matched_at L rs u i =
     map_option (\<lambda>action. \<lparr>mr_action = action, mr_rule = rs ! i\<rparr>)
       (resolve_with_lookup L (rs ! i) u (lookup_from_url u))"

definition resolve_spec :: "ext_lib \<Rightarrow> 'h rule list \<Rightarrow> url \<Rightarrow> 'h matched_rule option" where
  "resolve_spec L rs u = Option.bind (find (routed L rs u) [0..<length rs]) (matched_at L rs u)"

text \<open>
  What the URL and network crates guarantee of a rule: the path of a prefix origin with the scheme of
  the request starts with a slash, a network is well-formed.
\<close>

definition matcher_ok :: "url \<Rightarrow> rule_matcher \<Rightarrow> bool" where
  "matcher_ok u m =
     (case m of
        PrefixUrl origin \<Rightarrow> url_scheme origin = url_scheme u \<longrightarrow> starts_with (url_path origin) ''/''
      | IpM im \<Rightarrow> (case im_pattern im of IpCidr n \<Rightarrow> ip_net_ok n | IpExact _ \<Rightarrow> True)
      | _ \<Rightarrow> True)"

section \<open>The index proposes every matching rule\<close>

lemma exact_lookup_visit: "exact_lookup m k = map_visit m k None"
  by (simp add: exact_lookup_def map_visit_def split: option.split)

lemma option_ip_cases: obtains "x = None" | a where "x = Some (V4 a)" | a where "x = Some (V6 a)"
  by (metis ip_addr.exhaust option.exhaust)

lemma set_collect_candidates:
  "set (collect_candidate_indices (compile rs) u lc) =
     {i. i < length rs \<and>
        (lc_exact_url_key lc \<in> set (exact_url_keys (rs ! i))
         \<or> (\<exists>k \<in> set (prefix_keys (rs ! i)). fst k = lc_origin_key lc \<and> snd k \<noteq> []
              \<and> under_prefix (url_path u) (snd k))
         \<or> (\<exists>host. lc_normalized_host lc = Some host \<and> (host \<in> set (exact_host_keys (rs ! i))
              \<or> (\<exists>s \<in> set (suffix_keys (rs ! i)). under_host_suffix s host)))
         \<or> (\<exists>ip. lc_ip lc = Some ip \<and> (ip \<in> set (exact_ip_keys (rs ! i))
              \<or> (\<exists>a. ip = V4 a \<and> (\<exists>n \<in> set (ipv4_keys (rs ! i)). net4_prefix_len n \<le> 32
                   \<and> in_prefix (net4_network n) (net4_prefix_len n) a))
              \<or> (\<exists>a. ip = V6 a \<and> (\<exists>n \<in> set (ipv6_keys (rs ! i)). net6_prefix_len n \<le> 128
                   \<and> in_prefix (net6_network n) (net6_prefix_len n) a)))))}"
proof -
  have origins: "(case ci_prefix_origins (compile rs) (lc_origin_key lc) of
      Some trie \<Rightarrow> prefix_path_visit trie (url_path u) None | None \<Rightarrow> []) =
    origins_visit (ci_prefix_origins (compile rs)) (lc_origin_key lc, url_path u) None"
    by (simp add: origins_visit_def split: option.split)
  show ?thesis
    unfolding collect_candidate_indices_def exact_lookup_visit origins
    by (cases "lc_normalized_host lc"; cases "lc_ip lc" rule: option_ip_cases)
       (auto simp: compile_lookups)
qed

lemma collect_bound: "i \<in> set (collect_candidate_indices (compile rs) u lc) \<Longrightarrow> i < length rs"
  by (simp add: set_collect_candidates)

lemma explain_common_iff:
  "explain_common_lookup_parts s p pre lc = Inr x \<longleftrightarrow>
     (\<forall>v. s = Some v \<longrightarrow> lc_scheme lc = v) \<and> (\<forall>v. p = Some v \<longrightarrow> lc_port lc = Some v)
     \<and> (\<forall>v. pre = Some v \<longrightarrow> path_has_prefix (lc_path lc) v)"
  by (auto simp: explain_common_lookup_parts_def result_simps split: option.splits if_splits)

lemma host_matched_iff:
  "host_explain_match hm lc = Matched x \<longleftrightarrow>
     explain_common_lookup_parts (hm_scheme hm) (hm_port hm) (hm_path_prefix hm) lc = Inr ()
     \<and> x = Some (resolve_path_suffix (hm_path_prefix hm) (lc_path lc))
     \<and> (\<exists>host. lc_normalized_host lc = Some host \<and>
          (case hm_pattern hm of
             HostExact e \<Rightarrow> host = e
           | HostAnyOf es \<Rightarrow> host \<in> set es
           | HostSuffix e \<Rightarrow> under_host_suffix e host))"
proof -
  have "(host = e \<or> (case strip_suffix host e of None \<Rightarrow> False | Some v \<Rightarrow> ends_with v ''.'')) =
      under_host_suffix e host" for host e
    by (simp add: strip_suffix_ends_iff under_host_suffix_def)
  then show ?thesis
    by (auto simp: host_explain_match_def list_ex_iff Let_def split: sum.splits option.splits
        host_pattern.splits if_splits)
qed

lemma ip_matched_iff:
  "ip_explain_match L im lc = Matched x \<longleftrightarrow>
     explain_common_lookup_parts (im_scheme im) (im_port im) (im_path_prefix im) lc = Inr ()
     \<and> x = Some (resolve_path_suffix (im_path_prefix im) (lc_path lc))
     \<and> (\<exists>ip. lc_ip lc = Some ip \<and>
          (case im_pattern im of IpExact e \<Rightarrow> ip = e | IpCidr n \<Rightarrow> ipnet_contains L n ip))"
  by (auto simp: ip_explain_match_def Let_def split: sum.splits option.splits
      ip_pattern.splits if_splits)

lemma rule_matches_iff:
  "rule_matches L r u \<longleftrightarrow> (\<exists>x. explain_with_lookup L (r_matcher r) u (lookup_from_url u) = Matched x)"
  by (auto simp: rule_matches_def resolve_with_lookup_def split: rule_match_explain.splits)

lemma lookup_from_url_sel [simp]:
  "lc_exact_url_key (lookup_from_url u) = exact_url_key_from_url u"
  "lc_origin_key (lookup_from_url u) = origin_key_from_url u"
  "lc_scheme (lookup_from_url u) = url_scheme u"
  "lc_port (lookup_from_url u) = url_port_or_known_default u"
  "lc_path (lookup_from_url u) = url_path u"
  "lc_normalized_host (lookup_from_url u) =
     Option.bind (url_host_str u) (\<lambda>v. result_ok (normalize_host v))"
  "lc_ip (lookup_from_url u) = Option.bind (url_host_str u) parse_host_ip"
  by (simp_all add: lookup_from_url_def Let_def normalize_host_cow_eq)

lemma same_origin_key: "same_origin u v \<Longrightarrow> origin_key_from_url u = origin_key_from_url v"
  by (simp add: same_origin_def origin_key_from_url_def)

lemma same_url_key: "same_url u v \<Longrightarrow> exact_url_key_from_url u = exact_url_key_from_url v"
  by (simp add: same_url_def exact_url_key_from_url_def same_origin_key)

lemma under_prefix_root: "starts_with path ''/'' \<Longrightarrow> under_prefix path ''/''"
  by (auto simp: under_prefix_def starts_with_def ends_with_def prefix_def)

lemma collect_complete:
  assumes "ipnet_contains_law L" "matcher_ok u (r_matcher (rs ! i))" "starts_with (url_path u) ''/''"
    and "i < length rs" "rule_matches L (rs ! i) u"
  shows "i \<in> set (collect_candidate_indices (compile rs) u (lookup_from_url u))"
proof -
  let ?r = "rs ! i"
  obtain x where x: "explain_with_lookup L (r_matcher ?r) u (lookup_from_url u) = Matched x"
    using assms(5) by (auto simp: rule_matches_iff)
  show ?thesis
  proof (cases "r_matcher ?r")
    case (ExactUrl origin)
    with x have "same_url u origin" by (auto simp: explain_with_lookup_def split: if_splits)
    with ExactUrl assms(4) show ?thesis
      by (simp add: set_collect_candidates exact_url_keys_def same_url_key)
  next
    case (PrefixUrl origin)
    with x have o: "same_origin u origin" "path_has_prefix (url_path u) (url_path origin)"
      by (auto simp: explain_with_lookup_def split: if_splits)
    then have "under_prefix (url_path u) (url_path origin)"
      using assms(3) by (auto simp: path_has_prefix_iff under_prefix_root)
    moreover have "url_path origin \<noteq> []"
      using assms(2) PrefixUrl o(1) by (auto simp: matcher_ok_def starts_with_def same_origin_def)
    ultimately show ?thesis using PrefixUrl assms(4) o
      by (simp add: set_collect_candidates prefix_keys_def same_origin_key)
  next
    case (HostM hm)
    with x assms(4) show ?thesis
      by (auto simp: explain_with_lookup_def host_matched_iff set_collect_candidates
          exact_host_keys_def suffix_keys_def split: host_pattern.splits)
  next
    case (IpM im)
    with x obtain ip where ip: "lc_ip (lookup_from_url u) = Some ip"
      "case im_pattern im of IpExact e \<Rightarrow> ip = e | IpCidr n \<Rightarrow> ipnet_contains L n ip"
      by (auto simp: explain_with_lookup_def ip_matched_iff)
    show ?thesis
    proof (cases "im_pattern im")
      case (IpExact e)
      with ip IpM assms(4) show ?thesis by (simp add: set_collect_candidates exact_ip_keys_def)
    next
      case (IpCidr n)
      then have "ip_net_contains n ip" "ip_net_ok n"
        using ip(2) assms(1,2) IpM by (auto simp: ipnet_contains_law_def matcher_ok_def)
      with ip(1) IpM IpCidr assms(4) show ?thesis
        by (auto simp: set_collect_candidates ipv4_keys_def ipv6_keys_def ip_net_contains_def
            ip_net_ok_def ipv4_net_ok_def ipv6_net_ok_def split: ip_net.splits ip_addr.splits)
    qed
  qed
qed

section \<open>The candidate order\<close>

definition before :: "'h rule list \<Rightarrow> nat \<Rightarrow> nat \<Rightarrow> bool" where
  "before rs i j \<longleftrightarrow> r_priority (rs ! j) < r_priority (rs ! i)
     \<or> r_priority (rs ! i) = r_priority (rs ! j) \<and> i < j"

lemma compare_candidate_order_iff:
  "compare_candidate_order rs i j = Less \<longleftrightarrow> before rs i j"
  "compare_candidate_order rs i j = Equal \<longleftrightarrow> i = j"
  by (auto simp: compare_candidate_order_def then_with_def cmp_def before_def split: ordering.splits if_splits)

lemma before_total: "i \<noteq> j \<Longrightarrow> before rs i j \<or> before rs j i"
  by (auto simp: before_def)

lemma before_trans: "before rs i j \<Longrightarrow> before rs j k \<Longrightarrow> before rs i k"
  by (auto simp: before_def)

lemma set_insert_by [simp]: "set (insert_by f x xs) = insert x (set xs)"
  by (induction xs) auto

lemma set_sort_unstable_by [simp]: "set (sort_unstable_by f xs) = set xs"
  by (induction xs) (auto simp: sort_unstable_by_def)

abbreviation weakly_before :: "'h rule list \<Rightarrow> nat \<Rightarrow> nat \<Rightarrow> bool" where
  "weakly_before rs i j \<equiv> i = j \<or> before rs i j"

lemma sorted_insert_by:
  "sorted_wrt (weakly_before rs) xs \<Longrightarrow>
     sorted_wrt (weakly_before rs) (insert_by (compare_candidate_order rs) x xs)"
proof (induction xs)
  case (Cons y ys)
  show ?case
  proof (cases "before rs y x")
    case True
    with Cons show ?thesis by (auto simp: compare_candidate_order_iff)
  next
    case False
    then have "weakly_before rs x y" using before_total by blast
    with Cons.prems False show ?thesis
      by (auto simp: compare_candidate_order_iff intro: before_trans)
  qed
qed simp

lemma sorted_sort_unstable_by:
  "sorted_wrt (weakly_before rs) (sort_unstable_by (compare_candidate_order rs) xs)"
  by (induction xs) (simp_all add: sort_unstable_by_def sorted_insert_by)

lemma sorted_dedup:
  "sorted_wrt (weakly_before rs) xs \<Longrightarrow> sorted_wrt (before rs) (remdups_adj xs)"
proof (induction xs rule: remdups_adj.induct)
  case (3 x y xs)
  then show ?case
  proof (cases "x = y")
    case False
    then have "before rs x y" using 3(3) by auto
    moreover have "weakly_before rs y z" if "z \<in> set (remdups_adj (y # xs))" for z
      using 3(3) that by auto
    ultimately have "before rs x z" if "z \<in> set (remdups_adj (y # xs))" for z
      using that before_trans by blast
    with False 3 show ?thesis by (auto simp del: remdups_adj_set)
  qed auto
qed auto

lemma sorted_candidate_order: "sorted_wrt (before rs) (candidate_order rs ci u)"
  by (simp add: candidate_order_def sorted_dedup sorted_sort_unstable_by)

lemma set_candidate_order:
  "set (candidate_order rs ci u) = set (collect_candidate_indices ci u (lookup_from_url u))"
  by (simp add: candidate_order_def)

section \<open>The loop picks among the winners of the levels\<close>

definition pick :: "'h matched_rule option \<Rightarrow> 'h matched_rule list \<Rightarrow> 'h matched_rule option" where
  "pick propagated ws =
     (case find (\<lambda>m. \<not> r_spread (mr_rule m)) ws of
        Some m \<Rightarrow> Some m
      | None \<Rightarrow> if ws = [] then propagated else Some (last ws))"

definition opt_list :: "'a option \<Rightarrow> 'a list" where
  "opt_list x = (case x of None \<Rightarrow> [] | Some v \<Rightarrow> [v])"

lemma pick_simps [simp]:
  "pick p [] = p"
  "\<not> r_spread (mr_rule m) \<Longrightarrow> pick p (m # ws) = Some m"
  "r_spread (mr_rule m) \<Longrightarrow> pick p (m # ws) = pick (Some m) ws"
  by (auto simp: pick_def split: option.splits)

lemma opt_list_simps [simp]: "opt_list None = []" "opt_list (Some x) = [x]"
  by (simp_all add: opt_list_def)

text \<open>The winners among the candidates \<open>cs\<close> outside the level that is already decided.\<close>

definition winners_in :: "ext_lib \<Rightarrow> 'h rule list \<Rightarrow> url \<Rightarrow> rule_priority option \<Rightarrow> nat list \<Rightarrow> nat list" where
  "winners_in L rs u decided cs =
     filter (\<lambda>i. rule_matches L (rs ! i) u \<and> decided \<noteq> Some (r_priority (rs ! i))
        \<and> (\<forall>j \<in> set cs. rule_matches L (rs ! j) u \<and> r_priority (rs ! j) = r_priority (rs ! i) \<longrightarrow> i \<le> j)) cs"

lemma winners_in_match:
  assumes "sorted_wrt (before rs) (c # cs)" "rule_matches L (rs ! c) u"
  shows "winners_in L rs u None (c # cs) = c # winners_in L rs u (Some (r_priority (rs ! c))) cs"
proof -
  have lt: "c < i" if "i \<in> set cs" "r_priority (rs ! i) = r_priority (rs ! c)" for i
    using assms(1) that by (auto simp: before_def)
  then have "i \<le> c \<longleftrightarrow> False" if "i \<in> set cs" "r_priority (rs ! c) = r_priority (rs ! i)" for i
    using that by (metis leD)
  then show ?thesis using assms(2) lt
    unfolding winners_in_def filter.simps by (auto intro!: filter_cong dest: less_imp_le)
qed

lemma winners_in_mismatch:
  "\<not> rule_matches L (rs ! c) u \<Longrightarrow> winners_in L rs u d (c # cs) = winners_in L rs u d cs"
  by (auto simp: winners_in_def intro!: filter_cong)

lemma winners_in_decided:
  "d = Some (r_priority (rs ! c)) \<Longrightarrow> winners_in L rs u d (c # cs) = winners_in L rs u d cs"
  by (auto simp: winners_in_def intro!: filter_cong)

lemma winners_in_next_level:
  assumes "sorted_wrt (before rs) (c # cs)" "r_priority (rs ! c) < p"
  shows "winners_in L rs u (Some p) (c # cs) = winners_in L rs u None (c # cs)"
proof -
  have "r_priority (rs ! i) \<noteq> p" if "i \<in> set (c # cs)" for i
    using assms that by (auto simp: before_def)
  then show ?thesis by (auto simp: winners_in_def intro!: filter_cong)
qed

definition mk_matched :: "ext_lib \<Rightarrow> 'h rule list \<Rightarrow> url \<Rightarrow> nat \<Rightarrow> 'h matched_rule" where
  "mk_matched L rs u i = \<lparr>mr_action = the (resolve_with_lookup L (rs ! i) u (lookup_from_url u)), mr_rule = rs ! i\<rparr>"

lemma resolve_loop_winners:
  assumes "sorted_wrt (before rs) cs"
    and "pm \<noteq> None \<Longrightarrow> \<exists>p. act = Some p \<and> (\<forall>i \<in> set cs. r_priority (rs ! i) \<le> p)"
  shows "resolve_candidates_loop L rs u (lookup_from_url u) cs prg act pm =
    pick prg (opt_list pm @ map (mk_matched L rs u)
      (winners_in L rs u (if pm = None then None else act) cs))"
  using assms
proof (induction cs arbitrary: prg act pm)
  case Nil
  then show ?case
    by (cases pm) (auto simp: winners_in_def pick_def split: option.splits)
next
  case (Cons c cs)
  let ?loop = "resolve_candidates_loop L rs u (lookup_from_url u)"
  let ?p = "r_priority (rs ! c)"
  have cs: "sorted_wrt (before rs) cs" using Cons.prems(1) by simp
  have le: "\<forall>i \<in> set cs. r_priority (rs ! i) \<le> ?p"
    using Cons.prems(1) by (auto simp: before_def)
  have fresh: "(case resolve_with_lookup L (rs ! c) u (lookup_from_url u) of
        Some a \<Rightarrow> ?loop cs prg (Some ?p) (Some \<lparr>mr_action = a, mr_rule = rs ! c\<rparr>)
      | None \<Rightarrow> ?loop cs prg (Some ?p) None) =
      pick prg (map (mk_matched L rs u) (winners_in L rs u None (c # cs)))" for prg
  proof (cases "resolve_with_lookup L (rs ! c) u (lookup_from_url u)")
    case None
    then have "\<not> rule_matches L (rs ! c) u" by (simp add: rule_matches_def)
    then show ?thesis using None Cons.IH [OF cs, of None "Some ?p"]
      by (simp add: winners_in_mismatch)
  next
    case (Some a)
    then have "rule_matches L (rs ! c) u" by (simp add: rule_matches_def)
    with Some show ?thesis
      using Cons.IH [OF cs, of "Some \<lparr>mr_action = a, mr_rule = rs ! c\<rparr>" "Some ?p"] le
      by (simp add: winners_in_match [OF Cons.prems(1)] mk_matched_def [of L rs u c])
  qed
  show ?case
  proof (cases "act = Some ?p")
    case True
    show ?thesis
    proof (cases pm)
      case None
      with True fresh show ?thesis by (simp add: Let_def)
    next
      case (Some m)
      with True show ?thesis using Cons.IH [OF cs, of pm act] le
        by (simp add: winners_in_decided Let_def)
    qed
  next
    case False
    show ?thesis
    proof (cases pm)
      case None
      with False fresh show ?thesis by (simp add: Let_def)
    next
      case (Some m)
      then obtain p where p: "act = Some p" "?p < p" using Cons.prems(2) False by force
      then have "p \<noteq> ?p" by simp
      with p show ?thesis using Some fresh
        by (cases "r_spread (mr_rule m)") (simp_all add: winners_in_next_level [OF Cons.prems(1)] Let_def)
    qed
  qed
qed

lemma resolve_candidates_winners:
  "sorted_wrt (before rs) cs \<Longrightarrow>
     resolve_candidates L rs u (lookup_from_url u) cs =
     pick None (map (mk_matched L rs u) (winners_in L rs u None cs))"
  using resolve_loop_winners [of rs cs None None] by (simp add: resolve_candidates_def)

section \<open>The winner that routes the request\<close>

lemma level_winner_unique:
  assumes "level_winner L rs u i" "level_winner L rs u j" "r_priority (rs ! i) = r_priority (rs ! j)"
  shows "i = j"
  using assms unfolding level_winner_def by (metis linorder_neqE_nat)

lemma routed_unique:
  assumes "routed L rs u i" "routed L rs u j"
  shows "i = j"
proof (rule ccontr)
  assume "i \<noteq> j"
  then have "r_priority (rs ! i) \<noteq> r_priority (rs ! j)"
    using assms level_winner_unique by (metis routed_def)
  then consider "r_priority (rs ! i) < r_priority (rs ! j)" | "r_priority (rs ! j) < r_priority (rs ! i)"
    by (metis neq_iff)
  then show False
    using assms unfolding routed_def level_winner_def by cases (metis leD)+
qed

lemma find_routed: "routed L rs u i \<Longrightarrow> find (routed L rs u) [0..<length rs] = Some i"
proof -
  assume r: "routed L rs u i"
  then have "i < length rs" by (simp add: routed_def level_winner_def)
  moreover have "j < i \<Longrightarrow> \<not> routed L rs u j" for j using r routed_unique by blast
  ultimately show ?thesis using r by (auto simp: find_Some_iff intro!: exI [of _ i])
qed

lemma matched_at_mk: "rule_matches L (rs ! i) u \<Longrightarrow> matched_at L rs u i = Some (mk_matched L rs u i)"
  by (auto simp: rule_matches_def matched_at_def mk_matched_def)

lemma spec_routed: "routed L rs u i \<Longrightarrow> resolve_spec L rs u = Some (mk_matched L rs u i)"
  by (simp add: resolve_spec_def find_routed matched_at_mk routed_def level_winner_def)

lemma spec_unrouted: "(\<And>i. \<not> routed L rs u i) \<Longrightarrow> resolve_spec L rs u = None"
  by (simp add: resolve_spec_def find_None_iff [THEN iffD2])

lemma pick_spec:
  assumes W: "set W = {i. level_winner L rs u i}"
    and desc: "sorted_wrt (\<lambda>i j. r_priority (rs ! j) < r_priority (rs ! i)) W"
  shows "pick None (map (mk_matched L rs u) W) = resolve_spec L rs u"
proof (cases "\<exists>i \<in> set W. \<not> r_spread (rs ! i)")
  case True
  then obtain a w b where w: "W = a @ w # b" "\<not> r_spread (rs ! w)" "\<forall>i \<in> set a. r_spread (rs ! i)"
    using split_list_first_prop [of W "\<lambda>i. \<not> r_spread (rs ! i)"] by auto
  then have "routed L rs u w"
    unfolding routed_def using W desc by (auto simp: sorted_wrt_append set_eq_iff)
       (metis less_imp_le linorder_not_le order_less_trans)+
  moreover have "pick p (map (mk_matched L rs u) (a @ w # b)) = Some (mk_matched L rs u w)" for p
    using w(2,3) by (induction a arbitrary: p) (simp_all add: mk_matched_def)
  ultimately show ?thesis by (simp add: spec_routed w(1))
next
  case False
  show ?thesis
  proof (cases W rule: rev_cases)
    case Nil
    then have "\<not> routed L rs u i" for i using W by (auto simp: routed_def)
    with Nil show ?thesis by (simp add: spec_unrouted)
  next
    case (snoc ys y)
    then have "routed L rs u y"
      unfolding routed_def using W desc False by (auto simp: sorted_wrt_append set_eq_iff)
        (metis less_imp_le order_refl)+
    moreover have "pick p (map (mk_matched L rs u) (ys @ [y])) = Some (mk_matched L rs u y)"
      if "\<forall>i \<in> set (ys @ [y]). r_spread (rs ! i)" for p
      using that by (induction ys arbitrary: p) (simp_all add: mk_matched_def [of L rs u] comp_def)
    ultimately show ?thesis using False by (simp add: spec_routed snoc)
  qed
qed

definition covers :: "ext_lib \<Rightarrow> 'h rule list \<Rightarrow> url \<Rightarrow> nat list \<Rightarrow> bool" where
  "covers L rs u cs \<longleftrightarrow> sorted_wrt (before rs) cs \<and> set cs \<subseteq> {..<length rs}
     \<and> (\<forall>i < length rs. rule_matches L (rs ! i) u \<longrightarrow> i \<in> set cs)"

lemma winners_in_level_winners:
  assumes "covers L rs u cs"
  shows "set (winners_in L rs u None cs) = {i. level_winner L rs u i}"
    and "sorted_wrt (\<lambda>i j. r_priority (rs ! j) < r_priority (rs ! i)) (winners_in L rs u None cs)"
proof -
  show set: "set (winners_in L rs u None cs) = {i. level_winner L rs u i}"
    using assms unfolding winners_in_def level_winner_def covers_def
    by (auto simp: subset_iff) (metis leI less_trans not_le order_less_trans)+
  have "sorted_wrt (before rs) (winners_in L rs u None cs)"
    using assms by (simp add: winners_in_def covers_def sorted_wrt_filter)
  then show "sorted_wrt (\<lambda>i j. r_priority (rs ! j) < r_priority (rs ! i)) (winners_in L rs u None cs)"
  proof (rule sorted_wrt_mono_rel [rotated])
    fix i j assume "i \<in> set (winners_in L rs u None cs)" "j \<in> set (winners_in L rs u None cs)"
      "before rs i j"
    then show "r_priority (rs ! j) < r_priority (rs ! i)"
      using level_winner_unique [of L rs u i j] by (auto simp: set before_def)
  qed
qed

lemma covers_candidate_order:
  assumes "ipnet_contains_law L" "\<forall>r \<in> set rs. matcher_ok u (r_matcher r)" "starts_with (url_path u) ''/''"
  shows "covers L rs u (candidate_order rs (compile rs) u)"
  using assms by (auto simp: covers_def sorted_candidate_order set_candidate_order collect_complete
      dest: collect_bound)

lemma resolve_new_eq_spec:
  assumes "ipnet_contains_law L" "\<forall>r \<in> set rs. matcher_ok u (r_matcher r)" "starts_with (url_path u) ''/''"
  shows "resolve L (rule_set_new rs) u = resolve_spec L rs u"
proof -
  have c: "covers L rs u (candidate_order rs (compile rs) u)" by (rule covers_candidate_order [OF assms])
  then show ?thesis
    using pick_spec [OF winners_in_level_winners [OF c]]
    by (simp add: resolve_def rule_set_new_def index_resolve_def resolve_candidates_winners
        sorted_candidate_order)
qed

section \<open>What the explanation reports\<close>

definition mk_winner :: "ext_lib \<Rightarrow> 'h rule list \<Rightarrow> url \<Rightarrow> nat \<Rightarrow> rule_explain_winner" where
  "mk_winner L rs u i = explain_winner (rs ! i) i (mr_action (mk_matched L rs u i))"

definition last_or :: "'a option \<Rightarrow> 'a list \<Rightarrow> 'a option" where
  "last_or d xs = (if xs = [] then d else Some (last xs))"

lemma last_or_simps [simp]: "last_or d [] = d" "last_or d (x # xs) = last_or (Some x) xs"
  by (simp_all add: last_or_def)

lemma finalize_final:
  "es_current_priority st \<noteq> None \<or> es_current_winner st = None \<Longrightarrow>
     es_final_winner (finalize_explain_group st) = last_or (es_final_winner st) (opt_list (es_current_winner st))"
  by (auto simp: finalize_explain_group_def Let_def split: option.splits)

lemma finalize_reset [simp]:
  "es_current_winner (finalize_explain_group st) =
     (if es_current_priority st = None then es_current_winner st else None)"
  by (auto simp: finalize_explain_group_def Let_def split: option.splits)

lemma explain_matched_iff:
  "explain_with_lookup L (r_matcher r) u (lookup_from_url u) = Matched x \<Longrightarrow>
     resolve_with_lookup L r u (lookup_from_url u) = Some (resolve_action L (r_action r) u x)"
  by (simp add: resolve_with_lookup_def)

lemma explain_step_eff:
  fixes L :: ext_lib and rs :: "'h rule list" and u :: url and c :: nat
  assumes "es_current_priority st \<noteq> None \<or> es_current_winner st = None"
  defines "st' \<equiv> explain_step L rs u (lookup_from_url u) c st"
    and "same \<equiv> es_current_priority st = Some (r_priority (rs ! c))"
  shows "es_current_priority st' = Some (r_priority (rs ! c))"
    and "es_current_winner st' =
      (if same \<and> es_current_winner st \<noteq> None then es_current_winner st
       else if rule_matches L (rs ! c) u then Some (mk_winner L rs u c) else None)"
    and "es_final_winner st' =
      (if same then es_final_winner st
       else last_or (es_final_winner st) (opt_list (es_current_winner st)))"
  using assms(1) finalize_final [OF assms(1)]
  by (auto simp: st'_def same_def explain_step_def Let_def rule_matches_iff mk_winner_def
      mk_matched_def explain_matched_iff split: rule_match_explain.splits)

lemma explain_fold_winners:
  assumes "sorted_wrt (before rs) cs"
    and "es_current_winner st \<noteq> None \<Longrightarrow>
      \<exists>p. es_current_priority st = Some p \<and> (\<forall>i \<in> set cs. r_priority (rs ! i) \<le> p)"
  shows "es_final_winner (finalize_explain_group
      (fold (explain_step L rs u (lookup_from_url u)) cs st)) =
    last_or (es_final_winner st) (opt_list (es_current_winner st) @ map (mk_winner L rs u)
      (winners_in L rs u (if es_current_winner st = None then None else es_current_priority st) cs))"
  using assms
proof (induction cs arbitrary: st)
  case Nil
  then show ?case by (subst (1) fold_simps, subst finalize_final) (auto simp: winners_in_def)
next
  case (Cons c cs)
  let ?p = "r_priority (rs ! c)"
  let ?st = "explain_step L rs u (lookup_from_url u) c st"
  have cs: "sorted_wrt (before rs) cs" using Cons.prems(1) by simp
  have le: "\<forall>i \<in> set cs. r_priority (rs ! i) \<le> ?p"
    using Cons.prems(1) by (auto simp: before_def)
  have ok: "es_current_priority st \<noteq> None \<or> es_current_winner st = None"
    using Cons.prems(2) by auto
  note eff = explain_step_eff [OF ok, of L rs u c]
  note IH = Cons.IH [OF cs, of ?st]
  show ?case
  proof (cases "es_current_winner st = None")
    case True
    then show ?thesis using IH le
      by (cases "rule_matches L (rs ! c) u")
         (auto simp: eff winners_in_match [OF Cons.prems(1)] winners_in_mismatch)
  next
    case False
    then obtain w p where w: "es_current_winner st = Some w" "es_current_priority st = Some p" "?p \<le> p"
      using Cons.prems(2) by fastforce
    show ?thesis
    proof (cases "p = ?p")
      case True
      with w IH le show ?thesis by (simp add: eff winners_in_decided)
    next
      case False
      with w have lt: "?p < p" by simp
      then show ?thesis using w IH le False
        by (cases "rule_matches L (rs ! c) u")
           (simp_all add: eff winners_in_next_level [OF Cons.prems(1) lt]
             winners_in_match [OF Cons.prems(1)] winners_in_mismatch)
    qed
  qed
qed

text \<open>The winner of the lowest level that has one.\<close>

definition lowest_winner :: "ext_lib \<Rightarrow> 'h rule list \<Rightarrow> url \<Rightarrow> nat \<Rightarrow> bool" where
  "lowest_winner L rs u i \<longleftrightarrow> level_winner L rs u i
     \<and> (\<forall>j < length rs. level_winner L rs u j \<longrightarrow> r_priority (rs ! i) \<le> r_priority (rs ! j))"

lemma explain_final:
  assumes "covers L rs u (candidate_order rs (compile rs) u)"
  shows "ret_final_match (explain L (rule_set_new rs) u) =
    last_or None (map (mk_winner L rs u) (winners_in L rs u None (candidate_order rs (compile rs) u)))"
  using explain_fold_winners [of rs "candidate_order rs (compile rs) u" explain_init L u]
  by (simp add: explain_def rule_set_new_def index_explain_def explain_candidates_def Let_def
      explain_init_def sorted_candidate_order)

lemma explain_final_lowest:
  assumes c: "covers L rs u (candidate_order rs (compile rs) u)"
  shows "map_option rew_rule_index (ret_final_match (explain L (rule_set_new rs) u)) =
    find (lowest_winner L rs u) [0..<length rs]"
proof -
  let ?W = "winners_in L rs u None (candidate_order rs (compile rs) u)"
  note W = winners_in_level_winners [OF c]
  show ?thesis
  proof (cases ?W rule: rev_cases)
    case Nil
    then have "\<not> level_winner L rs u i" for i using W(1) by auto
    then show ?thesis
      by (simp add: explain_final [OF c] Nil find_None_iff [THEN iffD2] lowest_winner_def)
  next
    case (snoc ys y)
    have y: "level_winner L rs u y" using W(1) by (auto simp: snoc)
    have low: "r_priority (rs ! y) < r_priority (rs ! j)" if "level_winner L rs u j" "j \<noteq> y" for j
      using W that by (auto simp: snoc sorted_wrt_append set_eq_iff)
    have "lowest_winner L rs u y" using y low by (fastforce simp: lowest_winner_def)
    moreover have "\<not> lowest_winner L rs u j" if "j < y" for j
      using low [of j] y that by (auto simp: lowest_winner_def level_winner_def)
    ultimately have "find (lowest_winner L rs u) [0..<length rs] = Some y"
      using y by (auto simp: find_Some_iff level_winner_def intro!: exI [of _ y])
    then show ?thesis by (simp add: explain_final [OF c] snoc last_or_def mk_winner_def explain_winner_def)
  qed
qed

section \<open>DNS capture\<close>

text \<open>The hosts a rule claims for the DNS hijack.\<close>

definition dns_claims :: "'h rule \<Rightarrow> string \<Rightarrow> bool" where
  "dns_claims r h \<longleftrightarrow> r_action r \<noteq> ActDirect \<and>
     (case r_matcher r of
        ExactUrl o' \<Rightarrow> (\<exists>v. url_host_str o' = Some v \<and> normalize_host v = Ok h)
      | PrefixUrl o' \<Rightarrow> (\<exists>v. url_host_str o' = Some v \<and> normalize_host v = Ok h)
      | HostM hm \<Rightarrow>
          (case hm_pattern hm of
             HostExact e \<Rightarrow> h = e | HostAnyOf es \<Rightarrow> h \<in> set es | HostSuffix e \<Rightarrow> under_host_suffix e h)
      | IpM _ \<Rightarrow> False)"

lemma url_dns_keys_sel:
  "set (dk_exact_hosts (url_dns_keys o')) = {h. \<exists>v. url_host_str o' = Some v \<and> normalize_host v = Ok h}"
  "dk_suffix_hosts (url_dns_keys o') = []"
  by (cases "url_host_str o'"; cases "normalize_host (the (url_host_str o'))";
      simp add: url_dns_keys_def dns_keys_default_def)+

lemma dns_claims_keys:
  "dns_claims r h \<longleftrightarrow> h \<in> set (dk_exact_hosts (dns_host_keys r))
     \<or> (\<exists>s \<in> set (dk_suffix_hosts (dns_host_keys r)). under_host_suffix s h)"
  by (auto simp: dns_claims_def dns_host_keys_def dns_keys_default_def url_dns_keys_sel
      split: rule_matcher.splits host_pattern.splits)

lemma matches_dns_host_new:
  "matches_dns_host (rule_set_new rs) host \<longleftrightarrow>
     (\<exists>h. normalize_host host = Ok h \<and> (\<exists>r \<in> set rs. dns_claims r h))"
  by (auto simp: matches_dns_host_def rule_set_new_def index_matches_dns_host_def normalize_host_cow_eq
      dns_exact_hosts_compile suffix_matches_compile dns_claims_keys split: sum.splits)

lemma rule_matches_claims:
  assumes "rule_matches L r u" "url_host_str u = Some host" "normalize_host host = Ok h"
    and "r_action r \<noteq> ActDirect" "\<forall>im. r_matcher r \<noteq> IpM im"
  shows "dns_claims r h"
  using assms by (auto simp: rule_matches_iff explain_with_lookup_def dns_claims_def host_matched_iff
      same_url_def same_origin_def result_simps split: rule_matcher.splits host_pattern.splits if_splits)
    metis+

section \<open>Properties\<close>

definition sample_rule :: "rule_matcher \<Rightarrow> unit rule_action \<Rightarrow> rule_priority \<Rightarrow> bool \<Rightarrow> unit rule" where
  "sample_rule m a p s = \<lparr>r_kind = matcher_kind m, r_matcher = m, r_action = a, r_priority = p, r_spread = s\<rparr>"

definition host_is :: "string \<Rightarrow> rule_matcher" where
  "host_is h = HostM \<lparr>hm_pattern = HostExact h, hm_scheme = None, hm_port = None, hm_path_prefix = None\<rparr>"

definition sample_rules :: "unit rule list" where
  "sample_rules =
     [sample_rule (host_is ''a.io'') ActDirect LOW False,
      sample_rule (PrefixUrl (sample_url ''a.io'' ''/x'')) (ActPlugin ''p'') HIGH False,
      sample_rule (IpM \<lparr>im_pattern = IpCidr (NetV4 \<lparr>net4_network = 0x0A000000, net4_prefix_len = 8,
          net4_broadcast = 0x0AFFFFFF\<rparr>), im_scheme = None, im_port = None, im_path_prefix = None\<rparr>)
        ActDirect MEDIUM False]"

lemma sample_rules_ok: "\<forall>r \<in> set sample_rules. matcher_ok u (r_matcher r)"
  by (simp add: sample_rules_def sample_rule_def matcher_ok_def host_is_def sample_url_def
      starts_with_def ip_net_ok_def ipv4_net_ok_def take_bit_eq_mod mask_eq_exp_minus_1)

text \<open>
  C1. The compiled index with its tries, hash maps, sort, deduplication and early exits resolves
  every request as the specification that looks at all rules: the first matching rule wins its
  priority level, and the first winner from the top that does not spread, or else the lowest
  winner, is the answer with its resolved action.
\<close>

theorem resolve_refines_spec:
  assumes "ipnet_contains_law L"
    and "\<forall>r \<in> set rs. matcher_ok u (r_matcher r)"
    and "starts_with (url_path u) ''/''"
  shows "resolve L (rule_set_new rs) u = resolve_spec L rs u"
  by (rule resolve_new_eq_spec [OF assms])

text \<open>The rule that is listed second wins, because its level is higher.\<close>

theorem resolve_refines_spec_witness:
  "resolve sample_lib (rule_set_new sample_rules) (sample_url ''a.io'' ''/x/y'') =
     resolve_spec sample_lib sample_rules (sample_url ''a.io'' ''/x/y'')"
  by (rule resolve_refines_spec) (rule sample_lib_contains_law, rule sample_rules_ok,
      simp add: sample_url_def starts_with_def)

lemma routed_lowest_iff:
  assumes "lowest_winner L rs u i"
  shows "routed L rs u i \<longleftrightarrow>
    (\<forall>j. level_winner L rs u j \<and> r_priority (rs ! i) < r_priority (rs ! j) \<longrightarrow> r_spread (rs ! j))"
  using assms unfolding routed_def lowest_winner_def level_winner_def by auto

lemma lowest_winner_ex:
  assumes "level_winner L rs u k"
  obtains i where "lowest_winner L rs u i"
proof -
  define W where "W = {i. level_winner L rs u i}"
  have "finite W" unfolding W_def by (rule finite_subset [of _ "{..<length rs}"])
    (auto simp: level_winner_def)
  moreover have "W \<noteq> {}" using assms by (auto simp: W_def)
  ultimately obtain i where "i \<in> W" "\<forall>j \<in> W. r_priority (rs ! i) \<le> r_priority (rs ! j)"
    using ex_min_if_finite [of "(\<lambda>i. r_priority (rs ! i)) ` W"] by (auto simp: not_less)
  then show ?thesis using that by (auto simp: W_def lowest_winner_def)
qed

lemma lowest_winner_unique: "lowest_winner L rs u i \<Longrightarrow> lowest_winner L rs u j \<Longrightarrow> i = j"
  using level_winner_unique unfolding lowest_winner_def level_winner_def
  by (metis order_antisym)

lemma find_lowest:
  assumes "lowest_winner L rs u i"
  shows "find (lowest_winner L rs u) [0..<length rs] = Some i"
proof -
  have "i < length rs" using assms by (simp add: lowest_winner_def level_winner_def)
  moreover have "j < i \<Longrightarrow> \<not> lowest_winner L rs u j" for j using assms lowest_winner_unique by blast
  ultimately show ?thesis using assms by (auto simp: find_Some_iff intro!: exI [of _ i])
qed

text \<open>
  C3. What \<^verbatim>\<open>/rules/explain\<close> names as the final match is the rule that routes the request exactly
  when every winner above the lowest matching level spreads. When a higher winner stops the
  propagation the report names a lower rule that never gets the request.
\<close>

theorem explain_agrees_iff:
  assumes "ipnet_contains_law L"
    and "\<forall>r \<in> set rs. matcher_ok u (r_matcher r)"
    and "starts_with (url_path u) ''/''"
  shows "map_option rew_rule_index (ret_final_match (explain L (rule_set_new rs) u))
      = find (routed L rs u) [0..<length rs]
    \<longleftrightarrow> (\<forall>i j. level_winner L rs u i \<and> level_winner L rs u j
           \<and> r_priority (rs ! i) < r_priority (rs ! j) \<longrightarrow> r_spread (rs ! j))"
proof (cases "\<exists>k. level_winner L rs u k")
  case False
  then show ?thesis
    by (simp add: explain_final_lowest [OF covers_candidate_order [OF assms]]
        find_None_iff [THEN iffD2] lowest_winner_def routed_def)
next
  case True
  then obtain i where i: "lowest_winner L rs u i" using lowest_winner_ex by blast
  have low: "r_priority (rs ! i) \<le> r_priority (rs ! j)" if "level_winner L rs u j" for j
    using i that by (simp add: lowest_winner_def level_winner_def)
  have "Some i = find (routed L rs u) [0..<length rs] \<longleftrightarrow> routed L rs u i"
    unfolding eq_commute [of "Some i"] using find_routed by (auto simp: find_Some_iff)
  also have "\<dots> \<longleftrightarrow> (\<forall>i j. level_winner L rs u i \<and> level_winner L rs u j
      \<and> r_priority (rs ! i) < r_priority (rs ! j) \<longrightarrow> r_spread (rs ! j))"
    unfolding routed_lowest_iff [OF i]
    using low i order_le_less_trans unfolding lowest_winner_def by blast
  finally show ?thesis
    by (simp add: explain_final_lowest [OF covers_candidate_order [OF assms]] find_lowest [OF i])
qed

definition stop_rules :: "unit rule list" where
  "stop_rules = [sample_rule (host_is ''a.io'') (ActPlugin ''p'') HIGH False,
                 sample_rule (host_is ''a.io'') ActDirect LOW False]"

lemma sample_host_normal: "normalize_host ''a.io'' = Ok ''a.io''"
  by (rule normalize_host_id) (simp add: bare_host_def is_ascii_uppercase_def, code_simp)

lemma sample_rule_prio: "r_priority (sample_rule m a p s) = p"
  by (simp add: sample_rule_def)

lemma sample_host_matches:
  "rule_matches sample_lib (sample_rule (host_is ''a.io'') a p s) (sample_url ''a.io'' path)"
  by (simp add: rule_matches_iff explain_with_lookup_def sample_rule_def host_is_def host_matched_iff
      explain_common_iff sample_url_def sample_host_normal)

lemma stop_rules_ok:
  "\<forall>r \<in> set stop_rules. matcher_ok u (r_matcher r)"
  "starts_with (url_path (sample_url ''a.io'' ''/'')) ''/''"
  by (simp_all add: stop_rules_def sample_rule_def matcher_ok_def host_is_def sample_url_def starts_with_def)

lemma stop_rules_level:
  "level_winner sample_lib stop_rules (sample_url ''a.io'' ''/'') i \<longleftrightarrow> i = 0 \<or> i = 1"
  using sample_host_matches by (auto simp: level_winner_def stop_rules_def less_Suc_eq priority_consts
      sample_rule_prio)

lemma stop_rules_winners:
  "routed sample_lib stop_rules (sample_url ''a.io'' ''/'') 0"
  "lowest_winner sample_lib stop_rules (sample_url ''a.io'' ''/'') 1"
  by (auto simp: routed_def lowest_winner_def stop_rules_level)
     (auto simp: stop_rules_def sample_rule_def less_rule_priority_def less_eq_rule_priority_def
       priority_consts)

theorem explain_agrees_iff_witness:
  "map_option rew_rule_index (ret_final_match
       (explain sample_lib (rule_set_new stop_rules) (sample_url ''a.io'' ''/'')))
     \<noteq> find (routed sample_lib stop_rules (sample_url ''a.io'' ''/'')) [0..<length stop_rules]"
proof -
  have "r_priority (stop_rules ! 1) < r_priority (stop_rules ! 0)" "\<not> r_spread (stop_rules ! 0)"
    by (simp_all add: stop_rules_def sample_rule_def less_rule_priority_def priority_consts)
  with explain_agrees_iff [OF sample_lib_contains_law stop_rules_ok] stop_rules_level show ?thesis
    by blast
qed

text \<open>
  A request the rule set routes to its first rule, whose level stops the propagation, is
  explained as matched by the second rule.
\<close>

theorem explain_reports_unreached_rule:
  "map_option mr_rule (resolve sample_lib (rule_set_new stop_rules) (sample_url ''a.io'' ''/''))
      = Some (stop_rules ! 0)
   \<and> map_option rew_rule_index (ret_final_match
        (explain sample_lib (rule_set_new stop_rules) (sample_url ''a.io'' ''/''))) = Some 1"
proof -
  note hyps = sample_lib_contains_law stop_rules_ok
  show ?thesis using stop_rules_winners
    by (simp add: resolve_new_eq_spec [OF hyps] explain_final_lowest [OF covers_candidate_order [OF hyps]]
        find_lowest spec_routed mk_matched_def)
qed

text \<open>
  The hosts the DNS hijack captures: those whose normal form some rule with an action other than
  \<^verbatim>\<open>direct\<close> names, as the host of its URL, as one of its hosts or under its suffix.
\<close>

theorem matches_dns_host_iff:
  "matches_dns_host (rule_set_new rs) host \<longleftrightarrow>
     (\<exists>h. normalize_host host = Ok h \<and> (\<exists>r \<in> set rs. dns_claims r h))"
  by (rule matches_dns_host_new)

text \<open>
  C4. Nothing that a rule would route escapes the hijack: when the rule set resolves a URL to a rule
  with an action other than \<^verbatim>\<open>direct\<close> that is not keyed by IP, the host of the URL is captured.
\<close>

theorem resolved_host_is_captured:
  assumes "ipnet_contains_law L"
    and "\<forall>r \<in> set rs. matcher_ok u (r_matcher r)"
    and "starts_with (url_path u) ''/''"
    and "resolve L (rule_set_new rs) u = Some m"
    and "r_action (mr_rule m) \<noteq> ActDirect" "\<forall>im. r_matcher (mr_rule m) \<noteq> IpM im"
    and "url_host_str u = Some host" "normalize_host host = Ok h"
  shows "matches_dns_host (rule_set_new rs) host"
proof -
  have "resolve_spec L rs u = Some m" using resolve_new_eq_spec [OF assms(1-3)] assms(4) by simp
  then obtain i where i: "routed L rs u i" "matched_at L rs u i = Some m"
    by (auto simp: resolve_spec_def bind_eq_Some_conv find_Some_iff)
  then have "mr_rule m = rs ! i" "i < length rs" "rule_matches L (rs ! i) u"
    by (auto simp: matched_at_def routed_def level_winner_def)
  with assms have "dns_claims (rs ! i) h" by (intro rule_matches_claims) auto
  with \<open>i < length rs\<close> assms(8) show ?thesis by (auto simp: matches_dns_host_new)
qed

theorem resolved_host_is_captured_witness:
  "matches_dns_host (rule_set_new stop_rules) ''a.io''"
proof (rule resolved_host_is_captured)
  let ?u = "sample_url ''a.io'' ''/''"
  show "ipnet_contains_law sample_lib" by (rule sample_lib_contains_law)
  show ok: "\<forall>r \<in> set stop_rules. matcher_ok ?u (r_matcher r)" "starts_with (url_path ?u) ''/''"
    by (rule stop_rules_ok)+
  show "resolve sample_lib (rule_set_new stop_rules) ?u = Some (mk_matched sample_lib stop_rules ?u 0)"
    by (simp add: resolve_new_eq_spec [OF sample_lib_contains_law ok] spec_routed stop_rules_winners)
  show "r_action (mr_rule (mk_matched sample_lib stop_rules ?u 0)) \<noteq> ActDirect"
    "\<forall>im. r_matcher (mr_rule (mk_matched sample_lib stop_rules ?u 0)) \<noteq> IpM im"
    by (simp_all add: mk_matched_def stop_rules_def sample_rule_def host_is_def)
  show "url_host_str ?u = Some ''a.io''" by (simp add: sample_url_def)
  show "normalize_host ''a.io'' = Ok ''a.io''" by (rule sample_host_normal)
qed

text \<open>
  A prefix rule sends the request to the path under its upstream: the request path is the path of
  the rule followed by the remainder, and the resolved upstream URL is the configured one with
  the remainder joined to its path, the query of the request and no fragment.
\<close>

theorem prefix_rule_rewrites_path:
  assumes "r_matcher r = PrefixUrl origin" "r_action r = ActMirror up"
    and "starts_with (url_path u) ''/''"
    and "resolve_with_lookup L r u (lookup_from_url u) = Some a"
  shows "\<exists>rest. url_path u = url_path origin @ rest
    \<and> a = ResMirror (up\<lparr>up_url := url_set_fragment L (url_set_query L
           (url_set_path L (up_url up) (join_paths (url_path (up_url up)) rest)) (url_query u)) None\<rparr>)
    \<and> under_prefix (join_paths (url_path (up_url up)) rest)
           (trim_end_matches CHR ''/'' (url_path (up_url up)))"
proof -
  from assms have pre: "path_has_prefix (url_path u) (url_path origin)"
    and a: "a = ResMirror (resolve_mirror_upstream L up u (Some (unwrap_or [] (opt_or_else
        (strip_prefix (url_path u) (url_path origin)) (strip_prefix (url_path u) ''/'')))))"
    by (auto simp: resolve_with_lookup_def explain_with_lookup_def resolve_action_def
        split: if_splits)
  from pre assms(3) have "prefix (url_path origin) (url_path u)"
    by (auto simp: path_has_prefix_iff under_prefix_def starts_with_def)
  then obtain rest where rest: "url_path u = url_path origin @ rest" by (auto simp: prefix_def)
  then show ?thesis using a
    by (intro exI [of _ rest])
       (simp add: strip_prefix_def resolve_mirror_upstream_def Let_def join_paths_under)
qed

definition sample_mirror :: "unit rule" where
  "sample_mirror = sample_rule (PrefixUrl (sample_url ''a.io'' ''/x''))
     (ActMirror (upstream_direct (sample_url ''b.io'' ''/m/''))) HIGH False"

theorem prefix_rule_rewrites_path_witness:
  "\<exists>rest. url_path (sample_url ''a.io'' ''/x/y'') = url_path (sample_url ''a.io'' ''/x'') @ rest
     \<and> the (resolve_with_lookup sample_lib sample_mirror (sample_url ''a.io'' ''/x/y'')
          (lookup_from_url (sample_url ''a.io'' ''/x/y''))) = ResMirror (upstream_direct (sample_url ''b.io'' ''/m/'')
       \<lparr>up_url := url_set_fragment sample_lib (url_set_query sample_lib (url_set_path sample_lib
          (up_url (upstream_direct (sample_url ''b.io'' ''/m/'')))
          (join_paths (url_path (up_url (upstream_direct (sample_url ''b.io'' ''/m/'')))) rest))
          (url_query (sample_url ''a.io'' ''/x/y''))) None\<rparr>)
     \<and> under_prefix (join_paths (url_path (up_url (upstream_direct (sample_url ''b.io'' ''/m/'')))) rest)
          (trim_end_matches CHR ''/'' (url_path (up_url (upstream_direct (sample_url ''b.io'' ''/m/'')))))"
  by (rule prefix_rule_rewrites_path [where r = sample_mirror])
     (simp_all add: sample_mirror_def sample_rule_def resolve_with_lookup_def explain_with_lookup_def
       same_origin_def path_has_prefix_def sample_url_def starts_with_def ends_with_def byte_at_def)

text \<open>
  An IPv6 address is in brackets in the host of a URL, and the bracketed form does not parse as
  an address: no \<^verbatim>\<open>ip\<close> or \<^verbatim>\<open>ip_cidr\<close> rule ever matches an IPv6 URL.
\<close>

theorem ip_rules_miss_ipv6_urls:
  assumes "r_matcher r = IpM im" "url_host_str u = Some (''['' @ host @ '']'')"
  shows "\<not> rule_matches L r u"
  using assms by (simp add: rule_matches_iff explain_with_lookup_def ip_matched_iff parse_host_ip_def
      parse_ip_addr_bracket starts_with_def)

theorem ip_rules_miss_ipv6_urls_witness:
  "\<not> rule_matches sample_lib
      (sample_rule (IpM \<lparr>im_pattern = IpExact (V6 1), im_scheme = None, im_port = None,
         im_path_prefix = None\<rparr>) ActDirect HIGH False)
      (sample_url ''[::1]'' ''/'')"
  by (rule ip_rules_miss_ipv6_urls [where host = "''::1''"])
     (simp_all add: sample_rule_def sample_url_def)

end
