(* ===== verification/Rule_Compile.thy ===== *)
theory Rule_Compile
  imports Rule_Resolution
begin

text \<open>
  Compilation of configured rules into rule sets: \<^verbatim>\<open>src/src/rules/compile.rs\<close>. Each \<^verbatim>\<open>try_from\<close>
  is a function into \<open>rule_error + _\<close>. What the crates \<^verbatim>\<open>http\<close>, \<^verbatim>\<open>serde_json\<close>,
  \<^verbatim>\<open>base64\<close>, \<^verbatim>\<open>mime_guess\<close> and the file system provide are the fields of \<open>compile_env\<close>.
\<close>

section \<open>Definitions\<close>

text \<open>
  The two \<^verbatim>\<open>expect("validated by ...")\<close> calls are branches that return the error of the check that
  makes them unreachable.
\<close>

record ('h, 'j) compile_env =
  ce_lib :: ext_lib
  ce_header_name :: "string \<Rightarrow> string option"
  ce_header_value :: "string \<Rightarrow> string option"
  ce_headers_new :: 'h
  ce_headers_insert :: "string \<Rightarrow> string \<Rightarrow> 'h \<Rightarrow> 'h"
  ce_json_to_vec :: "'j \<Rightarrow> string option"
  ce_base64_decode :: "string \<Rightarrow> string option"
  ce_metadata_is_file :: "string \<Rightarrow> bool option"
  ce_mime_first_raw :: "string \<Rightarrow> string option"

definition count_some :: "bool list \<Rightarrow> nat" where
  "count_some bs = sum_list (map of_bool bs)"

definition compile_matcher :: "ext_lib \<Rightarrow> rule_matcher_schema \<Rightarrow> (rule_error, rule_matcher) result" where
  "compile_matcher L v =
     bind_r (transpose_r normalize_scheme (ms_scheme v)) (\<lambda>scheme.
     bind_r (transpose_r normalize_path_prefix (ms_path_prefix v)) (\<lambda>path_pre.
     bind_r (ensure_r (count_some
         [ms_exact v \<noteq> None, ms_prefix v \<noteq> None, ms_host v \<noteq> None, ms_hosts v \<noteq> None,
          ms_host_suffix v \<noteq> None, ms_ip v \<noteq> None, ms_ip_cidr v \<noteq> None] = 1) MatchNotExactlyOne) (\<lambda>_.
     let host_matcher = (\<lambda>pat. HostM \<lparr>hm_pattern = pat, hm_scheme = scheme, hm_port = ms_port v,
                                      hm_path_prefix = path_pre\<rparr>);
         ip_matcher = (\<lambda>pat. IpM \<lparr>im_pattern = pat, im_scheme = scheme, im_port = ms_port v,
                                  im_path_prefix = path_pre\<rparr>);
         alone = (scheme = None \<and> ms_port v = None \<and> path_pre = None)
     in case ms_exact v of
          Some origin \<Rightarrow>
            bind_r (ensure_r alone ExactCombined) (\<lambda>_.
            bind_r (ok_or (BadExactUrl origin) (url_parse L origin)) (\<lambda>u. Ok (ExactUrl u)))
        | None \<Rightarrow>
       (case ms_prefix v of
          Some origin \<Rightarrow>
            bind_r (ensure_r alone PrefixCombined) (\<lambda>_.
            bind_r (ok_or (BadPrefixUrl origin) (url_parse L origin)) (\<lambda>u. Ok (PrefixUrl u)))
        | None \<Rightarrow>
       (case ms_host v of
          Some host \<Rightarrow> bind_r (normalize_host host) (\<lambda>h. Ok (host_matcher (HostExact h)))
        | None \<Rightarrow>
       (case ms_hosts v of
          Some hosts \<Rightarrow>
            bind_r (ensure_r (hosts \<noteq> []) HostsEmpty) (\<lambda>_.
            bind_r (collect_r normalize_host hosts) (\<lambda>hs. Ok (host_matcher (HostAnyOf hs))))
        | None \<Rightarrow>
       (case ms_ip v of
          Some ip \<Rightarrow> Ok (ip_matcher (IpExact ip))
        | None \<Rightarrow>
       (case ms_ip_cidr v of
          Some cidr \<Rightarrow>
            bind_r (ok_or (BadIpCidr cidr) (ipnet_parse L cidr)) (\<lambda>n. Ok (ip_matcher (IpCidr n)))
        | None \<Rightarrow>
       (case ms_host_suffix v of
          Some suf \<Rightarrow> bind_r (normalize_host_suffix suf) (\<lambda>s. Ok (host_matcher (HostSuffix s)))
        | None \<Rightarrow> Err MatchNotExactlyOne)))))))))"

definition compile_dns_plan :: "dns_plan_schema \<Rightarrow> (rule_error, dns_plan) result" where
  "compile_dns_plan v =
     (let plan = \<lparr>dp_mode = ds_mode v, dp_server = filter_opt (\<lambda>s. s \<noteq> []) (ds_server v)\<rparr>
      in bind_r (case dp_mode plan of
                   DnsSystem \<Rightarrow> ensure_r (dp_server plan = None) DnsServerForbidden
                 | _ \<Rightarrow> ensure_r (dp_server plan \<noteq> None) DnsServerRequired) (\<lambda>_. Ok plan))"

definition validate_upstream :: "upstream_plan \<Rightarrow> (rule_error, unit) result" where
  "validate_upstream p =
     bind_r (ensure_r (\<not> (up_connect_host p \<noteq> None \<and> up_connect_ip p \<noteq> None)) ConnectHostAndIp) (\<lambda>_.
     bind_r (ensure_r (\<not> (up_connect_ip p \<noteq> None \<and> up_dns p \<noteq> None)) DnsWithConnectIp) (\<lambda>_. Ok ()))"

definition compile_upstream :: "ext_lib \<Rightarrow> upstream_plan_schema \<Rightarrow> (rule_error, upstream_plan) result" where
  "compile_upstream L v =
     bind_r (ok_or (BadUpstreamUrl (us_url v)) (url_parse L (us_url v))) (\<lambda>u.
     bind_r (transpose_r compile_dns_plan (us_dns v)) (\<lambda>dns.
     let plan = \<lparr>up_url = u,
                 up_sni = filter_opt (\<lambda>s. s \<noteq> []) (us_sni v),
                 up_host = filter_opt (\<lambda>s. s \<noteq> []) (us_host v),
                 up_connect_host = filter_opt (\<lambda>s. s \<noteq> []) (us_connect_host v),
                 up_connect_ip = us_connect_ip v,
                 up_dns = dns\<rparr>
     in bind_r (validate_upstream plan) (\<lambda>_. Ok plan)))"

record compiled_respond_body =
  crb_source :: respond_body_source
  crb_default_content_type :: "string option"

definition compile_respond_body ::
  "('h, 'j) compile_env \<Rightarrow> 'j respond_body_schema option \<Rightarrow> (rule_error, compiled_respond_body) result" where
  "compile_respond_body E body =
     (case body of
        None \<Rightarrow> Ok \<lparr>crb_source = BodyInline [], crb_default_content_type = None\<rparr>
      | Some b \<Rightarrow>
          bind_r (ensure_r (count_some [bs_text b \<noteq> None, bs_json b \<noteq> None, bs_base64 b \<noteq> None,
              bs_file b \<noteq> None] = 1) BodyNotExactlyOne) (\<lambda>_.
          case bs_text b of
            Some text \<Rightarrow>
              Ok \<lparr>crb_source = BodyInline text,
                  crb_default_content_type = Some ''text/plain; charset=utf-8''\<rparr>
          | None \<Rightarrow>
         (case bs_json b of
            Some json \<Rightarrow>
              bind_r (ok_or JsonSerialize (ce_json_to_vec E json)) (\<lambda>bytes.
              Ok \<lparr>crb_source = BodyInline bytes, crb_default_content_type = Some ''application/json''\<rparr>)
          | None \<Rightarrow>
         (case bs_file b of
            Some file \<Rightarrow>
              (let path = trim file
               in bind_r (ensure_r (path \<noteq> []) BodyFileEmpty) (\<lambda>_.
                  bind_r (ok_or (BodyFileUnreadable path) (ce_metadata_is_file E path)) (\<lambda>is_file.
                  bind_r (ensure_r is_file (BodyFileNotRegular path)) (\<lambda>_.
                  Ok \<lparr>crb_source = BodyFile path, crb_default_content_type = ce_mime_first_raw E path\<rparr>))))
          | None \<Rightarrow>
         (case bs_base64 b of
            Some encoded \<Rightarrow>
              bind_r (ok_or BadBase64 (ce_base64_decode E encoded)) (\<lambda>decoded.
              Ok \<lparr>crb_source = BodyInline decoded,
                  crb_default_content_type = Some ''application/octet-stream''\<rparr>)
          | None \<Rightarrow> Err BodyNotExactlyOne)))))"

definition CONTENT_LENGTH :: string where "CONTENT_LENGTH = ''content-length''"
definition CONTENT_TYPE :: string where "CONTENT_TYPE = ''content-type''"

fun compile_respond_headers ::
  "('h, 'j) compile_env \<Rightarrow> (string \<times> string) list \<Rightarrow> 'h \<Rightarrow> (rule_error, 'h) result" where
  "compile_respond_headers E [] hs = Ok hs"
| "compile_respond_headers E ((name, value) # rest) hs =
     bind_r (ok_or (BadHeaderName name) (ce_header_name E name)) (\<lambda>n.
     bind_r (ensure_r (n \<noteq> CONTENT_LENGTH) HeaderContentLength) (\<lambda>_.
     bind_r (ensure_r (n \<noteq> CONTENT_TYPE) HeaderContentType) (\<lambda>_.
     bind_r (ok_or (BadHeaderValue n) (ce_header_value E value)) (\<lambda>v.
     compile_respond_headers E rest (ce_headers_insert E n v hs)))))"

definition valid_status :: "u16 \<Rightarrow> bool" where
  "valid_status s = (100 \<le> s \<and> s \<le> 599)"

definition compile_respond_action ::
  "('h, 'j) compile_env \<Rightarrow> u16 option \<Rightarrow> (string \<times> string) list \<Rightarrow> string option \<Rightarrow>
     'j respond_body_schema option \<Rightarrow> (rule_error, 'h respond_rule_action) result" where
  "compile_respond_action E status headers content_type body =
     (let status = unwrap_or 200 status
      in bind_r (ensure_r (valid_status status) (RespondStatus status)) (\<lambda>_.
         bind_r (compile_respond_headers E headers (ce_headers_new E)) (\<lambda>hs.
         bind_r (compile_respond_body E body) (\<lambda>cb.
         bind_r (case content_type of
                   Some ct \<Rightarrow>
                     (let trimmed = trim ct
                      in bind_r (ensure_r (trimmed \<noteq> []) ContentTypeEmpty) (\<lambda>_.
                         bind_r (ok_or (BadContentType trimmed) (ce_header_value E trimmed)) (\<lambda>v.
                         Ok (ce_headers_insert E CONTENT_TYPE v hs))))
                 | None \<Rightarrow>
                     Ok (case crb_default_content_type cb of
                           Some ct \<Rightarrow> ce_headers_insert E CONTENT_TYPE ct hs
                         | None \<Rightarrow> hs)) (\<lambda>hs.
         Ok \<lparr>resp_status = status, resp_headers = hs, resp_body = crb_source cb\<rparr>)))))"

definition compile_action ::
  "('h, 'j) compile_env \<Rightarrow> 'j rule_action_schema \<Rightarrow> (rule_error, 'h rule_action) result" where
  "compile_action E v =
     (case v of
        SMirror upstream \<Rightarrow> bind_r (compile_upstream (ce_lib E) upstream) (\<lambda>p. Ok (ActMirror p))
      | SDirect \<Rightarrow> Ok ActDirect
      | SRespond status headers content_type body \<Rightarrow>
          bind_r (compile_respond_action E status (unwrap_or [] headers) content_type body)
            (\<lambda>a. Ok (ActRespond a))
      | SPlugin name \<Rightarrow>
          bind_r (ensure_r (trim name \<noteq> []) PluginNameEmpty) (\<lambda>_. Ok (ActPlugin name))
      | SReject status message \<Rightarrow>
          (let status = unwrap_or 403 status
           in bind_r (ensure_r (valid_status status) (RejectStatus status)) (\<lambda>_.
              let message = trim (unwrap_or ''request rejected by rule'' message)
              in bind_r (ensure_r (message \<noteq> []) RejectMessageEmpty) (\<lambda>_.
                 Ok (ActReject \<lparr>rej_status = status, rej_message = message\<rparr>)))))"

definition validate_matcher_action :: "rule_matcher \<Rightarrow> 'h rule_action \<Rightarrow> (rule_error, unit) result" where
  "validate_matcher_action m a =
     bind_r (case (m, a) of
               (PrefixUrl origin, ActMirror up) \<Rightarrow>
                 ensure_r (url_query origin = None \<and> url_query (up_url up) = None)
                   (PrefixQuery origin (up_url up))
             | _ \<Rightarrow> Ok ()) (\<lambda>_.
     bind_r (case (m, a) of
               (HostM hm, ActMirror up) \<Rightarrow>
                 if hm_path_prefix hm \<noteq> None
                 then ensure_r (url_query (up_url up) = None) (HostPrefixQuery (up_url up))
                 else Ok ()
             | _ \<Rightarrow> Ok ()) (\<lambda>_.
     bind_r (case (m, a) of
               (IpM im, ActMirror up) \<Rightarrow>
                 if im_path_prefix im \<noteq> None
                 then ensure_r (url_query (up_url up) = None) (IpPrefixQuery (up_url up))
                 else Ok ()
             | _ \<Rightarrow> Ok ()) (\<lambda>_. Ok ())))"

definition compile_rule_schema :: "('h, 'j) compile_env \<Rightarrow> 'j rule_schema \<Rightarrow> (rule_error, 'h rule) result" where
  "compile_rule_schema E v =
     bind_r (compile_matcher (ce_lib E) (rs_matcher v)) (\<lambda>m.
     bind_r (compile_action E (rs_action v)) (\<lambda>a.
     bind_r (validate_matcher_action m a) (\<lambda>_.
     Ok \<lparr>r_kind = matcher_kind m, r_matcher = m, r_action = a,
         r_priority = unwrap_or MEDIUM (map_option into_priority (rs_priority v)),
         r_spread = unwrap_or False (rs_spread v)\<rparr>)))"

definition compile_rule_set :: "('h, 'j) compile_env \<Rightarrow> 'j rule_schema list \<Rightarrow> (rule_error, 'h rule_set) result" where
  "compile_rule_set E v = bind_r (collect_r (compile_rule_schema E) v) (\<lambda>entries. Ok (rule_set_new entries))"

section \<open>Well-formed rules\<close>

definition common_wf :: "string option \<Rightarrow> string option \<Rightarrow> bool" where
  "common_wf scheme path_pre \<longleftrightarrow> scheme \<in> {None, Some ''http'', Some ''https''}
     \<and> (\<forall>p. path_pre = Some p \<longrightarrow> starts_with p ''/'')"

definition matcher_wf :: "rule_matcher \<Rightarrow> bool" where
  "matcher_wf m =
     (case m of
        HostM hm \<Rightarrow> common_wf (hm_scheme hm) (hm_path_prefix hm) \<and>
          (case hm_pattern hm of
             HostExact h \<Rightarrow> bare_host h
           | HostAnyOf hs \<Rightarrow> hs \<noteq> [] \<and> (\<forall>h \<in> set hs. bare_host h)
           | HostSuffix h \<Rightarrow> bare_host h)
      | IpM im \<Rightarrow> common_wf (im_scheme im) (im_path_prefix im)
      | _ \<Rightarrow> True)"

definition upstream_wf :: "upstream_plan \<Rightarrow> bool" where
  "upstream_wf p \<longleftrightarrow>
     up_sni p \<noteq> Some [] \<and> up_host p \<noteq> Some [] \<and> up_connect_host p \<noteq> Some []
     \<and> (up_connect_ip p = None \<or> up_connect_host p = None \<and> up_dns p = None)
     \<and> (\<forall>d. up_dns p = Some d \<longrightarrow> (dp_mode d = DnsSystem \<longleftrightarrow> dp_server d = None) \<and> dp_server d \<noteq> Some [])"

definition action_wf :: "'h rule_action \<Rightarrow> bool" where
  "action_wf a =
     (case a of
        ActMirror p \<Rightarrow> upstream_wf p
      | ActDirect \<Rightarrow> True
      | ActRespond r \<Rightarrow> valid_status (resp_status r)
      | ActPlugin n \<Rightarrow> trim n \<noteq> []
      | ActReject r \<Rightarrow> valid_status (rej_status r) \<and> rej_message r \<noteq> [] \<and> trim (rej_message r) = rej_message r)"

definition rewrites_path :: "rule_matcher \<Rightarrow> bool" where
  "rewrites_path m =
     (case m of
        PrefixUrl _ \<Rightarrow> True
      | HostM hm \<Rightarrow> hm_path_prefix hm \<noteq> None
      | IpM im \<Rightarrow> im_path_prefix im \<noteq> None
      | ExactUrl _ \<Rightarrow> False)"

definition rule_wf :: "'h rule \<Rightarrow> bool" where
  "rule_wf r \<longleftrightarrow> r_kind r = matcher_kind (r_matcher r) \<and> matcher_wf (r_matcher r) \<and> action_wf (r_action r)
     \<and> (\<forall>up. r_action r = ActMirror up \<and> rewrites_path (r_matcher r) \<longrightarrow> url_query (up_url up) = None)"

lemma normalize_scheme_wf: "transpose_r normalize_scheme s = Inr s' \<Longrightarrow> s' \<in> {None, Some ''http'', Some ''https''}"
  by (auto simp: result_simps normalize_scheme_def split: option.splits if_splits)

lemma normalize_path_prefix_wf:
  "transpose_r normalize_path_prefix p = Inr p' \<Longrightarrow> p' = Some q \<Longrightarrow> starts_with q ''/''"
  by (auto simp: result_simps normalize_path_prefix_def split: option.splits)

text \<open>One case per key of the matcher table.\<close>

lemma compile_matcher_cases:
  assumes "compile_matcher L v = Inr m"
  obtains (exact) o' u where "ms_exact v = Some o'" "url_parse L o' = Some u" "m = ExactUrl u"
  | (prefix) o' u where "ms_prefix v = Some o'" "url_parse L o' = Some u" "m = PrefixUrl u"
  | (host) sc pp h h' where "ms_host v = Some h" "normalize_host h = Inr h'" "common_wf sc pp"
      "m = HostM \<lparr>hm_pattern = HostExact h', hm_scheme = sc, hm_port = ms_port v, hm_path_prefix = pp\<rparr>"
  | (hosts) sc pp hs hs' where "ms_hosts v = Some hs" "hs \<noteq> []"
      "list_all2 (\<lambda>h h'. normalize_host h = Inr h') hs hs'" "common_wf sc pp"
      "m = HostM \<lparr>hm_pattern = HostAnyOf hs', hm_scheme = sc, hm_port = ms_port v, hm_path_prefix = pp\<rparr>"
  | (ip) sc pp a where "ms_ip v = Some a" "common_wf sc pp"
      "m = IpM \<lparr>im_pattern = IpExact a, im_scheme = sc, im_port = ms_port v, im_path_prefix = pp\<rparr>"
  | (cidr) sc pp c n where "ms_ip_cidr v = Some c" "ipnet_parse L c = Some n" "common_wf sc pp"
      "m = IpM \<lparr>im_pattern = IpCidr n, im_scheme = sc, im_port = ms_port v, im_path_prefix = pp\<rparr>"
  | (suffix) sc pp s s' where "ms_host_suffix v = Some s" "normalize_host_suffix s = Inr s'" "common_wf sc pp"
      "m = HostM \<lparr>hm_pattern = HostSuffix s', hm_scheme = sc, hm_port = ms_port v, hm_path_prefix = pp\<rparr>"
proof -
  from assms obtain sc pp where sp: "transpose_r normalize_scheme (ms_scheme v) = Inr sc"
    "transpose_r normalize_path_prefix (ms_path_prefix v) = Inr pp"
    by (auto simp: compile_matcher_def bind_r_Ok_iff)
  have "common_wf sc pp"
    using normalize_scheme_wf [OF sp(1)] normalize_path_prefix_wf [OF sp(2)] by (auto simp: common_wf_def)
  with assms show thesis
    by (auto simp: compile_matcher_def sp bind_r_Ok_iff ok_or_Ok_iff collect_r_Ok_iff Let_def
        split: option.splits intro: that)
qed

lemma compile_matcher_wf: "compile_matcher L v = Inr m \<Longrightarrow> matcher_wf m"
  by (erule compile_matcher_cases)
     (auto simp: matcher_wf_def normalize_host_bare normalize_host_suffix_bare list_all2_conv_all_nth
       set_conv_nth)

lemma compile_dns_plan_wf:
  "compile_dns_plan s = Inr d \<Longrightarrow>
     (dp_mode d = DnsSystem \<longleftrightarrow> dp_server d = None) \<and> dp_server d \<noteq> Some []"
  by (auto simp: compile_dns_plan_def Let_def bind_r_Ok_iff filter_opt_def
      split: dns_mode.splits option.splits if_splits)

lemma filter_nonempty [simp]: "filter_opt (\<lambda>s. s \<noteq> []) x \<noteq> Some []"
  by (simp add: filter_opt_Some_iff)

lemma validate_upstream_iff:
  "validate_upstream p = Inr x \<longleftrightarrow> up_connect_ip p = None \<or> up_connect_host p = None \<and> up_dns p = None"
  by (auto simp: validate_upstream_def bind_r_Ok_iff)

lemma compile_upstream_wf:
  assumes "compile_upstream L v = Inr p"
  shows "upstream_wf p"
proof -
  from assms obtain u dns where "transpose_r compile_dns_plan (us_dns v) = Inr dns"
    and p: "p = \<lparr>up_url = u, up_sni = filter_opt (\<lambda>s. s \<noteq> []) (us_sni v),
                 up_host = filter_opt (\<lambda>s. s \<noteq> []) (us_host v),
                 up_connect_host = filter_opt (\<lambda>s. s \<noteq> []) (us_connect_host v),
                 up_connect_ip = us_connect_ip v, up_dns = dns\<rparr>" "validate_upstream p = Inr ()"
    unfolding compile_upstream_def Let_def bind_r_Ok_iff by fastforce
  then have "(dp_mode d = DnsSystem \<longleftrightarrow> dp_server d = None) \<and> dp_server d \<noteq> Some []"
    if "dns = Some d" for d
    using that compile_dns_plan_wf by (auto simp: transpose_r_Ok_iff split: option.splits)
  with p show ?thesis by (simp add: upstream_wf_def validate_upstream_iff)
qed

lemma compile_respond_status: "compile_respond_action E st hs ct b = Inr r \<Longrightarrow> valid_status (resp_status r)"
  by (auto simp: compile_respond_action_def Let_def bind_r_Ok_iff)

lemma compile_action_wf: "compile_action E v = Inr a \<Longrightarrow> action_wf a"
  by (auto simp: compile_action_def action_wf_def Let_def bind_r_Ok_iff compile_upstream_wf
      compile_respond_status split: rule_action_schema.splits)

lemma validate_matcher_action_iff:
  "validate_matcher_action m a = Inr () \<longleftrightarrow>
     (\<forall>up. a = ActMirror up \<and> rewrites_path m \<longrightarrow> url_query (up_url up) = None)
     \<and> (\<forall>o' up. m = PrefixUrl o' \<and> a = ActMirror up \<longrightarrow> url_query o' = None)"
  by (cases m; cases a) (auto simp: validate_matcher_action_def rewrites_path_def bind_r_Ok_iff)

lemma compile_rule_schema_wf:
  assumes "compile_rule_schema E v = Inr r"
  shows "rule_wf r" and "compile_matcher (ce_lib E) (rs_matcher v) = Inr (r_matcher r)"
  using assms by (auto simp: compile_rule_schema_def bind_r_Ok_iff rule_wf_def compile_matcher_wf
      compile_action_wf validate_matcher_action_iff)

lemma compile_rule_set_Ok:
  assumes "compile_rule_set E vs = Inr rset"
  obtains rs where "rset = rule_set_new rs" "length rs = length vs"
    "\<And>r. r \<in> set rs \<Longrightarrow> \<exists>v. compile_rule_schema E v = Inr r"
proof -
  from assms obtain rs where rs: "rset = rule_set_new rs"
    "list_all2 (\<lambda>v r. compile_rule_schema E v = Inr r) vs rs"
    by (auto simp: compile_rule_set_def bind_r_Ok_iff collect_r_Ok_iff)
  then have "\<exists>v. compile_rule_schema E v = Inr r" if "r \<in> set rs" for r
    using that by (auto simp: list_all2_conv_all_nth in_set_conv_nth)
  with rs show thesis using that by (auto dest: list_all2_lengthD)
qed

section \<open>Properties\<close>

text \<open>
  What the crates promise of parsed values: an \<^verbatim>\<open>http\<close> or \<^verbatim>\<open>https\<close> URL has a path that starts with a
  slash, a parsed network is well-formed.
\<close>

definition url_parse_law :: "ext_lib \<Rightarrow> bool" where
  "url_parse_law L \<longleftrightarrow> (\<forall>s u. url_parse L s = Some u \<longrightarrow> url_scheme u \<in> {''http'', ''https''} \<longrightarrow>
     starts_with (url_path u) ''/'')"

definition ipnet_parse_law :: "ext_lib \<Rightarrow> bool" where
  "ipnet_parse_law L \<longleftrightarrow> (\<forall>s n. ipnet_parse L s = Some n \<longrightarrow> ip_net_ok n)"

definition sample_env :: "(unit, unit) compile_env" where
  "sample_env =
     \<lparr>ce_lib = sample_lib, ce_header_name = Some, ce_header_value = Some, ce_headers_new = (),
      ce_headers_insert = (\<lambda>_ _ _. ()), ce_json_to_vec = (\<lambda>_. Some ''null''), ce_base64_decode = (\<lambda>_. None),
      ce_metadata_is_file = (\<lambda>_. None), ce_mime_first_raw = (\<lambda>_. None)\<rparr>"

definition no_match :: rule_matcher_schema where
  "no_match = \<lparr>ms_exact = None, ms_prefix = None, ms_host = None, ms_hosts = None, ms_host_suffix = None,
     ms_ip = None, ms_ip_cidr = None, ms_scheme = None, ms_port = None, ms_path_prefix = None\<rparr>"

definition sample_schema :: "rule_matcher_schema \<Rightarrow> unit rule_action_schema \<Rightarrow> unit rule_schema" where
  "sample_schema m a = \<lparr>rs_matcher = m, rs_priority = None, rs_spread = None, rs_action = a\<rparr>"

definition sample_config :: "unit rule_schema list" where
  "sample_config =
     [sample_schema (no_match\<lparr>ms_ip_cidr := Some ''10.0.0.0/8''\<rparr>) SDirect,
      sample_schema (no_match\<lparr>ms_prefix := Some ''https://a.io/x''\<rparr>) (SReject None (Some ''no''))]"

definition sample_config_rules :: "unit rule list" where
  "sample_config_rules =
     [sample_rule (IpM \<lparr>im_pattern = IpCidr (NetV4 \<lparr>net4_network = 0x0A000000, net4_prefix_len = 8,
          net4_broadcast = 0x0AFFFFFF\<rparr>), im_scheme = None, im_port = None, im_path_prefix = None\<rparr>)
        ActDirect MEDIUM False,
      sample_rule (PrefixUrl (sample_url ''a.io'' ''/x''))
        (ActReject \<lparr>rej_status = 403, rej_message = ''no''\<rparr>) MEDIUM False]"

lemma trim_no: "trim ''no'' = ''no''"
  by code_simp

lemma sample_parse:
  "url_parse sample_lib ''https://a.io/x'' = Some (sample_url ''a.io'' ''/x'')"
  by (simp add: sample_lib_def strip_prefix_def)

lemma sample_ipnet_parse:
  "ipnet_parse sample_lib ''10.0.0.0/8'' = Some (NetV4 \<lparr>net4_network = 0x0A000000, net4_prefix_len = 8,
     net4_broadcast = 0x0AFFFFFF\<rparr>)"
  by (simp add: sample_lib_def)

lemma sample_matchers:
  "compile_matcher sample_lib (no_match\<lparr>ms_ip_cidr := Some ''10.0.0.0/8''\<rparr>) = Ok (IpM \<lparr>im_pattern =
     IpCidr (NetV4 \<lparr>net4_network = 0x0A000000, net4_prefix_len = 8, net4_broadcast = 0x0AFFFFFF\<rparr>),
     im_scheme = None, im_port = None, im_path_prefix = None\<rparr>)"
  "compile_matcher sample_lib (no_match\<lparr>ms_prefix := Some ''https://a.io/x''\<rparr>) =
     Ok (PrefixUrl (sample_url ''a.io'' ''/x''))"
  by (simp_all add: compile_matcher_def no_match_def count_some_def sample_parse sample_ipnet_parse)

lemma sample_config_compiles: "compile_rule_set sample_env sample_config = Inr (rule_set_new sample_config_rules)"
  by (simp add: compile_rule_set_def sample_config_def compile_rule_schema_def sample_schema_def
      sample_matchers sample_env_def Let_def
      compile_action_def valid_status_def trim_no validate_matcher_action_def
      sample_config_rules_def sample_rule_def)

lemma sample_lib_parse_laws: "url_parse_law sample_lib" "ipnet_parse_law sample_lib"
proof -
  show "url_parse_law sample_lib"
    by (auto simp: url_parse_law_def sample_lib_def sample_url_def starts_with_def)
  show "ipnet_parse_law sample_lib"
    by (simp add: ipnet_parse_law_def sample_lib_def ip_net_ok_def ipv4_net_ok_def take_bit_eq_mod
        mask_eq_exp_minus_1)
qed

text \<open>
  C5. Every rule that compiles is well-formed: the recorded kind is that of the matcher, hosts are bare,
  lower-case and non-empty, schemes are \<^verbatim>\<open>http\<close> or \<^verbatim>\<open>https\<close>, path prefixes are absolute, statuses are
  in range, upstream plans have no contradictory connection options, and a rule that rewrites
  the path mirrors to a URL without a query.
\<close>

theorem compiled_rules_well_formed:
  assumes "compile_rule_set E vs = Ok rset"
  shows "length (rset_entries rset) = length vs \<and> (\<forall>r \<in> set (rset_entries rset). rule_wf r)"
  using assms by (rule compile_rule_set_Ok) (use compile_rule_schema_wf in \<open>fastforce simp: rule_set_new_def\<close>)

theorem compiled_rules_well_formed_witness:
  "length (rset_entries (rule_set_new sample_config_rules)) = length sample_config
     \<and> list_all rule_wf (rset_entries (rule_set_new sample_config_rules))"
  using compiled_rules_well_formed [OF sample_config_compiles] by (simp add: list_all_iff)

text \<open>
  C2. From the configuration to the routing decision: every rule set that compiles resolves an
  \<^verbatim>\<open>http\<close> or \<^verbatim>\<open>https\<close> request as the specification over its rules.
\<close>

theorem compiled_config_resolves_as_specified:
  assumes "compile_rule_set E vs = Ok rset"
    and "ipnet_contains_law (ce_lib E)" "ipnet_parse_law (ce_lib E)" "url_parse_law (ce_lib E)"
    and "url_scheme u \<in> {''http'', ''https''}" "starts_with (url_path u) ''/''"
  shows "resolve (ce_lib E) rset u = resolve_spec (ce_lib E) (rset_entries rset) u"
proof -
  from assms(1) obtain rs where rs: "rset = rule_set_new rs" "length rs = length vs"
    "\<And>r. r \<in> set rs \<Longrightarrow> \<exists>v. compile_rule_schema E v = Inr r" by (rule compile_rule_set_Ok) blast
  have "matcher_ok u (r_matcher r)" if r: "r \<in> set rs" for r
  proof -
    obtain v where "compile_rule_schema E v = Inr r" using rs(3) [OF r] by blast
    then have "compile_matcher (ce_lib E) (rs_matcher v) = Inr (r_matcher r)"
      by (rule compile_rule_schema_wf)
    then show ?thesis using assms
      by (auto elim!: compile_matcher_cases simp: matcher_ok_def url_parse_law_def ipnet_parse_law_def)
  qed
  then show ?thesis using assms resolve_new_eq_spec [of "ce_lib E" rs u] rs(1)
    by (simp add: rule_set_new_def)
qed

theorem compiled_config_resolves_as_specified_witness:
  "resolve (ce_lib sample_env) (rule_set_new sample_config_rules) (sample_url ''a.io'' ''/x/y'') =
     resolve_spec (ce_lib sample_env) (rset_entries (rule_set_new sample_config_rules))
       (sample_url ''a.io'' ''/x/y'')"
  by (rule compiled_config_resolves_as_specified [OF sample_config_compiles])
     (simp_all add: sample_env_def sample_lib_contains_law sample_lib_parse_laws sample_url_def starts_with_def)

text \<open>
  A matcher table compiles only when exactly one of the seven keys is given, and the kind of the
  compiled matcher names that key.
\<close>

theorem matcher_key_determines_kind:
  assumes "compile_matcher L v = Ok m"
  shows "(matcher_kind m = KindExact \<longleftrightarrow> ms_exact v \<noteq> None)
    \<and> (matcher_kind m = KindPrefix \<longleftrightarrow> ms_prefix v \<noteq> None)
    \<and> (matcher_kind m = KindHost \<longleftrightarrow> ms_host v \<noteq> None)
    \<and> (matcher_kind m = KindHosts \<longleftrightarrow> ms_hosts v \<noteq> None)
    \<and> (matcher_kind m = KindHostSuffix \<longleftrightarrow> ms_host_suffix v \<noteq> None)
    \<and> (matcher_kind m = KindIp \<longleftrightarrow> ms_ip v \<noteq> None)
    \<and> (matcher_kind m = KindIpCidr \<longleftrightarrow> ms_ip_cidr v \<noteq> None)"
proof -
  have count: "count_some [ms_exact v \<noteq> None, ms_prefix v \<noteq> None, ms_host v \<noteq> None, ms_hosts v \<noteq> None,
      ms_host_suffix v \<noteq> None, ms_ip v \<noteq> None, ms_ip_cidr v \<noteq> None] = 1"
    using assms by (auto simp: compile_matcher_def bind_r_Ok_iff)
  show ?thesis
    by (rule compile_matcher_cases [OF assms]; use count in \<open>simp add: count_some_def\<close>)
qed

theorem matcher_key_determines_kind_witness:
  "\<exists>m. compile_matcher sample_lib (no_match\<lparr>ms_ip := Some (V4 1)\<rparr>) = Ok m \<and> matcher_kind m = KindIp"
proof -
  have "compile_matcher sample_lib (no_match\<lparr>ms_ip := Some (V4 1)\<rparr>) =
      Ok (IpM \<lparr>im_pattern = IpExact (V4 1), im_scheme = None, im_port = None, im_path_prefix = None\<rparr>)"
    by (simp add: compile_matcher_def no_match_def count_some_def)
  from matcher_key_determines_kind [OF this] this show ?thesis by (simp add: no_match_def)
qed

end
