(* ===== verification/Fake_Ip.thy ===== *)
theory Fake_Ip
  imports Net_Types "HOL-Library.AList"
begin

text \<open>
  The fake-IP store of the DNS hijack: \<^verbatim>\<open>src/src/traffic/shared/dns/fake_ip.rs\<close>. A \<^verbatim>\<open>HashMap\<close> that
  is iterated is an association list with distinct keys, in the order of iteration; \<^verbatim>\<open>Instant\<close> and
  \<^verbatim>\<open>Duration\<close> are numbers of nanoseconds. The \<^verbatim>\<open>Mutex\<close> is the record of its content and its poison
  flag; a method that takes \<^verbatim>\<open>&self\<close> and locks returns the store it leaves behind.

  The search loop over the candidates is a partial function: \<open>None\<close> would be a loop that never ends,
  and the locale \<open>candidate_ring\<close> proves that it does not happen.
\<close>

section \<open>Definitions\<close>

record fake_ipv4_entry =
  fe4_ip :: u32
  fe4_expires_at :: instant

record fake_ipv6_entry =
  fe6_ip :: u128
  fe6_expires_at :: instant

record fake_ip_store_inner =
  fi_domain_to_entry_v4 :: "(string \<times> fake_ipv4_entry) list"
  fi_ip_to_domain_v4 :: "(u32 \<times> string) list"
  fi_next_candidate_v4 :: u32
  fi_fake_ipv4_range :: ipv4_net
  fi_domain_to_entry_v6 :: "(string \<times> fake_ipv6_entry) list"
  fi_ip_to_domain_v6 :: "(u128 \<times> string) list"
  fi_next_candidate_v6 :: u128
  fi_fake_ipv6_range :: ipv6_net

type_synonym fake_ip_store = "fake_ip_store_inner mutex"

datatype fake_ip_error = LockPoisoned | PoolExhaustedV4 ipv4_net | PoolExhaustedV6 ipv6_net

definition normalize_domain :: "string \<Rightarrow> string" where
  "normalize_domain domain = to_ascii_lowercase (trim_end_matches CHR ''.'' domain)"

definition first_usable_ipv4 :: "ipv4_net \<Rightarrow> u32" where
  "first_usable_ipv4 rng = saturating_add (net4_network rng) 1"

definition first_allocatable_ipv4 :: "ipv4_net \<Rightarrow> u32" where
  "first_allocatable_ipv4 rng = saturating_add (first_usable_ipv4 rng) 2"

definition last_usable_ipv4 :: "ipv4_net \<Rightarrow> u32 option" where
  "last_usable_ipv4 rng =
     (if net4_broadcast rng > net4_network rng then Some (net4_broadcast rng - 1) else None)"

definition clamp_ipv4_candidate :: "u32 \<Rightarrow> u32 \<Rightarrow> u32 \<Rightarrow> u32" where
  "clamp_ipv4_candidate candidate lo hi =
     (if candidate < lo \<or> candidate > hi then lo else candidate)"

definition advance_ipv4_candidate :: "u32 \<Rightarrow> u32 \<Rightarrow> u32 \<Rightarrow> u32" where
  "advance_ipv4_candidate candidate lo hi = (if candidate \<ge> hi then lo else candidate + 1)"

definition first_usable_ipv6 :: "ipv6_net \<Rightarrow> u128" where
  "first_usable_ipv6 rng = saturating_add (net6_network rng) 1"

definition first_allocatable_ipv6 :: "ipv6_net \<Rightarrow> u128" where
  "first_allocatable_ipv6 rng = saturating_add (first_usable_ipv6 rng) 2"

definition last_usable_ipv6 :: "ipv6_net \<Rightarrow> u128 option" where
  "last_usable_ipv6 rng =
     (let network = net6_network rng;
          host_bits = 128 - net6_prefix_len rng;
          host_mask = (if host_bits = 0 then 0
                       else if host_bits = 128 then - 1
                       else push_bit host_bits 1 - 1);
          hi = or network host_mask
      in if hi \<ge> first_usable_ipv6 rng then Some hi else None)"

definition clamp_ipv6_candidate :: "u128 \<Rightarrow> u128 \<Rightarrow> u128 \<Rightarrow> u128" where
  "clamp_ipv6_candidate candidate lo hi =
     (if candidate < lo \<or> candidate > hi then lo else candidate)"

definition advance_ipv6_candidate :: "u128 \<Rightarrow> u128 \<Rightarrow> u128 \<Rightarrow> u128" where
  "advance_ipv6_candidate candidate lo hi = (if candidate \<ge> hi then lo else candidate + 1)"

definition fake_ip_store_new :: "ipv4_net \<Rightarrow> ipv6_net \<Rightarrow> fake_ip_store" where
  "fake_ip_store_new rng4 rng6 =
     \<lparr>mx_poisoned = False,
      mx_value =
        \<lparr>fi_domain_to_entry_v4 = [], fi_ip_to_domain_v4 = [],
         fi_next_candidate_v4 = first_allocatable_ipv4 rng4, fi_fake_ipv4_range = rng4,
         fi_domain_to_entry_v6 = [], fi_ip_to_domain_v6 = [],
         fi_next_candidate_v6 = first_allocatable_ipv6 rng6, fi_fake_ipv6_range = rng6\<rparr>\<rparr>"

partial_function (option) allocate_loop_v4 ::
  "(u32 \<times> string) list \<Rightarrow> u32 \<Rightarrow> u32 \<Rightarrow> u32 \<Rightarrow> u32 \<Rightarrow> u32 option option" where
  "allocate_loop_v4 taken lo hi start candidate =
     (if map_of taken candidate = None then Some (Some candidate)
      else let candidate = advance_ipv4_candidate candidate lo hi
           in if candidate = start then Some None
              else allocate_loop_v4 taken lo hi start candidate)"

definition allocate_next_ipv4 :: "fake_ip_store_inner \<Rightarrow> u32 option \<times> fake_ip_store_inner" where
  "allocate_next_ipv4 inner =
     (let lo = first_allocatable_ipv4 (fi_fake_ipv4_range inner)
      in case last_usable_ipv4 (fi_fake_ipv4_range inner) of
           None \<Rightarrow> (None, inner)
         | Some hi \<Rightarrow>
             if lo > hi then (None, inner)
             else (let start = clamp_ipv4_candidate (fi_next_candidate_v4 inner) lo hi
                   in case allocate_loop_v4 (fi_ip_to_domain_v4 inner) lo hi start start of
                        Some (Some candidate) \<Rightarrow>
                          (Some candidate,
                           inner\<lparr>fi_next_candidate_v4 := advance_ipv4_candidate candidate lo hi\<rparr>)
                      | _ \<Rightarrow> (None, inner)))"

partial_function (option) allocate_loop_v6 ::
  "(u128 \<times> string) list \<Rightarrow> u128 \<Rightarrow> u128 \<Rightarrow> u128 \<Rightarrow> u128 \<Rightarrow> u128 option option" where
  "allocate_loop_v6 taken lo hi start candidate =
     (if map_of taken candidate = None then Some (Some candidate)
      else let candidate = advance_ipv6_candidate candidate lo hi
           in if candidate = start then Some None
              else allocate_loop_v6 taken lo hi start candidate)"

definition allocate_next_ipv6 :: "fake_ip_store_inner \<Rightarrow> u128 option \<times> fake_ip_store_inner" where
  "allocate_next_ipv6 inner =
     (let lo = first_allocatable_ipv6 (fi_fake_ipv6_range inner)
      in case last_usable_ipv6 (fi_fake_ipv6_range inner) of
           None \<Rightarrow> (None, inner)
         | Some hi \<Rightarrow>
             if lo > hi then (None, inner)
             else (let start = clamp_ipv6_candidate (fi_next_candidate_v6 inner) lo hi
                   in case allocate_loop_v6 (fi_ip_to_domain_v6 inner) lo hi start start of
                        Some (Some candidate) \<Rightarrow>
                          (Some candidate,
                           inner\<lparr>fi_next_candidate_v6 := advance_ipv6_candidate candidate lo hi\<rparr>)
                      | _ \<Rightarrow> (None, inner)))"

definition remove_expired_v4 :: "string \<Rightarrow> fake_ip_store_inner \<Rightarrow> fake_ip_store_inner" where
  "remove_expired_v4 domain inner =
     (case map_of (fi_domain_to_entry_v4 inner) domain of
        None \<Rightarrow> inner
      | Some entry \<Rightarrow>
          inner\<lparr>fi_domain_to_entry_v4 := AList.delete domain (fi_domain_to_entry_v4 inner),
                fi_ip_to_domain_v4 := AList.delete (fe4_ip entry) (fi_ip_to_domain_v4 inner)\<rparr>)"

definition remove_expired_v6 :: "string \<Rightarrow> fake_ip_store_inner \<Rightarrow> fake_ip_store_inner" where
  "remove_expired_v6 domain inner =
     (case map_of (fi_domain_to_entry_v6 inner) domain of
        None \<Rightarrow> inner
      | Some entry \<Rightarrow>
          inner\<lparr>fi_domain_to_entry_v6 := AList.delete domain (fi_domain_to_entry_v6 inner),
                fi_ip_to_domain_v6 := AList.delete (fe6_ip entry) (fi_ip_to_domain_v6 inner)\<rparr>)"

definition prune_expired_entries :: "fake_ip_store_inner \<Rightarrow> instant \<Rightarrow> fake_ip_store_inner" where
  "prune_expired_entries inner now =
     (let expired_v4 = map fst (filter (\<lambda>(d, e). fe4_expires_at e \<le> now) (fi_domain_to_entry_v4 inner));
          expired_v6 = map fst (filter (\<lambda>(d, e). fe6_expires_at e \<le> now) (fi_domain_to_entry_v6 inner));
          inner = fold remove_expired_v4 expired_v4 inner
      in fold remove_expired_v6 expired_v6 inner)"

definition allocate_or_refresh_ipv4 ::
  "fake_ip_store \<Rightarrow> string \<Rightarrow> duration \<Rightarrow> instant \<Rightarrow> (fake_ip_error, u32) result \<times> fake_ip_store" where
  "allocate_or_refresh_ipv4 store domain ttl now =
     (if mx_poisoned store then (Err LockPoisoned, store)
      else
        (let d = normalize_domain domain;
             inner = prune_expired_entries (mx_value store) now
         in case map_of (fi_domain_to_entry_v4 inner) d of
              Some entry \<Rightarrow>
                (Ok (fe4_ip entry),
                 store\<lparr>mx_value := inner\<lparr>fi_domain_to_entry_v4 :=
                   AList.update d (entry\<lparr>fe4_expires_at := now + ttl\<rparr>) (fi_domain_to_entry_v4 inner)\<rparr>\<rparr>)
            | None \<Rightarrow>
                (case allocate_next_ipv4 inner of
                   (None, inner) \<Rightarrow>
                     (Err (PoolExhaustedV4 (fi_fake_ipv4_range inner)), store\<lparr>mx_value := inner\<rparr>)
                 | (Some fake_ip, inner) \<Rightarrow>
                     (Ok fake_ip,
                      store\<lparr>mx_value := inner\<lparr>
                        fi_domain_to_entry_v4 := AList.update d
                          \<lparr>fe4_ip = fake_ip, fe4_expires_at = now + ttl\<rparr> (fi_domain_to_entry_v4 inner),
                        fi_ip_to_domain_v4 := AList.update fake_ip d (fi_ip_to_domain_v4 inner)\<rparr>\<rparr>))))"

definition allocate_or_refresh_ipv6 ::
  "fake_ip_store \<Rightarrow> string \<Rightarrow> duration \<Rightarrow> instant \<Rightarrow> (fake_ip_error, u128) result \<times> fake_ip_store" where
  "allocate_or_refresh_ipv6 store domain ttl now =
     (if mx_poisoned store then (Err LockPoisoned, store)
      else
        (let d = normalize_domain domain;
             inner = prune_expired_entries (mx_value store) now
         in case map_of (fi_domain_to_entry_v6 inner) d of
              Some entry \<Rightarrow>
                (Ok (fe6_ip entry),
                 store\<lparr>mx_value := inner\<lparr>fi_domain_to_entry_v6 :=
                   AList.update d (entry\<lparr>fe6_expires_at := now + ttl\<rparr>) (fi_domain_to_entry_v6 inner)\<rparr>\<rparr>)
            | None \<Rightarrow>
                (case allocate_next_ipv6 inner of
                   (None, inner) \<Rightarrow>
                     (Err (PoolExhaustedV6 (fi_fake_ipv6_range inner)), store\<lparr>mx_value := inner\<rparr>)
                 | (Some fake_ip, inner) \<Rightarrow>
                     (Ok fake_ip,
                      store\<lparr>mx_value := inner\<lparr>
                        fi_domain_to_entry_v6 := AList.update d
                          \<lparr>fe6_ip = fake_ip, fe6_expires_at = now + ttl\<rparr> (fi_domain_to_entry_v6 inner),
                        fi_ip_to_domain_v6 := AList.update fake_ip d (fi_ip_to_domain_v6 inner)\<rparr>\<rparr>))))"

definition resolve_domain :: "fake_ip_store \<Rightarrow> ip_addr \<Rightarrow> instant \<Rightarrow> string option \<times> fake_ip_store" where
  "resolve_domain store ip now =
     (if mx_poisoned store then (None, store)
      else
        (let inner = prune_expired_entries (mx_value store) now;
             found = (case ip of
                 V4 a \<Rightarrow>
                   Option.bind (map_of (fi_ip_to_domain_v4 inner) a) (\<lambda>domain.
                   Option.bind (map_of (fi_domain_to_entry_v4 inner) domain) (\<lambda>entry.
                   if fe4_expires_at entry > now then Some domain else None))
               | V6 a \<Rightarrow>
                   Option.bind (map_of (fi_ip_to_domain_v6 inner) a) (\<lambda>domain.
                   Option.bind (map_of (fi_domain_to_entry_v6 inner) domain) (\<lambda>entry.
                   if fe6_expires_at entry > now then Some domain else None)))
         in (found, store\<lparr>mx_value := inner\<rparr>)))"

section \<open>The ring of candidates\<close>

text \<open>
  Both address families search the ring \<open>lo\<close>, \dots, \<open>hi\<close> from where the previous allocation ended. The
  locale takes the step function and the loop by their equations.
\<close>

locale candidate_ring =
  fixes advance :: "'a::len word \<Rightarrow> 'a word \<Rightarrow> 'a word \<Rightarrow> 'a word"
    and loop :: "('a word \<times> string) list \<Rightarrow> 'a word \<Rightarrow> 'a word \<Rightarrow> 'a word \<Rightarrow> 'a word \<Rightarrow> 'a word option option"
  assumes advance_eq: "advance c lo hi = (if hi \<le> c then lo else c + 1)"
    and loop_eq: "loop taken lo hi start c =
      (if map_of taken c = None then Some (Some c)
       else if advance c lo hi = start then Some None
       else loop taken lo hi start (advance c lo hi))"
begin

definition passed :: "'a word \<Rightarrow> 'a word \<Rightarrow> 'a word \<Rightarrow> 'a word \<Rightarrow> 'a word \<Rightarrow> bool" where
  "passed lo hi start c x \<longleftrightarrow>
     (if start \<le> c then start \<le> x \<and> x < c else start \<le> x \<and> x \<le> hi \<or> lo \<le> x \<and> x < c)"

definition dist :: "'a word \<Rightarrow> 'a word \<Rightarrow> 'a word \<Rightarrow> 'a word \<Rightarrow> nat" where
  "dist lo hi start c =
     (if start \<le> c then Suc (unat hi - unat c + (unat start - unat lo)) else unat start - unat c)"

lemma unat_Suc_less: "c < hi \<Longrightarrow> unat (c + 1) = Suc (unat c)" for c hi :: "'a word"
proof -
  assume "c < hi"
  then have "unat c < unat hi" by (simp add: word_less_nat_alt)
  moreover have "unat hi < 2 ^ LENGTH('a)" by (rule unsigned_less)
  ultimately have "Suc (unat c) mod 2 ^ LENGTH('a) = Suc (unat c)" by (intro mod_less) linarith
  then show ?thesis by (simp add: unat_word_ariths)
qed

lemma advance_in: "lo \<le> hi \<Longrightarrow> lo \<le> c \<Longrightarrow> c \<le> hi \<Longrightarrow>
    lo \<le> advance c lo hi \<and> advance c lo hi \<le> hi"
  using unat_Suc_less [of c hi] by (auto simp: advance_eq word_le_nat_alt word_less_nat_alt not_le)

lemma ring_step:
  assumes "lo \<le> start" "start \<le> hi" "lo \<le> c" "c \<le> hi"
  defines "n \<equiv> advance c lo hi"
  shows "n = start \<Longrightarrow> lo \<le> x \<Longrightarrow> x \<le> hi \<Longrightarrow> passed lo hi start c x \<or> x = c"
    and "n \<noteq> start \<Longrightarrow> dist lo hi start n < dist lo hi start c"
    and "n \<noteq> start \<Longrightarrow> passed lo hi start n x \<Longrightarrow> passed lo hi start c x \<or> x = c"
proof -
  have n: "c = hi \<and> n = lo \<or> c < hi \<and> unat n = Suc (unat c)"
    using assms(4) unat_Suc_less [of c hi] by (auto simp: n_def advance_eq)
  show "n = start \<Longrightarrow> lo \<le> x \<Longrightarrow> x \<le> hi \<Longrightarrow> passed lo hi start c x \<or> x = c"
    using n assms(1-4) by (auto simp: passed_def word_le_nat_alt word_less_nat_alt word_unat_eq_iff)
  show "n \<noteq> start \<Longrightarrow> dist lo hi start n < dist lo hi start c"
    using n assms(1-4) by (auto simp: dist_def word_le_nat_alt word_less_nat_alt word_unat_eq_iff)
  show "n \<noteq> start \<Longrightarrow> passed lo hi start n x \<Longrightarrow> passed lo hi start c x \<or> x = c"
    using n assms(1-4) by (auto simp: passed_def word_le_nat_alt word_less_nat_alt word_unat_eq_iff split: if_splits)
qed

lemma loop_result:
  assumes "lo \<le> start" "start \<le> hi" "lo \<le> c" "c \<le> hi"
    and "\<And>x. passed lo hi start c x \<Longrightarrow> map_of taken x \<noteq> None"
  shows "\<exists>r. loop taken lo hi start c = Some r \<and>
    (case r of Some v \<Rightarrow> lo \<le> v \<and> v \<le> hi \<and> map_of taken v = None
     | None \<Rightarrow> \<forall>x. lo \<le> x \<and> x \<le> hi \<longrightarrow> map_of taken x \<noteq> None)"
  using assms(3-5)
proof (induction "dist lo hi start c" arbitrary: c rule: less_induct)
  case less
  note step = ring_step [OF assms(1,2) less.prems(1,2)]
  let ?n = "advance c lo hi"
  show ?case
  proof (cases "map_of taken c = None")
    case True
    then show ?thesis using less.prems by (simp add: loop_eq)
  next
    case c: False
    show ?thesis
    proof (cases "?n = start")
      case True
      then have "map_of taken x \<noteq> None" if "lo \<le> x" "x \<le> hi" for x
        using step(1) that less.prems(3) c by blast
      moreover have "loop taken lo hi start c = Some None" using True c by (subst loop_eq) simp
      ultimately show ?thesis by (intro exI [of _ None]) auto
    next
      case False
      have "lo \<le> ?n" "?n \<le> hi"
        using advance_in [of lo hi c] less.prems(1,2) assms(1,2) by (auto intro: order_trans)
      moreover have "map_of taken x \<noteq> None" if "passed lo hi start ?n x" for x
        using step(3) [OF False that] less.prems(3) c by blast
      moreover have "loop taken lo hi start c = loop taken lo hi start ?n"
        using False c by (subst loop_eq) auto
      ultimately show ?thesis
        using less.hyps [OF step(2) [OF False]] by simp
    qed
  qed
qed

lemma loop_terminates:
  assumes "lo \<le> start" "start \<le> hi"
  obtains (free) v where "loop taken lo hi start start = Some (Some v)"
      "lo \<le> v" "v \<le> hi" "map_of taken v = None"
  | (exhausted) "loop taken lo hi start start = Some None"
      "\<And>x. lo \<le> x \<Longrightarrow> x \<le> hi \<Longrightarrow> map_of taken x \<noteq> None"
proof -
  have "\<And>x. passed lo hi start start x \<Longrightarrow> map_of taken x \<noteq> None" by (auto simp: passed_def)
  from loop_result [OF assms assms this] obtain r where "loop taken lo hi start start = Some r"
    "case r of Some v \<Rightarrow> lo \<le> v \<and> v \<le> hi \<and> map_of taken v = None
       | None \<Rightarrow> \<forall>x. lo \<le> x \<and> x \<le> hi \<longrightarrow> map_of taken x \<noteq> None" by blast
  then show thesis using that by (cases r) auto
qed

end

interpretation ring4: candidate_ring advance_ipv4_candidate allocate_loop_v4
  by unfold_locales (simp add: advance_ipv4_candidate_def, subst allocate_loop_v4.simps, simp add: Let_def)

interpretation ring6: candidate_ring advance_ipv6_candidate allocate_loop_v6
  by unfold_locales (simp add: advance_ipv6_candidate_def, subst allocate_loop_v6.simps, simp add: Let_def)

section \<open>Two-way leases\<close>

text \<open>
  The two maps of a family are inverse to each other: \<open>es\<close> from domains to entries, \<open>is\<close> from addresses to
  domains, \<open>ip\<close> the address of an entry.
\<close>

definition paired :: "('e \<Rightarrow> 'a) \<Rightarrow> ('d \<times> 'e) list \<Rightarrow> ('a \<times> 'd) list \<Rightarrow> bool" where
  "paired ip es is \<longleftrightarrow> distinct (map fst es) \<and> distinct (map fst is)
     \<and> (\<forall>d e. map_of es d = Some e \<longrightarrow> map_of is (ip e) = Some d)
     \<and> (\<forall>a d. map_of is a = Some d \<longrightarrow> (\<exists>e. map_of es d = Some e \<and> ip e = a))"

lemma map_of_delete: "map_of (AList.delete k al) x = (if x = k then None else map_of al x)"
  by (simp add: AList.delete_conv)

lemma map_of_update: "map_of (AList.update k v al) x = (if x = k then Some v else map_of al x)"
  by (simp add: AList.update_conv)

lemma distinct_fst_delete: "distinct (map fst al) \<Longrightarrow> distinct (map fst (AList.delete k al))"
  by (rule AList.distinct_delete)

lemma distinct_fst_update: "distinct (map fst al) \<Longrightarrow> distinct (map fst (AList.update k v al))"
  by (rule AList.distinct_update)

lemmas alist_simps = map_of_delete map_of_update distinct_fst_delete distinct_fst_update

lemma paired_empty: "paired ip [] []"
  by (simp add: paired_def)

lemma pairedI:
  assumes "distinct (map fst es)" "distinct (map fst is)"
    and "\<And>d e. map_of es d = Some e \<Longrightarrow> map_of is (ip e) = Some d"
    and "\<And>a d. map_of is a = Some d \<Longrightarrow> \<exists>e. map_of es d = Some e \<and> ip e = a"
  shows "paired ip es is"
  using assms by (simp add: paired_def)

lemma pairedD:
  assumes "paired ip es is"
  shows "distinct (map fst es)" "distinct (map fst is)"
    and "map_of es d = Some e \<Longrightarrow> map_of is (ip e) = Some d"
    and "map_of is a = Some d \<Longrightarrow> \<exists>e. map_of es d = Some e \<and> ip e = a"
  using assms unfolding paired_def by blast+

lemma paired_inj:
  assumes "paired ip es is" "map_of es d = Some e" "map_of es d' = Some e'" "ip e = ip e'"
  shows "d = d'"
  using pairedD(3) [OF assms(1,2)] pairedD(3) [OF assms(1,3)] assms(4) by simp

lemma paired_insert:
  assumes p: "paired ip es is" and d: "map_of es d = None" and a: "map_of is (ip e) = None"
  shows "paired ip (AList.update d e es) (AList.update (ip e) d is)"
proof (rule pairedI)
  fix d' e' assume "map_of (AList.update d e es) d' = Some e'"
  then show "map_of (AList.update (ip e) d is) (ip e') = Some d'"
    using pairedD(3) [OF p, of d' e'] a by (auto simp: alist_simps split: if_splits)
next
  fix a' d' assume "map_of (AList.update (ip e) d is) a' = Some d'"
  then show "\<exists>e'. map_of (AList.update d e es) d' = Some e' \<and> ip e' = a'"
    using pairedD(4) [OF p, of a' d'] d by (auto simp: alist_simps split: if_splits)
qed (use pairedD(1,2) [OF p] in \<open>simp_all add: alist_simps\<close>)

lemma paired_refresh:
  assumes p: "paired ip es is" and d: "map_of es d = Some e" "ip e' = ip e"
  shows "paired ip (AList.update d e' es) is"
proof (rule pairedI)
  fix x y assume "map_of (AList.update d e' es) x = Some y"
  then show "map_of is (ip y) = Some x"
    using pairedD(3) [OF p, of x y] pairedD(3) [OF p d(1)] d(2) by (auto simp: alist_simps split: if_splits)
next
  fix a' d' assume "map_of is a' = Some d'"
  then show "\<exists>y. map_of (AList.update d e' es) d' = Some y \<and> ip y = a'"
    using pairedD(4) [OF p, of a' d'] d by (auto simp: alist_simps)
qed (use pairedD(1,2) [OF p] in \<open>simp_all add: alist_simps\<close>)

lemma paired_remove:
  assumes p: "paired ip es is" and d: "map_of es d = Some e"
  shows "paired ip (AList.delete d es) (AList.delete (ip e) is)"
proof (rule pairedI)
  fix x y assume "map_of (AList.delete d es) x = Some y"
  then show "map_of (AList.delete (ip e) is) (ip y) = Some x"
    using pairedD(3) [OF p, of x y] pairedD(3) [OF p d] by (auto simp: alist_simps split: if_splits)
next
  fix a' d' assume *: "map_of (AList.delete (ip e) is) a' = Some d'"
  then have "a' \<noteq> ip e" "map_of is a' = Some d'" by (auto simp: alist_simps split: if_splits)
  then show "\<exists>y. map_of (AList.delete d es) d' = Some y \<and> ip y = a'"
    using pairedD(4) [OF p, of a' d'] d by (auto simp: alist_simps)
qed (use pairedD(1,2) [OF p] in \<open>simp_all add: alist_simps\<close>)

definition remove_pair :: "('e \<Rightarrow> 'a) \<Rightarrow> 'd \<Rightarrow> ('d \<times> 'e) list \<times> ('a \<times> 'd) list \<Rightarrow> ('d \<times> 'e) list \<times> ('a \<times> 'd) list" where
  "remove_pair ip d p = (case map_of (fst p) d of None \<Rightarrow> p
     | Some e \<Rightarrow> (AList.delete d (fst p), AList.delete (ip e) (snd p)))"

lemma filter_opt_neq: "x \<noteq> Some d \<Longrightarrow> filter_opt (\<lambda>y. y \<noteq> d \<and> P y) x = filter_opt P x"
  by (cases x) (simp_all add: filter_opt_def)

lemma fold_remove_pair:
  assumes "paired ip es is"
  shows "case fold (remove_pair ip) ds (es, is) of (es', is') \<Rightarrow> paired ip es' is'
    \<and> (\<forall>d. map_of es' d = (if d \<in> set ds then None else map_of es d))
    \<and> (\<forall>a. map_of is' a = filter_opt (\<lambda>d. d \<notin> set ds) (map_of is a))"
  using assms
proof (induction ds arbitrary: es "is")
  case Nil
  then show ?case by (auto simp: filter_opt_def split: option.splits)
next
  case (Cons d ds)
  note p = Cons.prems
  show ?case
  proof (cases "map_of es d")
    case None
    then have "map_of is a \<noteq> Some d" for a using pairedD(4) [OF p, of a d] by auto
    with None Cons.IH [OF p] show ?thesis
      by (simp add: remove_pair_def split: prod.splits) (metis filter_opt_neq)
  next
    case (Some e)
    have i2: "filter_opt (\<lambda>x. x \<notin> set ds) (map_of (AList.delete (ip e) is) a) =
        filter_opt (\<lambda>x. x \<notin> set (d # ds)) (map_of is a)" for a
      using pairedD(4) [OF p, of a d] pairedD(3) [OF p Some] Some
      by (cases "map_of is a") (auto simp: filter_opt_def alist_simps)
    with Cons.IH [OF paired_remove [OF p Some]] Some show ?thesis
      by (simp add: remove_pair_def alist_simps split: prod.splits)
  qed
qed

lemma prune_pair:
  assumes "paired ip es is" "ds = map fst (filter (\<lambda>(d, e). dead e) es)"
    and "fold (remove_pair ip) ds (es, is) = (es', is')"
  shows "paired ip es' is'"
    and "map_of es' d = filter_opt (\<lambda>e. \<not> dead e) (map_of es d)"
    and "map_of is' a = filter_opt (\<lambda>d. \<exists>e. map_of es' d = Some e) (map_of is a)"
proof -
  have *: "paired ip es' is'" "map_of es' d = (if d \<in> set ds then None else map_of es d)"
    "map_of is' a = filter_opt (\<lambda>d. d \<notin> set ds) (map_of is a)" for d a
    using fold_remove_pair [OF assms(1), of ds] assms(3) by auto
  have ds: "d \<in> set ds \<longleftrightarrow> (\<exists>e. map_of es d = Some e \<and> dead e)" for d
    using assms(1,2) by (force simp: paired_def)
  show "paired ip es' is'" by (rule *)
  show "map_of es' d = filter_opt (\<lambda>e. \<not> dead e) (map_of es d)" for d
    by (auto simp: * ds filter_opt_def split: option.splits)
  show "map_of is' a = filter_opt (\<lambda>d. \<exists>e. map_of es' d = Some e) (map_of is a)"
    using pairedD(4) [OF assms(1), of a] by (cases "map_of is a") (auto simp: * ds filter_opt_def)
qed

section \<open>The invariant of the store\<close>

definition pair4 :: "fake_ip_store_inner \<Rightarrow> (string \<times> fake_ipv4_entry) list \<times> (u32 \<times> string) list" where
  "pair4 inner = (fi_domain_to_entry_v4 inner, fi_ip_to_domain_v4 inner)"

definition pair6 :: "fake_ip_store_inner \<Rightarrow> (string \<times> fake_ipv6_entry) list \<times> (u128 \<times> string) list" where
  "pair6 inner = (fi_domain_to_entry_v6 inner, fi_ip_to_domain_v6 inner)"

definition ranges :: "fake_ip_store_inner \<Rightarrow> ipv4_net \<times> ipv6_net \<times> u32 \<times> u128" where
  "ranges inner = (fi_fake_ipv4_range inner, fi_fake_ipv6_range inner,
     fi_next_candidate_v4 inner, fi_next_candidate_v6 inner)"

definition in_pool4 :: "ipv4_net \<Rightarrow> u32 \<Rightarrow> bool" where
  "in_pool4 rng a \<longleftrightarrow> (\<exists>hi. last_usable_ipv4 rng = Some hi \<and> first_allocatable_ipv4 rng \<le> a \<and> a \<le> hi)"

definition in_pool6 :: "ipv6_net \<Rightarrow> u128 \<Rightarrow> bool" where
  "in_pool6 rng a \<longleftrightarrow> (\<exists>hi. last_usable_ipv6 rng = Some hi \<and> first_allocatable_ipv6 rng \<le> a \<and> a \<le> hi)"

definition fake_ip_inv :: "fake_ip_store_inner \<Rightarrow> bool" where
  "fake_ip_inv inner \<longleftrightarrow>
     paired fe4_ip (fi_domain_to_entry_v4 inner) (fi_ip_to_domain_v4 inner)
     \<and> (\<forall>a d. map_of (fi_ip_to_domain_v4 inner) a = Some d \<longrightarrow> in_pool4 (fi_fake_ipv4_range inner) a)
     \<and> paired fe6_ip (fi_domain_to_entry_v6 inner) (fi_ip_to_domain_v6 inner)
     \<and> (\<forall>a d. map_of (fi_ip_to_domain_v6 inner) a = Some d \<longrightarrow> in_pool6 (fi_fake_ipv6_range inner) a)"

lemma remove_expired_v4_eff:
  "pair4 (remove_expired_v4 d inner) = remove_pair fe4_ip d (pair4 inner)"
  "pair6 (remove_expired_v4 d inner) = pair6 inner"
  "ranges (remove_expired_v4 d inner) = ranges inner"
  by (simp_all add: remove_expired_v4_def pair4_def pair6_def ranges_def remove_pair_def split: option.split)

lemma remove_expired_v6_eff:
  "pair6 (remove_expired_v6 d inner) = remove_pair fe6_ip d (pair6 inner)"
  "pair4 (remove_expired_v6 d inner) = pair4 inner"
  "ranges (remove_expired_v6 d inner) = ranges inner"
  by (simp_all add: remove_expired_v6_def pair4_def pair6_def ranges_def remove_pair_def split: option.split)

lemma prune_pairs:
  "pair4 (prune_expired_entries inner now) = fold (remove_pair fe4_ip)
     (map fst (filter (\<lambda>(d, e). fe4_expires_at e \<le> now) (fi_domain_to_entry_v4 inner))) (pair4 inner)"
  "pair6 (prune_expired_entries inner now) = fold (remove_pair fe6_ip)
     (map fst (filter (\<lambda>(d, e). fe6_expires_at e \<le> now) (fi_domain_to_entry_v6 inner))) (pair6 inner)"
  "ranges (prune_expired_entries inner now) = ranges inner"
  unfolding prune_expired_entries_def Let_def
  by (simp_all only: fold_proj [where p = pair4 and f = "remove_pair fe4_ip", OF remove_expired_v4_eff(1)]
      fold_proj [where p = pair6 and f = "remove_pair fe6_ip", OF remove_expired_v6_eff(1)]
      fold_inv [where p = pair6, OF remove_expired_v4_eff(2)] fold_inv [where p = pair4, OF remove_expired_v6_eff(2)]
      fold_inv [where p = ranges, OF remove_expired_v4_eff(3)] fold_inv [where p = ranges, OF remove_expired_v6_eff(3)])

text \<open>What pruning leaves: exactly the leases that have not expired.\<close>

lemma prune_ranges [simp]:
  "fi_fake_ipv4_range (prune_expired_entries inner now) = fi_fake_ipv4_range inner"
  "fi_fake_ipv6_range (prune_expired_entries inner now) = fi_fake_ipv6_range inner"
  "fi_next_candidate_v4 (prune_expired_entries inner now) = fi_next_candidate_v4 inner"
  "fi_next_candidate_v6 (prune_expired_entries inner now) = fi_next_candidate_v6 inner"
  using prune_pairs(3) [of inner now] by (simp_all add: ranges_def)

lemma prune_eff:
  fixes now :: instant
  assumes "fake_ip_inv inner"
  defines "inner' \<equiv> prune_expired_entries inner now"
  shows "paired fe4_ip (fi_domain_to_entry_v4 inner') (fi_ip_to_domain_v4 inner')"
    and "map_of (fi_domain_to_entry_v4 inner') d =
      filter_opt (\<lambda>e. now < fe4_expires_at e) (map_of (fi_domain_to_entry_v4 inner) d)"
    and "map_of (fi_ip_to_domain_v4 inner') a =
      filter_opt (\<lambda>d. \<exists>e. map_of (fi_domain_to_entry_v4 inner') d = Some e) (map_of (fi_ip_to_domain_v4 inner) a)"
    and "paired fe6_ip (fi_domain_to_entry_v6 inner') (fi_ip_to_domain_v6 inner')"
    and "map_of (fi_domain_to_entry_v6 inner') d =
      filter_opt (\<lambda>e. now < fe6_expires_at e) (map_of (fi_domain_to_entry_v6 inner) d)"
    and "map_of (fi_ip_to_domain_v6 inner') b =
      filter_opt (\<lambda>d. \<exists>e. map_of (fi_domain_to_entry_v6 inner') d = Some e) (map_of (fi_ip_to_domain_v6 inner) b)"
proof -
  have p: "paired fe4_ip (fi_domain_to_entry_v4 inner) (fi_ip_to_domain_v4 inner)"
    "paired fe6_ip (fi_domain_to_entry_v6 inner) (fi_ip_to_domain_v6 inner)"
    using assms(1) by (simp_all add: fake_ip_inv_def)
  note v4 = prune_pair [OF p(1) refl prune_pairs(1) [of inner now, unfolded pair4_def, symmetric]]
  note v6 = prune_pair [OF p(2) refl prune_pairs(2) [of inner now, unfolded pair6_def, symmetric]]
  show "paired fe4_ip (fi_domain_to_entry_v4 inner') (fi_ip_to_domain_v4 inner')"
    "paired fe6_ip (fi_domain_to_entry_v6 inner') (fi_ip_to_domain_v6 inner')"
    using v4(1) v6(1) by (simp_all add: inner'_def)
  show "map_of (fi_domain_to_entry_v4 inner') d =
      filter_opt (\<lambda>e. now < fe4_expires_at e) (map_of (fi_domain_to_entry_v4 inner) d)"
    "map_of (fi_domain_to_entry_v6 inner') d =
      filter_opt (\<lambda>e. now < fe6_expires_at e) (map_of (fi_domain_to_entry_v6 inner) d)"
    using v4(2) v6(2) by (simp_all add: inner'_def not_le)
  show "map_of (fi_ip_to_domain_v4 inner') a =
      filter_opt (\<lambda>d. \<exists>e. map_of (fi_domain_to_entry_v4 inner') d = Some e) (map_of (fi_ip_to_domain_v4 inner) a)"
    "map_of (fi_ip_to_domain_v6 inner') b =
      filter_opt (\<lambda>d. \<exists>e. map_of (fi_domain_to_entry_v6 inner') d = Some e) (map_of (fi_ip_to_domain_v6 inner) b)"
    using v4(3) v6(3) by (simp_all add: inner'_def)
qed

lemma prune_inv: "fake_ip_inv inner \<Longrightarrow> fake_ip_inv (prune_expired_entries inner now)"
  using prune_eff [of inner now] unfolding fake_ip_inv_def [of "prune_expired_entries inner now"]
  by (auto simp: fake_ip_inv_def filter_opt_Some_iff)

section \<open>Allocation\<close>

lemma clamp_in_ipv4:
  "lo \<le> hi \<Longrightarrow> lo \<le> clamp_ipv4_candidate c lo hi \<and> clamp_ipv4_candidate c lo hi \<le> hi"
  by (auto simp: clamp_ipv4_candidate_def not_less)

lemma allocate_next_ipv4_cases:
  obtains (free) a n where "allocate_next_ipv4 inner = (Some a, inner\<lparr>fi_next_candidate_v4 := n\<rparr>)"
      "in_pool4 (fi_fake_ipv4_range inner) a" "map_of (fi_ip_to_domain_v4 inner) a = None"
  | (exhausted) "allocate_next_ipv4 inner = (None, inner)"
      "\<And>a. in_pool4 (fi_fake_ipv4_range inner) a \<Longrightarrow> map_of (fi_ip_to_domain_v4 inner) a \<noteq> None"
proof (cases "last_usable_ipv4 (fi_fake_ipv4_range inner)")
  case None
  then show thesis by (intro exhausted) (simp_all add: allocate_next_ipv4_def in_pool4_def)
next
  case (Some hi)
  let ?lo = "first_allocatable_ipv4 (fi_fake_ipv4_range inner)"
  let ?start = "clamp_ipv4_candidate (fi_next_candidate_v4 inner) ?lo hi"
  show thesis
  proof (cases "hi < ?lo")
    case True
    with Some show thesis by (intro exhausted) (auto simp: allocate_next_ipv4_def in_pool4_def)
  next
    case False
    then have "?lo \<le> ?start" "?start \<le> hi" using clamp_in_ipv4 by (simp_all add: not_less)
    then show thesis
    proof (cases rule: ring4.loop_terminates [where taken = "fi_ip_to_domain_v4 inner"])
      case (free v)
      with Some False show thesis
        by (intro that(1) [of v "advance_ipv4_candidate v ?lo hi"])
           (auto simp: allocate_next_ipv4_def in_pool4_def Let_def)
    next
      case exhausted
      with Some False show thesis by (intro that(2)) (auto simp: allocate_next_ipv4_def in_pool4_def Let_def)
    qed
  qed
qed

lemma clamp_in_ipv6:
  "lo \<le> hi \<Longrightarrow> lo \<le> clamp_ipv6_candidate c lo hi \<and> clamp_ipv6_candidate c lo hi \<le> hi"
  by (auto simp: clamp_ipv6_candidate_def not_less)

lemma allocate_next_ipv6_cases:
  obtains (free) a n where "allocate_next_ipv6 inner = (Some a, inner\<lparr>fi_next_candidate_v6 := n\<rparr>)"
      "in_pool6 (fi_fake_ipv6_range inner) a" "map_of (fi_ip_to_domain_v6 inner) a = None"
  | (exhausted) "allocate_next_ipv6 inner = (None, inner)"
      "\<And>a. in_pool6 (fi_fake_ipv6_range inner) a \<Longrightarrow> map_of (fi_ip_to_domain_v6 inner) a \<noteq> None"
proof (cases "last_usable_ipv6 (fi_fake_ipv6_range inner)")
  case None
  then show thesis by (intro exhausted) (simp_all add: allocate_next_ipv6_def in_pool6_def)
next
  case (Some hi)
  let ?lo = "first_allocatable_ipv6 (fi_fake_ipv6_range inner)"
  let ?start = "clamp_ipv6_candidate (fi_next_candidate_v6 inner) ?lo hi"
  show thesis
  proof (cases "hi < ?lo")
    case True
    with Some show thesis by (intro exhausted) (auto simp: allocate_next_ipv6_def in_pool6_def)
  next
    case False
    then have "?lo \<le> ?start" "?start \<le> hi" using clamp_in_ipv6 by (simp_all add: not_less)
    then show thesis
    proof (cases rule: ring6.loop_terminates [where taken = "fi_ip_to_domain_v6 inner"])
      case (free v)
      with Some False show thesis
        by (intro that(1) [of v "advance_ipv6_candidate v ?lo hi"])
           (auto simp: allocate_next_ipv6_def in_pool6_def Let_def)
    next
      case exhausted
      with Some False show thesis by (intro that(2)) (auto simp: allocate_next_ipv6_def in_pool6_def Let_def)
    qed
  qed
qed

text \<open>The three outcomes of an allocation on a store that is not poisoned.\<close>

lemma allocate_ipv4_cases:
  fixes now :: instant and domain :: string
  assumes "\<not> mx_poisoned store" and inv: "fake_ip_inv (mx_value store)"
  defines "pr \<equiv> prune_expired_entries (mx_value store) now" and "d \<equiv> normalize_domain domain"
  obtains (refreshed) e where "map_of (fi_domain_to_entry_v4 pr) d = Some e"
      "allocate_or_refresh_ipv4 store domain ttl now = (Ok (fe4_ip e), store\<lparr>mx_value := pr\<lparr>
         fi_domain_to_entry_v4 := AList.update d (e\<lparr>fe4_expires_at := now + ttl\<rparr>) (fi_domain_to_entry_v4 pr)\<rparr>\<rparr>)"
  | (allocated) a n where "map_of (fi_domain_to_entry_v4 pr) d = None"
      "in_pool4 (fi_fake_ipv4_range pr) a" "map_of (fi_ip_to_domain_v4 pr) a = None"
      "allocate_or_refresh_ipv4 store domain ttl now = (Ok a, store\<lparr>mx_value := pr\<lparr>
         fi_next_candidate_v4 := n,
         fi_domain_to_entry_v4 := AList.update d \<lparr>fe4_ip = a, fe4_expires_at = now + ttl\<rparr> (fi_domain_to_entry_v4 pr),
         fi_ip_to_domain_v4 := AList.update a d (fi_ip_to_domain_v4 pr)\<rparr>\<rparr>)"
  | (exhausted) "map_of (fi_domain_to_entry_v4 pr) d = None"
      "\<And>a. in_pool4 (fi_fake_ipv4_range pr) a \<Longrightarrow> map_of (fi_ip_to_domain_v4 pr) a \<noteq> None"
      "allocate_or_refresh_ipv4 store domain ttl now =
         (Err (PoolExhaustedV4 (fi_fake_ipv4_range pr)), store\<lparr>mx_value := pr\<rparr>)"
proof (cases "map_of (fi_domain_to_entry_v4 pr) d")
  case (Some e)
  then show thesis using assms(1)
    by (intro refreshed) (simp_all add: allocate_or_refresh_ipv4_def Let_def pr_def d_def)
next
  case None
  show thesis
  proof (cases rule: allocate_next_ipv4_cases [of pr])
    case (free a n)
    with None assms(1) show thesis
      by (intro allocated [of a n]) (simp_all add: allocate_or_refresh_ipv4_def Let_def pr_def d_def)
  next
    case exhausted
    with None assms(1) show thesis
      by (intro that(3)) (simp_all add: allocate_or_refresh_ipv4_def Let_def pr_def d_def)
  qed
qed

lemma allocate_ipv4_inv:
  assumes "fake_ip_inv (mx_value store)"
  shows "fake_ip_inv (mx_value (snd (allocate_or_refresh_ipv4 store domain ttl now)))"
proof (cases "mx_poisoned store")
  case True
  with assms show ?thesis by (simp add: allocate_or_refresh_ipv4_def)
next
  case False
  let ?pr = "prune_expired_entries (mx_value store) now"
  have pr: "fake_ip_inv ?pr" using assms by (rule prune_inv)
  then have p: "paired fe4_ip (fi_domain_to_entry_v4 ?pr) (fi_ip_to_domain_v4 ?pr)"
    by (simp add: fake_ip_inv_def)
  from False assms show ?thesis
  proof (cases rule: allocate_ipv4_cases [where now = now and domain = domain and ttl = ttl])
    case (refreshed e)
    with pr paired_refresh [OF p refreshed(1)] show ?thesis by (simp add: fake_ip_inv_def)
  next
    case (allocated a n)
    with pr paired_insert [OF p allocated(1), of "\<lparr>fe4_ip = a, fe4_expires_at = now + ttl\<rparr>"] show ?thesis
      by (auto simp: fake_ip_inv_def alist_simps split: if_splits)
  next
    case exhausted
    with pr show ?thesis by simp
  qed
qed

text \<open>The three outcomes of an allocation on a store that is not poisoned.\<close>

lemma allocate_ipv6_cases:
  fixes now :: instant and domain :: string
  assumes "\<not> mx_poisoned store" and inv: "fake_ip_inv (mx_value store)"
  defines "pr \<equiv> prune_expired_entries (mx_value store) now" and "d \<equiv> normalize_domain domain"
  obtains (refreshed) e where "map_of (fi_domain_to_entry_v6 pr) d = Some e"
      "allocate_or_refresh_ipv6 store domain ttl now = (Ok (fe6_ip e), store\<lparr>mx_value := pr\<lparr>
         fi_domain_to_entry_v6 := AList.update d (e\<lparr>fe6_expires_at := now + ttl\<rparr>) (fi_domain_to_entry_v6 pr)\<rparr>\<rparr>)"
  | (allocated) a n where "map_of (fi_domain_to_entry_v6 pr) d = None"
      "in_pool6 (fi_fake_ipv6_range pr) a" "map_of (fi_ip_to_domain_v6 pr) a = None"
      "allocate_or_refresh_ipv6 store domain ttl now = (Ok a, store\<lparr>mx_value := pr\<lparr>
         fi_next_candidate_v6 := n,
         fi_domain_to_entry_v6 := AList.update d \<lparr>fe6_ip = a, fe6_expires_at = now + ttl\<rparr> (fi_domain_to_entry_v6 pr),
         fi_ip_to_domain_v6 := AList.update a d (fi_ip_to_domain_v6 pr)\<rparr>\<rparr>)"
  | (exhausted) "map_of (fi_domain_to_entry_v6 pr) d = None"
      "\<And>a. in_pool6 (fi_fake_ipv6_range pr) a \<Longrightarrow> map_of (fi_ip_to_domain_v6 pr) a \<noteq> None"
      "allocate_or_refresh_ipv6 store domain ttl now =
         (Err (PoolExhaustedV6 (fi_fake_ipv6_range pr)), store\<lparr>mx_value := pr\<rparr>)"
proof (cases "map_of (fi_domain_to_entry_v6 pr) d")
  case (Some e)
  then show thesis using assms(1)
    by (intro refreshed) (simp_all add: allocate_or_refresh_ipv6_def Let_def pr_def d_def)
next
  case None
  show thesis
  proof (cases rule: allocate_next_ipv6_cases [of pr])
    case (free a n)
    with None assms(1) show thesis
      by (intro allocated [of a n]) (simp_all add: allocate_or_refresh_ipv6_def Let_def pr_def d_def)
  next
    case exhausted
    with None assms(1) show thesis
      by (intro that(3)) (simp_all add: allocate_or_refresh_ipv6_def Let_def pr_def d_def)
  qed
qed

lemma allocate_ipv6_inv:
  assumes "fake_ip_inv (mx_value store)"
  shows "fake_ip_inv (mx_value (snd (allocate_or_refresh_ipv6 store domain ttl now)))"
proof (cases "mx_poisoned store")
  case True
  with assms show ?thesis by (simp add: allocate_or_refresh_ipv6_def)
next
  case False
  let ?pr = "prune_expired_entries (mx_value store) now"
  have pr: "fake_ip_inv ?pr" using assms by (rule prune_inv)
  then have p: "paired fe6_ip (fi_domain_to_entry_v6 ?pr) (fi_ip_to_domain_v6 ?pr)"
    by (simp add: fake_ip_inv_def)
  from False assms show ?thesis
  proof (cases rule: allocate_ipv6_cases [where now = now and domain = domain and ttl = ttl])
    case (refreshed e)
    with pr paired_refresh [OF p refreshed(1)] show ?thesis by (simp add: fake_ip_inv_def)
  next
    case (allocated a n)
    with pr paired_insert [OF p allocated(1), of "\<lparr>fe6_ip = a, fe6_expires_at = now + ttl\<rparr>"] show ?thesis
      by (auto simp: fake_ip_inv_def alist_simps split: if_splits)
  next
    case exhausted
    with pr show ?thesis by simp
  qed
qed

lemma resolve_inv:
  "fake_ip_inv (mx_value store) \<Longrightarrow> fake_ip_inv (mx_value (snd (resolve_domain store ip now)))"
  by (simp add: resolve_domain_def Let_def prune_inv)

lemma fake_ip_store_new_inv: "fake_ip_inv (mx_value (fake_ip_store_new rng4 rng6))"
  by (simp add: fake_ip_store_new_def fake_ip_inv_def paired_empty)

section \<open>Runs of the store\<close>

datatype fake_ip_op =
    AllocV4 string duration instant
  | AllocV6 string duration instant
  | ResolveOp ip_addr instant

fun run_op :: "fake_ip_op \<Rightarrow> fake_ip_store \<Rightarrow> fake_ip_store" where
  "run_op (AllocV4 d ttl now) s = snd (allocate_or_refresh_ipv4 s d ttl now)"
| "run_op (AllocV6 d ttl now) s = snd (allocate_or_refresh_ipv6 s d ttl now)"
| "run_op (ResolveOp ip now) s = snd (resolve_domain s ip now)"

inductive reachable :: "ipv4_net \<Rightarrow> ipv6_net \<Rightarrow> fake_ip_store \<Rightarrow> bool" for rng4 rng6 where
  init: "reachable rng4 rng6 (fake_ip_store_new rng4 rng6)"
| step: "reachable rng4 rng6 s \<Longrightarrow> reachable rng4 rng6 (run_op op s)"

lemma run_op_inv: "fake_ip_inv (mx_value s) \<Longrightarrow> fake_ip_inv (mx_value (run_op op s))"
  by (cases op) (simp_all add: allocate_ipv4_inv allocate_ipv6_inv resolve_inv)

lemma reachable_inv: "reachable rng4 rng6 s \<Longrightarrow> fake_ip_inv (mx_value s)"
  by (induction rule: reachable.induct) (simp_all add: fake_ip_store_new_inv run_op_inv)

lemma run_op_frame:
  "mx_poisoned (run_op op s) = mx_poisoned s"
  "fi_fake_ipv4_range (mx_value (run_op op s)) = fi_fake_ipv4_range (mx_value s)"
  "fi_fake_ipv6_range (mx_value (run_op op s)) = fi_fake_ipv6_range (mx_value s)"
  by (cases op; simp add: allocate_or_refresh_ipv4_def allocate_or_refresh_ipv6_def resolve_domain_def
      allocate_next_ipv4_def allocate_next_ipv6_def Let_def split: option.splits prod.splits)+

lemma reachable_frame:
  "reachable rng4 rng6 s \<Longrightarrow> \<not> mx_poisoned s \<and> fi_fake_ipv4_range (mx_value s) = rng4
     \<and> fi_fake_ipv6_range (mx_value s) = rng6"
  by (induction rule: reachable.induct) (simp_all add: run_op_frame, simp add: fake_ip_store_new_def)

section \<open>Leases\<close>

text \<open>A live lease of the IPv4 pool.\<close>

definition lease4 :: "fake_ip_store \<Rightarrow> string \<Rightarrow> u32 \<Rightarrow> instant \<Rightarrow> bool" where
  "lease4 s d a exp \<longleftrightarrow>
     map_of (fi_domain_to_entry_v4 (mx_value s)) d = Some \<lparr>fe4_ip = a, fe4_expires_at = exp\<rparr>"

fun op_time :: "fake_ip_op \<Rightarrow> instant" where
  "op_time (AllocV4 d ttl now) = now"
| "op_time (AllocV6 d ttl now) = now"
| "op_time (ResolveOp ip now) = now"

fun renews :: "string \<Rightarrow> fake_ip_op \<Rightarrow> bool" where
  "renews d (AllocV4 d' ttl now) = (normalize_domain d' = d)"
| "renews d _ = False"

lemma pruned_lease:
  assumes "fake_ip_inv (mx_value s)" "lease4 s d a exp" "now < exp"
  shows "map_of (fi_domain_to_entry_v4 (prune_expired_entries (mx_value s) now)) d =
    Some \<lparr>fe4_ip = a, fe4_expires_at = exp\<rparr>"
  using assms by (simp add: prune_eff lease4_def filter_opt_def)

lemma lease_step:
  assumes "fake_ip_inv (mx_value s)" "lease4 s d a exp" "op_time op < exp" "\<not> renews d op"
  shows "lease4 (run_op op s) d a exp"
proof (cases "mx_poisoned s")
  case True
  with assms(2) show ?thesis
    by (cases op) (simp_all add: allocate_or_refresh_ipv4_def allocate_or_refresh_ipv6_def resolve_domain_def)
next
  case np: False
  note pl = pruned_lease [OF assms(1-3)]
  show ?thesis
  proof (cases op)
    case (AllocV4 d' ttl now)
    from np assms(1) show ?thesis
      by (cases rule: allocate_ipv4_cases [where now = now and domain = d' and ttl = ttl])
         (use AllocV4 pl assms(4) in \<open>auto simp: lease4_def alist_simps\<close>)
  next
    case (AllocV6 d' ttl now)
    from np assms(1) show ?thesis
      by (cases rule: allocate_ipv6_cases [where now = now and domain = d' and ttl = ttl])
         (use AllocV6 pl in \<open>auto simp: lease4_def\<close>)
  next
    case (ResolveOp ip now)
    with np pl show ?thesis by (simp add: lease4_def resolve_domain_def Let_def)
  qed
qed

lemma lease_run:
  assumes "fake_ip_inv (mx_value s)" "lease4 s d a exp"
    and "\<forall>op \<in> set ops. op_time op < exp \<and> \<not> renews d op"
  shows "lease4 (fold run_op ops s) d a exp \<and> fake_ip_inv (mx_value (fold run_op ops s))"
  using assms by (induction ops arbitrary: s) (simp_all add: lease_step run_op_inv)

lemma fold_run_frame: "mx_poisoned (fold run_op ops s) = mx_poisoned s"
  by (induction ops arbitrary: s) (simp_all add: run_op_frame)

lemma lease_of_alloc:
  assumes "\<not> mx_poisoned s" "fake_ip_inv (mx_value s)"
    and "allocate_or_refresh_ipv4 s domain ttl now = (Ok a, s')"
  shows "lease4 s' (normalize_domain domain) a (now + ttl)" "\<not> mx_poisoned s'" "fake_ip_inv (mx_value s')"
proof -
  from assms(1,2) show "lease4 s' (normalize_domain domain) a (now + ttl)"
    by (cases rule: allocate_ipv4_cases [where now = now and domain = domain and ttl = ttl])
       (use assms(3) in \<open>auto simp: lease4_def alist_simps\<close>)
  show "\<not> mx_poisoned s'" using run_op_frame(1) [of "AllocV4 domain ttl now" s] assms by simp
  show "fake_ip_inv (mx_value s')" using allocate_ipv4_inv [OF assms(2)] assms(3) by (metis snd_conv)
qed

lemma lease_in_pool:
  assumes inv: "fake_ip_inv (mx_value s)" and "lease4 s d a exp"
  shows "in_pool4 (fi_fake_ipv4_range (mx_value s)) a"
proof -
  have "paired fe4_ip (fi_domain_to_entry_v4 (mx_value s)) (fi_ip_to_domain_v4 (mx_value s))"
    using inv by (simp add: fake_ip_inv_def)
  from pairedD(3) [OF this assms(2) [unfolded lease4_def]]
  have "map_of (fi_ip_to_domain_v4 (mx_value s)) a = Some d" by simp
  with inv show ?thesis unfolding fake_ip_inv_def by blast
qed

lemma lease_resolves:
  assumes "\<not> mx_poisoned s" "fake_ip_inv (mx_value s)" "lease4 s d a exp" "t < exp"
  shows "fst (resolve_domain s (V4 a) t) = Some d"
proof -
  let ?pr = "prune_expired_entries (mx_value s) t"
  have e: "map_of (fi_domain_to_entry_v4 ?pr) d = Some \<lparr>fe4_ip = a, fe4_expires_at = exp\<rparr>"
    using pruned_lease [OF assms(2-4)] .
  have "paired fe4_ip (fi_domain_to_entry_v4 ?pr) (fi_ip_to_domain_v4 ?pr)"
    using prune_eff(1) [OF assms(2)] .
  from pairedD(3) [OF this e] e assms(1,4) show ?thesis
    by (simp add: resolve_domain_def Let_def)
qed

text \<open>An address of the IPv4 pool is inside the network, past its first three addresses and below the broadcast.\<close>

lemma word_range_in_prefix:
  fixes net a :: "'a::len word"
  assumes "len \<le> LENGTH('a)" "take_bit (LENGTH('a) - len) net = 0"
    and "unat net \<le> unat a" "unat a < unat net + 2 ^ (LENGTH('a) - len)"
  shows "in_prefix net len a"
proof -
  let ?k = "LENGTH('a) - len"
  have "take_bit ?k (unat net) = 0"
    using assms(2) by (metis unsigned_take_bit_eq unsigned_0)
  then obtain m where m: "unat net = 2 ^ ?k * m"
    by (metis take_bit_eq_0_iff dvdE)
  with assms(3,4) have "unat a div 2 ^ ?k = m"
    by (intro div_nat_eqI) (auto simp: algebra_simps)
  moreover have "unat net div 2 ^ ?k = m" by (simp add: m)
  ultimately have "unat (drop_bit ?k a) = unat (drop_bit ?k net)"
    unfolding unat_drop_bit_eq drop_bit_eq_div [where 'a = nat] by simp
  then show ?thesis by (simp add: in_prefix_def word_unat_eq_iff)
qed

lemma unat_mask_le: "unat (mask n :: 'a::len word) \<le> 2 ^ n - 1"
proof -
  have "unat (of_nat (mask n) :: 'a word) \<le> mask n" by (simp add: unat_of_nat)
  then show ?thesis unfolding of_nat_mask_eq by (simp add: mask_nat_def)
qed

lemma in_pool4_bounds:
  assumes "in_pool4 rng a"
  shows "unat (net4_network rng) + 3 \<le> unat a" "unat a < unat (net4_broadcast rng)"
proof -
  from assms obtain hi where hi: "last_usable_ipv4 rng = Some hi" "first_allocatable_ipv4 rng \<le> a" "a \<le> hi"
    by (auto simp: in_pool4_def)
  then have b: "unat (net4_network rng) < unat (net4_broadcast rng)" "hi = net4_broadcast rng - 1"
    by (auto simp: last_usable_ipv4_def word_less_nat_alt split: if_splits)
  then have "unat hi = unat (net4_broadcast rng) - 1"
    by (metis unat_minus_one less_nat_zero_code unsigned_0)
  then show lt: "unat a < unat (net4_broadcast rng)"
    using hi(3) b by (simp add: word_le_nat_alt)
  have "unat (net4_broadcast rng) < 2 ^ 32" using unsigned_less [of "net4_broadcast rng"] by simp
  then show "unat (net4_network rng) + 3 \<le> unat a"
    using hi(2) lt by (auto simp: first_allocatable_ipv4_def first_usable_ipv4_def word_le_nat_alt
        unat_saturating_add min_def split: if_splits)
qed

lemma in_pool4_contains:
  assumes "in_pool4 rng a" "ipv4_net_ok rng"
  shows "ip_net_contains (NetV4 rng) (V4 a)"
proof -
  let ?k = "32 - net4_prefix_len rng"
  have bc: "net4_broadcast rng = net4_network rng + mask ?k" using assms(2) by (simp add: ipv4_net_ok_def)
  have "unat (net4_network rng + mask ?k) \<le> unat (net4_network rng) + unat (mask ?k :: u32)"
    unfolding unat_word_ariths by (rule mod_less_eq_dividend)
  then have "unat (net4_broadcast rng) \<le> unat (net4_network rng) + (2 ^ ?k - 1)"
    using unat_mask_le [where 'a = 32, of ?k] unfolding bc by linarith
  with in_pool4_bounds [OF assms(1)] assms(2) show ?thesis
    using word_range_in_prefix [of "net4_prefix_len rng" "net4_network rng" a]
    by (simp add: ip_net_contains_def ipv4_net_ok_def)
qed

section \<open>Properties\<close>

definition sample_net4 :: ipv4_net where
  "sample_net4 = \<lparr>net4_network = 0xC6120000, net4_prefix_len = 24, net4_broadcast = 0xC61200FF\<rparr>"

definition sample_net6 :: ipv6_net where
  "sample_net6 = \<lparr>net6_network = 0xFD000000000000000000000000000000, net6_prefix_len = 64\<rparr>"

definition sample_store :: fake_ip_store where
  "sample_store = fake_ip_store_new sample_net4 sample_net6"

lemma sample_store_reachable: "reachable sample_net4 sample_net6 sample_store"
  unfolding sample_store_def by (rule reachable.init)

text \<open>The first address a fresh store hands out is the fourth of the network.\<close>

lemma sample_alloc:
  "allocate_or_refresh_ipv4 sample_store ''A.io.'' 60 5 = (Ok 0xC6120003,
     run_op (AllocV4 ''A.io.'' 60 5) sample_store)"
  by (simp add: sample_store_def fake_ip_store_new_def sample_net4_def allocate_or_refresh_ipv4_def
      prune_expired_entries_def allocate_next_ipv4_def last_usable_ipv4_def first_allocatable_ipv4_def
      first_usable_ipv4_def saturating_add_def clamp_ipv4_candidate_def allocate_loop_v4.simps Let_def)

text \<open>The same domain in other letters, asked for again while its lease lives.\<close>

lemma sample_second_alloc:
  "\<exists>a s'. allocate_or_refresh_ipv4 (run_op (AllocV4 ''A.io.'' 60 5) sample_store) ''a.IO'' 60 30 = (Ok a, s')"
proof -
  let ?s = "run_op (AllocV4 ''A.io.'' 60 5) sample_store"
  have n: "normalize_domain ''A.io.'' = ''a.io''" "normalize_domain ''a.IO'' = ''a.io''" by code_simp+
  have np: "\<not> mx_poisoned sample_store" "fake_ip_inv (mx_value sample_store)"
    using reachable_frame [OF sample_store_reachable] reachable_inv [OF sample_store_reachable] by auto
  note l = lease_of_alloc [OF np sample_alloc]
  have "map_of (fi_domain_to_entry_v4 (prune_expired_entries (mx_value ?s) 30)) ''a.io'' =
      Some \<lparr>fe4_ip = 0xC6120003, fe4_expires_at = 65\<rparr>"
    using pruned_lease [OF l(3,1), of 30] n by simp
  with l(2) n show ?thesis by (simp add: allocate_or_refresh_ipv4_def Let_def)
qed

text \<open>
  C6. In every state the store can reach, under any interleaving of allocations and look-ups, the maps
  from domains to addresses and back are inverse to each other in both families, and every
  address handed out lies in its pool.
\<close>

theorem fake_ip_maps_inverse:
  assumes "reachable rng4 rng6 s"
  shows "fake_ip_inv (mx_value s)"
  by (rule reachable_inv [OF assms])

theorem fake_ip_maps_inverse_witness: "fake_ip_inv (mx_value sample_store)"
  by (rule fake_ip_maps_inverse [OF sample_store_reachable])

text \<open>
  C7. Round trip: the address a domain was given resolves back to the domain until the lease
  expires, whatever allocations for other domains and look-ups happen in between.
\<close>

theorem fake_ip_round_trip:
  assumes "reachable rng4 rng6 s"
    and "allocate_or_refresh_ipv4 s domain ttl now = (Ok a, s')"
    and "\<forall>op \<in> set ops. op_time op < now + ttl \<and> \<not> renews (normalize_domain domain) op"
    and "t < now + ttl"
  shows "fst (resolve_domain (fold run_op ops s') (V4 a) t) = Some (normalize_domain domain)"
proof -
  have "\<not> mx_poisoned s" using reachable_frame [OF assms(1)] by simp
  note l = lease_of_alloc [OF this reachable_inv [OF assms(1)] assms(2)]
  from lease_run [OF l(3,1) assms(3)] l(2) assms(4) show ?thesis
    by (intro lease_resolves) (simp_all add: fold_run_frame)
qed

theorem fake_ip_round_trip_witness:
  "fst (resolve_domain (fold run_op [AllocV4 ''b.io'' 60 7, ResolveOp (V4 1) 20]
      (run_op (AllocV4 ''A.io.'' 60 5) sample_store)) (V4 0xC6120003) 64) = Some ''a.io''"
proof -
  have n: "normalize_domain ''A.io.'' = ''a.io''" "normalize_domain ''b.io'' = ''b.io''" by code_simp+
  show ?thesis
    using fake_ip_round_trip [OF sample_store_reachable sample_alloc,
        of "[AllocV4 ''b.io'' 60 7, ResolveOp (V4 1) 20]" 64] by (simp add: n)
qed

text \<open>
  C8. Two domains never hold the same address at the same time, and a domain that asks again
  before its lease expires gets the address it had.
\<close>

theorem fake_ip_injective_and_stable:
  assumes "reachable rng4 rng6 s"
    and "allocate_or_refresh_ipv4 s domain ttl now = (Ok a, s')"
    and "\<forall>op \<in> set ops. op_time op < now + ttl \<and> \<not> renews (normalize_domain domain) op"
    and "allocate_or_refresh_ipv4 (fold run_op ops s') domain' ttl' now' = (Ok a', s'')"
    and "now' < now + ttl"
  shows "a = a' \<longleftrightarrow> normalize_domain domain = normalize_domain domain'"
proof -
  let ?s = "fold run_op ops s'"
  have "\<not> mx_poisoned s" using reachable_frame [OF assms(1)] by simp
  note l = lease_of_alloc [OF this reachable_inv [OF assms(1)] assms(2)]
  have s: "lease4 ?s (normalize_domain domain) a (now + ttl)" "fake_ip_inv (mx_value ?s)" "\<not> mx_poisoned ?s"
    using lease_run [OF l(3,1) assms(3)] l(2) by (simp_all add: fold_run_frame)
  note pl = pruned_lease [OF s(2,1) assms(5)]
  note p = prune_eff(1) [OF s(2), of now']
  from s(3,2) show ?thesis
  proof (cases rule: allocate_ipv4_cases [where now = now' and domain = domain' and ttl = ttl'])
    case (refreshed e)
    with assms(4) have a': "a' = fe4_ip e" by simp
    show ?thesis using a' pl refreshed(1) paired_inj [OF p pl refreshed(1)] by auto
  next
    case (allocated b n)
    with assms(4) have "a' = b" by simp
    with allocated(1,3) pl pairedD(3) [OF p pl] show ?thesis by auto
  next
    case exhausted
    with assms(4) show ?thesis by simp
  qed
qed

theorem fake_ip_injective_and_stable_witness:
  "fst (allocate_or_refresh_ipv4 (run_op (AllocV4 ''A.io.'' 60 5) sample_store) ''a.IO'' 60 30) = Ok 0xC6120003"
proof -
  have n: "normalize_domain ''A.io.'' = ''a.io''" "normalize_domain ''a.IO'' = ''a.io''" by code_simp+
  obtain a' s'' where e: "allocate_or_refresh_ipv4 (run_op (AllocV4 ''A.io.'' 60 5) sample_store) ''a.IO'' 60 30 = (Ok a', s'')"
    using sample_second_alloc by blast
  from fake_ip_injective_and_stable [OF sample_store_reachable sample_alloc, of "[]" "''a.IO''" 60 30 a' s''] e n
  show ?thesis by simp
qed


text \<open>A pool with a single address, held by another domain, is exhausted.\<close>

definition tiny_net4 :: ipv4_net where
  "tiny_net4 = \<lparr>net4_network = 0xC6120000, net4_prefix_len = 31, net4_broadcast = 0xC6120001\<rparr>"


text \<open>
  An IPv4 address handed out lies in the configured network and is neither one of its first three
  addresses, which the gateway and the DNS server use, nor the broadcast address.
\<close>

theorem fake_ip_avoids_reserved:
  assumes "reachable rng4 rng6 s" "ipv4_net_ok rng4"
    and "allocate_or_refresh_ipv4 s domain ttl now = (Ok a, s')"
  shows "ip_net_contains (NetV4 rng4) (V4 a) \<and> unat (net4_network rng4) + 3 \<le> unat a
    \<and> unat a < unat (net4_broadcast rng4)"
proof -
  have np: "\<not> mx_poisoned s" using reachable_frame [OF assms(1)] by auto
  note l = lease_of_alloc [OF np reachable_inv [OF assms(1)] assms(3)]
  have "reachable rng4 rng6 s'"
    using reachable.step [OF assms(1), of "AllocV4 domain ttl now"] assms(3) by simp
  then have "fi_fake_ipv4_range (mx_value s') = rng4" using reachable_frame by blast
  then have "in_pool4 rng4 a" using lease_in_pool [OF l(3,1)] by simp
  then show ?thesis using in_pool4_bounds in_pool4_contains assms(2) by blast
qed

theorem fake_ip_avoids_reserved_witness:
  "ip_net_contains (NetV4 sample_net4) (V4 0xC6120003)
     \<and> unat (net4_network sample_net4) + 3 \<le> unat (0xC6120003 :: u32)
     \<and> unat (0xC6120003 :: u32) < unat (net4_broadcast sample_net4)"
  by (rule fake_ip_avoids_reserved [OF sample_store_reachable _ sample_alloc])
     (simp add: ipv4_net_ok_def sample_net4_def take_bit_eq_mod mask_eq_exp_minus_1)

end
