(* ===== verification/Nat_Table.thy ===== *)
theory Nat_Table
  imports Fake_Ip
begin

text \<open>
  The transparent NAT tables: \<^verbatim>\<open>src/src/traffic/shared/nat.rs\<close>. A table is generic in the address
  type; it is locked on every access, and a poisoned lock makes the operation fail without effect.
  \<^verbatim>\<open>HashMap::retain\<close> is a filter of the association list, \<^verbatim>\<open>len\<close> its length.
\<close>

section \<open>Definitions\<close>

text \<open>Seconds, in the unit of \<open>instant\<close>.\<close>

definition secs :: "nat \<Rightarrow> duration" where
  "secs n = n * 1000000000"

definition NAT_ENTRY_ESTABLISHED_TTL :: duration where
  "NAT_ENTRY_ESTABLISHED_TTL = secs 300"

definition NAT_ENTRY_CLOSING_TTL :: duration where
  "NAT_ENTRY_CLOSING_TTL = secs 30"

record 'a nat_entry =
  ne_destination_ip :: 'a
  ne_destination_port :: u16
  ne_expires_at :: instant

type_synonym 'a nat_table = "(('a \<times> u16) \<times> 'a nat_entry) list mutex"

definition new_transparent_nat_table :: "'a nat_table" where
  "new_transparent_nat_table = \<lparr>mx_poisoned = False, mx_value = []\<rparr>"

definition upsert_nat_mapping ::
  "'a nat_table \<Rightarrow> 'a \<Rightarrow> u16 \<Rightarrow> 'a \<Rightarrow> u16 \<Rightarrow> instant \<Rightarrow> bool \<times> 'a nat_table" where
  "upsert_nat_mapping t client_ip client_port destination_ip destination_port expires_at =
     (if mx_poisoned t then (False, t)
      else (True, t\<lparr>mx_value := AList.update (client_ip, client_port)
              \<lparr>ne_destination_ip = destination_ip, ne_destination_port = destination_port,
               ne_expires_at = expires_at\<rparr> (mx_value t)\<rparr>))"

definition touch_nat_mapping ::
  "'a nat_table \<Rightarrow> 'a \<Rightarrow> u16 \<Rightarrow> instant \<Rightarrow> instant \<Rightarrow> ('a \<times> u16) option \<times> 'a nat_table" where
  "touch_nat_mapping t client_ip client_port now expires_at =
     (if mx_poisoned t then (None, t)
      else (let key = (client_ip, client_port)
            in case map_of (mx_value t) key of
                 None \<Rightarrow> (None, t)
               | Some entry \<Rightarrow>
                   if ne_expires_at entry \<le> now
                   then (None, t\<lparr>mx_value := AList.delete key (mx_value t)\<rparr>)
                   else (Some (ne_destination_ip entry, ne_destination_port entry),
                         t\<lparr>mx_value := AList.update key (entry\<lparr>ne_expires_at := expires_at\<rparr>) (mx_value t)\<rparr>)))"

definition prune_nat_table :: "'a nat_table \<Rightarrow> instant \<Rightarrow> nat \<times> 'a nat_table" where
  "prune_nat_table t now =
     (if mx_poisoned t then (0, t)
      else (let before = length (mx_value t);
                kept = filter (\<lambda>(_, entry). ne_expires_at entry > now) (mx_value t)
            in (before - length kept, t\<lparr>mx_value := kept\<rparr>)))"

text \<open>One tick of the cleanup task over both tables.\<close>

definition nat_cleanup_tick ::
  "u32 nat_table \<Rightarrow> u128 nat_table \<Rightarrow> instant \<Rightarrow> (nat \<times> nat) \<times> u32 nat_table \<times> u128 nat_table" where
  "nat_cleanup_tick t4 t6 now =
     (let (expired4, t4) = prune_nat_table t4 now;
          (expired6, t6) = prune_nat_table t6 now
      in ((expired4, expired6), t4, t6))"

section \<open>Abstract view\<close>

text \<open>
  What a client can observe of a table at a time: the destinations of the mappings that have not
  expired, with their expiry.
\<close>

definition live_nat :: "'a nat_table \<Rightarrow> instant \<Rightarrow> 'a \<times> u16 \<Rightarrow> 'a nat_entry option" where
  "live_nat t now k = filter_opt (\<lambda>e. now < ne_expires_at e) (map_of (mx_value t) k)"

definition nat_ok :: "'a nat_table \<Rightarrow> bool" where
  "nat_ok t \<longleftrightarrow> \<not> mx_poisoned t \<and> distinct (map fst (mx_value t))"

datatype ('k, 'v) table_op = PutOp 'k 'v | TouchOp 'k instant instant | PruneOp instant

fun op_at :: "('k, 'v) table_op \<Rightarrow> instant" where
  "op_at (PutOp _ _) = 0"
| "op_at (TouchOp _ now _) = now"
| "op_at (PruneOp now) = now"

fun op_key :: "('k, 'v) table_op \<Rightarrow> 'k option" where
  "op_key (PutOp k _) = Some k"
| "op_key (TouchOp k _ _) = Some k"
| "op_key (PruneOp _) = None"

locale expiring_table =
  fixes put :: "'t \<Rightarrow> 'k \<Rightarrow> 'v \<Rightarrow> 't"
    and touch :: "'t \<Rightarrow> 'k \<Rightarrow> instant \<Rightarrow> instant \<Rightarrow> 'd option \<times> 't"
    and prune :: "'t \<Rightarrow> instant \<Rightarrow> 't"
    and live :: "'t \<Rightarrow> instant \<Rightarrow> 'k \<Rightarrow> 'v option"
    and ok :: "'t \<Rightarrow> bool"
    and dest :: "'v \<Rightarrow> 'd"
    and expiry :: "'v \<Rightarrow> instant"
    and renew :: "instant \<Rightarrow> 'v \<Rightarrow> 'v"
  assumes live_expiry: "live t now k = Some v \<Longrightarrow> now < expiry v"
    and live_later: "now \<le> t' \<Longrightarrow> live t t' k = filter_opt (\<lambda>v. t' < expiry v) (live t now k)"
    and ok_put: "ok t \<Longrightarrow> ok (put t k v)"
    and live_put: "ok t \<Longrightarrow> live (put t k v) now k' =
      (if k' = k then filter_opt (\<lambda>v. now < expiry v) (Some v) else live t now k')"
    and ok_touch: "ok t \<Longrightarrow> ok (snd (touch t k now e))"
    and touch_result: "ok t \<Longrightarrow> fst (touch t k now e) = map_option dest (live t now k)"
    and live_touch: "ok t \<Longrightarrow> now \<le> t' \<Longrightarrow> live (snd (touch t k now e)) t' k' =
      (if k' = k then filter_opt (\<lambda>v. t' < expiry v) (map_option (renew e) (live t now k)) else live t t' k')"
    and ok_prune: "ok t \<Longrightarrow> ok (prune t now)"
    and live_prune: "ok t \<Longrightarrow> now \<le> t' \<Longrightarrow> live (prune t now) t' k = live t t' k"
    and dest_renew: "dest (renew e v) = dest v"
    and expiry_renew: "expiry (renew e v) = e"
begin

primrec run :: "('k, 'v) table_op \<Rightarrow> 't \<Rightarrow> 't" where
  "run (PutOp k v) t = put t k v"
| "run (TouchOp k now e) t = snd (touch t k now e)"
| "run (PruneOp now) t = prune t now"

lemma ok_run: "ok t \<Longrightarrow> ok (fold run ops t)"
proof (induction ops arbitrary: t)
  case (Cons op ops)
  have "ok (run op t)" using Cons.prems by (cases op) (simp_all add: ok_put ok_touch ok_prune)
  with Cons.IH show ?case by simp
qed simp

text \<open>Prunes and accesses under other keys do not change what a client sees at a later time.\<close>

lemma live_run:
  assumes "ok t" "\<forall>op \<in> set ops. op_at op \<le> t' \<and> op_key op \<noteq> Some k"
  shows "live (fold run ops t) t' k = live t t' k"
  using assms
proof (induction ops arbitrary: t)
  case (Cons op ops)
  have op: "op_at op \<le> t'" "op_key op \<noteq> Some k" using Cons.prems(2) by simp_all
  have "ok (run op t)" using Cons.prems(1) by (cases op) (simp_all add: ok_put ok_touch ok_prune)
  then have "live (fold run ops (run op t)) t' k = live (run op t) t' k"
    using Cons.prems(2) by (intro Cons.IH) simp_all
  also have "\<dots> = live t t' k"
    using op Cons.prems(1) by (cases op) (simp_all add: live_put live_touch live_prune)
  finally show ?case by simp
qed simp

lemma put_touch:
  assumes "ok t" "\<forall>op \<in> set ops. op_at op \<le> t' \<and> op_key op \<noteq> Some k" "t' < expiry v"
  shows "fst (touch (fold run ops (put t k v)) k t' e) = Some (dest v)"
  using live_run [OF ok_put [OF assms(1)] assms(2), of k v] assms
  by (simp add: touch_result ok_run ok_put live_put filter_opt_def)

lemma touch_keeps_alive:
  assumes "ok t" "live t now k = Some v" "now \<le> t'" "t' < e"
    and "\<forall>op \<in> set ops. op_at op \<le> t' \<and> op_key op \<noteq> Some k"
  shows "fst (touch (fold run ops (snd (touch t k now e))) k t' e') = Some (dest v)"
  using live_run [OF ok_touch [OF assms(1)] assms(5)] assms
  by (simp add: touch_result ok_run ok_touch live_touch filter_opt_def expiry_renew dest_renew)

end

section \<open>The NAT tables are expiring tables\<close>

definition nat_put :: "'a nat_table \<Rightarrow> 'a \<times> u16 \<Rightarrow> 'a nat_entry \<Rightarrow> 'a nat_table" where
  "nat_put t k v = snd (upsert_nat_mapping t (fst k) (snd k) (ne_destination_ip v) (ne_destination_port v)
     (ne_expires_at v))"

definition nat_dest :: "'a nat_entry \<Rightarrow> 'a \<times> u16" where
  "nat_dest e = (ne_destination_ip e, ne_destination_port e)"

lemma live_nat_filter:
  assumes "distinct (map fst l)"
  shows "map_of (filter (\<lambda>(_, e). P e) l) k = filter_opt P (map_of l k)"
  using assms
proof (induction l)
  case (Cons x l)
  have "map_of l (fst x) = None" using Cons.prems by (simp add: map_of_eq_None_iff)
  with Cons show ?case by (cases x) (auto simp: filter_opt_def)
qed (simp add: filter_opt_def)

lemma filter_opt_filter_opt: "filter_opt P (filter_opt Q x) = filter_opt (\<lambda>v. Q v \<and> P v) x"
  by (cases x) (simp_all add: filter_opt_def)

interpretation nat: expiring_table nat_put "\<lambda>t k. touch_nat_mapping t (fst k) (snd k)"
  "\<lambda>t now. snd (prune_nat_table t now)" live_nat nat_ok nat_dest ne_expires_at
  "\<lambda>e. ne_expires_at_update (\<lambda>_. e)"
proof (unfold_locales, goal_cases)
  case 2
  then show ?case unfolding live_nat_def filter_opt_filter_opt
    by (auto simp: filter_opt_def split: option.splits)
next
  case (7 t now t' k e k')
  then show ?case
    by (cases "map_of (mx_value t) k")
       (auto simp: live_nat_def nat_ok_def touch_nat_mapping_def Let_def alist_simps filter_opt_def
         split: option.splits)
next
  case (9 t now t' k)
  then show ?case
    by (simp add: live_nat_def nat_ok_def prune_nat_table_def Let_def live_nat_filter filter_opt_filter_opt)
       (auto simp: filter_opt_def split: option.splits)
qed (auto simp: live_nat_def nat_ok_def nat_put_def upsert_nat_mapping_def touch_nat_mapping_def
    prune_nat_table_def nat_dest_def Let_def alist_simps filter_opt_def
    distinct_map_filter split: option.splits if_splits prod.splits)

section \<open>Properties\<close>

lemma filter_expired_count:
  assumes "distinct (map fst l)"
  shows "length l - length (filter (\<lambda>(_, e). \<not> P e) l) = card {k. \<exists>e. map_of l k = Some e \<and> P e}"
proof -
  have "length l - length (filter (\<lambda>(_, e). \<not> P e) l) = length (filter (\<lambda>(_, e). P e) l)"
    using sum_length_filter_compl [of "\<lambda>(_, e). P e" l] by (simp add: case_prod_unfold)
  also have "\<dots> = length (map fst (filter (\<lambda>(_, e). P e) l))" by simp
  also have "\<dots> = card (set (map fst (filter (\<lambda>(_, e). P e) l)))"
    using assms by (intro distinct_card [symmetric] distinct_map_filter)
  also have "set (map fst (filter (\<lambda>(_, e). P e) l)) = {k. \<exists>e. map_of l k = Some e \<and> P e}"
    using assms by force
  finally show ?thesis .
qed

text \<open>
  C12. A redirected connection keeps its original destination: after a mapping has been stored, any
  sequence of other connections, look-ups and cleanup ticks leaves it to be found until it expires.
\<close>

theorem nat_mapping_survives:
  assumes "nat_ok t" "\<forall>op \<in> set ops. op_at op \<le> now \<and> op_key op \<noteq> Some (client_ip, client_port)"
    and "now < expires_at"
  shows "fst (touch_nat_mapping
      (fold nat.run ops (snd (upsert_nat_mapping t client_ip client_port dst_ip dst_port expires_at)))
      client_ip client_port now expires_at') = Some (dst_ip, dst_port)"
  using nat.put_touch [OF assms(1,2), of "\<lparr>ne_destination_ip = dst_ip, ne_destination_port = dst_port,
      ne_expires_at = expires_at\<rparr>"] assms(3)
  by (simp add: nat_put_def nat_dest_def)

lemma new_table_ok: "nat_ok new_transparent_nat_table"
  by (simp add: nat_ok_def new_transparent_nat_table_def)

theorem nat_mapping_survives_witness:
  "fst (touch_nat_mapping (fold nat.run [PruneOp 50, TouchOp (0x0A000003, 50000) 60 99]
      (snd (upsert_nat_mapping new_transparent_nat_table (0x0A000002 :: u32) 50000 0xCB007105 443 100)))
      0x0A000002 50000 70 200) = Some (0xCB007105, 443)"
  by (rule nat_mapping_survives [OF new_table_ok]) simp_all

text \<open>
  The cleanup removes exactly the expired mappings, reports how many they were, and is invisible:
  at no later time does a table that was pruned show a client anything else than before.
\<close>

theorem nat_cleanup_exact:
  assumes "nat_ok t" "now \<le> later"
  shows "fst (prune_nat_table t now) =
      card {k. \<exists>e. map_of (mx_value t) k = Some e \<and> ne_expires_at e \<le> now}
    \<and> fst (touch_nat_mapping (snd (prune_nat_table t now)) client_ip client_port later e') =
      fst (touch_nat_mapping t client_ip client_port later e')"
proof
  show "fst (prune_nat_table t now) =
      card {k. \<exists>e. map_of (mx_value t) k = Some e \<and> ne_expires_at e \<le> now}"
    using assms(1) filter_expired_count [of "mx_value t" "\<lambda>e. ne_expires_at e \<le> now"]
    by (simp add: prune_nat_table_def nat_ok_def Let_def not_le)
  show "fst (touch_nat_mapping (snd (prune_nat_table t now)) client_ip client_port later e') =
      fst (touch_nat_mapping t client_ip client_port later e')"
    using nat.touch_result [OF nat.ok_prune [OF assms(1), of now], of "(client_ip, client_port)" later e']
      nat.touch_result [OF assms(1), of "(client_ip, client_port)" later e'] nat.live_prune [OF assms]
    by simp
qed

theorem nat_cleanup_exact_witness:
  "fst (prune_nat_table (snd (upsert_nat_mapping new_transparent_nat_table (1 :: u32) 5 2 443 100)) 100) =
     card {k. \<exists>e. map_of (mx_value (snd (upsert_nat_mapping new_transparent_nat_table (1 :: u32) 5 2 443 100))) k
       = Some e \<and> ne_expires_at e \<le> 100}
   \<and> fst (touch_nat_mapping
       (snd (prune_nat_table (snd (upsert_nat_mapping new_transparent_nat_table (1 :: u32) 5 2 443 100)) 100))
       1 5 120 300) =
     fst (touch_nat_mapping (snd (upsert_nat_mapping new_transparent_nat_table (1 :: u32) 5 2 443 100)) 1 5 120 300)"
  by (rule nat_cleanup_exact)
     (simp_all add: nat_ok_def upsert_nat_mapping_def new_transparent_nat_table_def)

end
