(* ===== verification/Packet.thy ===== *)
theory Packet
  imports Net_Types
begin

text \<open>
  Raw packets: \<^verbatim>\<open>src/src/traffic/shared/family/\<close> (the two address families) and
  \<^verbatim>\<open>src/src/traffic/shared/sniff.rs\<close> (host names in payloads). A packet is its list of bytes.
  A slice assignment that would panic out of range is \<open>None\<close>. The trait \<^verbatim>\<open>IpPacketFamily\<close> is the
  record \<open>packet_family\<close> of its functions with an instance per family; the header parsers and the packet builder
  of the crate \<^verbatim>\<open>etherparse\<close> are the fields of \<open>packet_lib\<close>.
\<close>

section \<open>Bytes\<close>

type_synonym bytes = "u8 list"

fun to_digits :: "nat \<Rightarrow> nat \<Rightarrow> nat list" where
  "to_digits 0 x = []"
| "to_digits (Suc n) x = to_digits n (x div 256) @ [x mod 256]"

definition to_be_bytes :: "nat \<Rightarrow> 'a::len word \<Rightarrow> bytes" where
  "to_be_bytes n w = map of_nat (to_digits n (unat w))"

definition from_be_bytes :: "bytes \<Rightarrow> 'a::len word" where
  "from_be_bytes bs = of_nat (foldl (\<lambda>acc b. acc * 256 + unat b) 0 bs)"

text \<open>\<^verbatim>\<open>data.get(i)\<close> and \<^verbatim>\<open>data.get(i..j)\<close>.\<close>

definition get :: "bytes \<Rightarrow> nat \<Rightarrow> u8 option" where
  "get data i = (if i < length data then Some (data ! i) else None)"

definition get_range :: "bytes \<Rightarrow> nat \<Rightarrow> nat \<Rightarrow> bytes option" where
  "get_range data i j = (if i \<le> j \<and> j \<le> length data then Some (take (j - i) (drop i data)) else None)"

text \<open>\<^verbatim>\<open>data[off..off + bs.len()].copy_from_slice(bs)\<close>.\<close>

definition copy_into :: "nat \<Rightarrow> bytes \<Rightarrow> bytes \<Rightarrow> bytes option" where
  "copy_into off bs data =
     (if off + length bs \<le> length data then Some (take off data @ bs @ drop (off + length bs) data) else None)"

section \<open>Address families\<close>

record packet_lib =
  ep_ipv4_header :: "bytes \<Rightarrow> (u8 \<times> nat) option"
  ep_ipv6_header :: "bytes \<Rightarrow> (u8 \<times> nat) option"
  ep_tcp_header :: "bytes \<Rightarrow> (nat \<times> bool \<times> bool \<times> bool) option"
  ep_build_udp4 :: "u32 \<Rightarrow> u32 \<Rightarrow> u8 \<Rightarrow> u16 \<Rightarrow> u16 \<Rightarrow> bytes \<Rightarrow> bytes option"
  ep_build_udp6 :: "u128 \<Rightarrow> u128 \<Rightarrow> u8 \<Rightarrow> u16 \<Rightarrow> u16 \<Rightarrow> bytes \<Rightarrow> bytes option"

definition IP_TCP :: u8 where "IP_TCP = 6"
definition IP_UDP :: u8 where "IP_UDP = 17"

record ('a, 'r) packet_family =
  pf_read_src_ip :: "bytes \<Rightarrow> 'a option"
  pf_read_dst_ip :: "bytes \<Rightarrow> 'a option"
  pf_to_ip_addr :: "'a \<Rightarrow> ip_addr"
  pf_set_request_destination_ip :: "bytes \<Rightarrow> 'a \<Rightarrow> bytes option"
  pf_set_response_source_ip :: "bytes \<Rightarrow> 'a \<Rightarrow> bytes option"
  pf_read_tcp_ip_header_len :: "bytes \<Rightarrow> nat option"
  pf_read_udp_ip_header_len :: "bytes \<Rightarrow> nat option"
  pf_build_udp :: "'a \<Rightarrow> 'a \<Rightarrow> u8 \<Rightarrow> u16 \<Rightarrow> u16 \<Rightarrow> bytes \<Rightarrow> bytes option"
  pf_range_contains :: "'r \<Rightarrow> 'a \<Rightarrow> bool"

definition read_src_ip_v4 :: "bytes \<Rightarrow> u32 option" where
  "read_src_ip_v4 data =
     (if length data \<ge> 16 then Some (from_be_bytes [data ! 12, data ! 13, data ! 14, data ! 15]) else None)"

definition read_dst_ip_v4 :: "bytes \<Rightarrow> u32 option" where
  "read_dst_ip_v4 data =
     (if length data \<ge> 20 then Some (from_be_bytes [data ! 16, data ! 17, data ! 18, data ! 19]) else None)"

definition set_request_destination_ip_v4 :: "bytes \<Rightarrow> u32 \<Rightarrow> bytes option" where
  "set_request_destination_ip_v4 data src_ip = copy_into 16 (to_be_bytes 4 src_ip) data"

definition set_response_source_ip_v4 :: "bytes \<Rightarrow> u32 \<Rightarrow> bytes option" where
  "set_response_source_ip_v4 data orig_dst_ip = copy_into 12 (to_be_bytes 4 orig_dst_ip) data"

definition read_ip_header_len_v4 :: "packet_lib \<Rightarrow> u8 \<Rightarrow> bytes \<Rightarrow> nat option" where
  "read_ip_header_len_v4 K proto data =
     (case ep_ipv4_header K data of
        Some (p, len) \<Rightarrow> if p = proto then Some len else None
      | None \<Rightarrow> None)"

definition ipv4_family :: "packet_lib \<Rightarrow> ext_lib \<Rightarrow> (u32, ipv4_net) packet_family" where
  "ipv4_family K L =
     \<lparr>pf_read_src_ip = read_src_ip_v4, pf_read_dst_ip = read_dst_ip_v4, pf_to_ip_addr = V4,
      pf_set_request_destination_ip = set_request_destination_ip_v4,
      pf_set_response_source_ip = set_response_source_ip_v4,
      pf_read_tcp_ip_header_len = read_ip_header_len_v4 K IP_TCP,
      pf_read_udp_ip_header_len = read_ip_header_len_v4 K IP_UDP,
      pf_build_udp = ep_build_udp4 K,
      pf_range_contains = (\<lambda>r a. ipnet_contains L (NetV4 r) (V4 a))\<rparr>"

definition read_src_ip_v6 :: "bytes \<Rightarrow> u128 option" where
  "read_src_ip_v6 data = map_option from_be_bytes (get_range data 8 24)"

definition read_dst_ip_v6 :: "bytes \<Rightarrow> u128 option" where
  "read_dst_ip_v6 data = map_option from_be_bytes (get_range data 24 40)"

definition set_request_destination_ip_v6 :: "bytes \<Rightarrow> u128 \<Rightarrow> bytes option" where
  "set_request_destination_ip_v6 data src_ip = copy_into 24 (to_be_bytes 16 src_ip) data"

definition set_response_source_ip_v6 :: "bytes \<Rightarrow> u128 \<Rightarrow> bytes option" where
  "set_response_source_ip_v6 data orig_dst_ip = copy_into 8 (to_be_bytes 16 orig_dst_ip) data"

definition read_ip_header_len_v6 :: "packet_lib \<Rightarrow> u8 \<Rightarrow> bytes \<Rightarrow> nat option" where
  "read_ip_header_len_v6 K proto data =
     (case ep_ipv6_header K data of
        Some (p, len) \<Rightarrow> if p = proto then Some len else None
      | None \<Rightarrow> None)"

definition ipv6_family :: "packet_lib \<Rightarrow> ext_lib \<Rightarrow> (u128, ipv6_net) packet_family" where
  "ipv6_family K L =
     \<lparr>pf_read_src_ip = read_src_ip_v6, pf_read_dst_ip = read_dst_ip_v6, pf_to_ip_addr = V6,
      pf_set_request_destination_ip = set_request_destination_ip_v6,
      pf_set_response_source_ip = set_response_source_ip_v6,
      pf_read_tcp_ip_header_len = read_ip_header_len_v6 K IP_TCP,
      pf_read_udp_ip_header_len = read_ip_header_len_v6 K IP_UDP,
      pf_build_udp = ep_build_udp6 K,
      pf_range_contains = (\<lambda>r a. ipnet_contains L (NetV6 r) (V6 a))\<rparr>"

definition tcp_header_len :: "('a, 'r) packet_family \<Rightarrow> bytes \<Rightarrow> nat option" where
  "tcp_header_len F data = pf_read_tcp_ip_header_len F data"

definition udp_header_len :: "('a, 'r) packet_family \<Rightarrow> bytes \<Rightarrow> nat option" where
  "udp_header_len F data =
     (case pf_read_udp_ip_header_len F data of
        None \<Rightarrow> None
      | Some ip_header_len \<Rightarrow> if length data \<ge> ip_header_len + 8 then Some ip_header_len else None)"

definition build_udp_response_packet ::
  "('a, 'r) packet_family \<Rightarrow> 'a \<Rightarrow> 'a \<Rightarrow> u16 \<Rightarrow> u16 \<Rightarrow> bytes \<Rightarrow> bytes option" where
  "build_udp_response_packet F request_src_ip request_dst_ip request_src_port request_dst_port payload =
     pf_build_udp F request_dst_ip request_src_ip 64 request_dst_port request_src_port payload"

definition family_contains :: "('a, 'r) packet_family \<Rightarrow> 'r \<Rightarrow> 'a \<Rightarrow> bool" where
  "family_contains F r a = pf_range_contains F r a"

section \<open>Host names in payloads\<close>

text \<open>\<^verbatim>\<open>core::str::from_utf8\<close>: the well-formed byte sequences of the Unicode standard.\<close>

fun utf8_valid :: "nat list \<Rightarrow> bool" where
  "utf8_valid [] = True"
| "utf8_valid (b # bs) =
     (if b < 0x80 then utf8_valid bs
      else case bs of
             c # cs \<Rightarrow>
               if 0xC2 \<le> b \<and> b \<le> 0xDF then 0x80 \<le> c \<and> c \<le> 0xBF \<and> utf8_valid cs
               else (case cs of
                       d # ds \<Rightarrow>
                         if 0xE0 \<le> b \<and> b \<le> 0xEF
                         then (if b = 0xE0 then 0xA0 else 0x80) \<le> c \<and> c \<le> (if b = 0xED then 0x9F else 0xBF)
                              \<and> 0x80 \<le> d \<and> d \<le> 0xBF \<and> utf8_valid ds
                         else (case ds of
                                 e # es \<Rightarrow>
                                   0xF0 \<le> b \<and> b \<le> 0xF4
                                   \<and> (if b = 0xF0 then 0x90 else 0x80) \<le> c \<and> c \<le> (if b = 0xF4 then 0x8F else 0xBF)
                                   \<and> 0x80 \<le> d \<and> d \<le> 0xBF \<and> 0x80 \<le> e \<and> e \<le> 0xBF \<and> utf8_valid es
                               | [] \<Rightarrow> False)
                     | [] \<Rightarrow> False)
           | [] \<Rightarrow> False)"

definition from_utf8 :: "bytes \<Rightarrow> string option" where
  "from_utf8 bs = (if utf8_valid (map unat bs) then Some (map (\<lambda>b. char_of (unat b)) bs) else None)"

definition byte_of :: "char \<Rightarrow> u8" where
  "byte_of c = of_nat (of_char c)"

definition lower_byte :: "u8 \<Rightarrow> u8" where
  "lower_byte b = (if 65 \<le> b \<and> b \<le> 90 then b + 32 else b)"

definition HOST_KEY :: bytes where
  "HOST_KEY = map byte_of ''Host: ''"

text \<open>\<^verbatim>\<open>windows(6).position(..)\<close>: the first offset at which the six bytes match.\<close>

definition window_position :: "bytes \<Rightarrow> nat option" where
  "window_position payload =
     find (\<lambda>i. map lower_byte (take 6 (drop i payload)) = map lower_byte HOST_KEY)
       [0..<length payload + 1 - 6]"

definition extract_http_host :: "bytes \<Rightarrow> string option" where
  "extract_http_host payload =
     (case window_position payload of
        None \<Rightarrow> None
      | Some pos \<Rightarrow>
          (let start = pos + 6
           in from_utf8 (takeWhile (\<lambda>b. \<not> (b = 13 \<or> b = 10)) (drop start payload))))"

definition be16_at :: "bytes \<Rightarrow> nat \<Rightarrow> nat option" where
  "be16_at payload offset =
     Option.bind (get payload offset) (\<lambda>hi.
     Option.bind (get payload (offset + 1)) (\<lambda>lo. Some (unat hi * 256 + unat lo)))"

text \<open>The \<^verbatim>\<open>while\<close> loop over the extensions; each round moves the offset by at least four.\<close>

function sni_loop :: "bytes \<Rightarrow> nat \<Rightarrow> nat \<Rightarrow> string option" where
  "sni_loop payload offset ext_end =
     (if offset + 3 < ext_end
      then (case be16_at payload offset of
              None \<Rightarrow> None
            | Some ext_type \<Rightarrow>
                (case be16_at payload (offset + 2) of
                   None \<Rightarrow> None
                 | Some ext_data_len \<Rightarrow>
                     (let offset' = offset + 4
                      in if ext_type = 0
                         then (case get payload (offset' + 2) of
                                 None \<Rightarrow> None
                               | Some name_type \<Rightarrow>
                                   if name_type = 0
                                   then (case be16_at payload (offset' + 3) of
                                           None \<Rightarrow> None
                                         | Some name_len \<Rightarrow>
                                             Option.bind (get_range payload (offset' + 5) (offset' + 5 + name_len))
                                               from_utf8)
                                   else sni_loop payload (offset' + ext_data_len) ext_end)
                         else sni_loop payload (offset' + ext_data_len) ext_end)))
      else None)"
  by pat_completeness auto
termination by (relation "measure (\<lambda>(p, off, e). e - off)") auto

declare sni_loop.simps [simp del]

definition extract_tls_sni :: "bytes \<Rightarrow> string option" where
  "extract_tls_sni payload =
     (if length payload \<le> 43 \<or> payload ! 0 \<noteq> 0x16 \<or> payload ! 1 \<noteq> 0x03 \<or> payload ! 5 \<noteq> 0x01 then None
      else
        Option.bind (get payload 43) (\<lambda>session_id_len.
        let offset = 43 + (1 + unat session_id_len)
        in Option.bind (be16_at payload offset) (\<lambda>cipher_len.
           let offset = offset + (2 + cipher_len)
           in Option.bind (get payload offset) (\<lambda>comp_len.
              let offset = offset + (1 + unat comp_len)
              in Option.bind (be16_at payload offset) (\<lambda>ext_len.
                 let offset = offset + 2
                 in sni_loop payload offset (offset + ext_len))))))"

definition extract_host :: "bytes \<Rightarrow> string option" where
  "extract_host payload = opt_or_else (extract_http_host payload) (extract_tls_sni payload)"

section \<open>Facts about bytes\<close>

lemma length_to_digits [simp]: "length (to_digits n x) = n"
  by (induction n arbitrary: x) simp_all

lemma length_to_be_bytes [simp]: "length (to_be_bytes n w) = n"
  by (simp add: to_be_bytes_def)

lemma to_digits_bound: "d \<in> set (to_digits n x) \<Longrightarrow> d < 256"
  by (induction n arbitrary: x) auto

lemma foldl_digits: "foldl (\<lambda>acc b. acc * 256 + b) 0 (to_digits n x) = x mod 256 ^ n"
proof (induction n arbitrary: x)
  case (Suc n)
  have "x div 256 mod 256 ^ n * 256 + x mod 256 = x mod (256 * 256 ^ n)"
    by (simp add: mod_mult2_eq)
  with Suc show ?case by simp
qed simp

lemma map_unat_digits: "map (\<lambda>d. unat (of_nat d :: u8)) (to_digits n x) = to_digits n x"
  by (rule map_idI) (auto simp: unat_of_nat dest: to_digits_bound)

lemma from_to_be_bytes:
  assumes "256 ^ n = (2 :: nat) ^ LENGTH('a)"
  shows "from_be_bytes (to_be_bytes n w) = (w :: 'a::len word)"
proof -
  have "foldl (\<lambda>acc b. acc * 256 + unat b) 0 (to_be_bytes n w) =
      foldl (\<lambda>acc b. acc * 256 + b) 0 (map (\<lambda>d. unat (of_nat d :: u8)) (to_digits n (unat w)))"
    by (simp add: to_be_bytes_def foldl_map)
  also have "\<dots> = unat w mod 256 ^ n" by (simp add: map_unat_digits foldl_digits)
  also have "\<dots> = unat w" using unsigned_less [of w] by (simp add: assms)
  finally show ?thesis by (simp add: from_be_bytes_def)
qed

lemma from_to_be_bytes_sized [simp]:
  "from_be_bytes (to_be_bytes 2 p) = (p :: u16)"
  "from_be_bytes (to_be_bytes 4 a) = (a :: u32)"
  "from_be_bytes (to_be_bytes 16 b) = (b :: u128)"
  by (rule from_to_be_bytes, simp)+

lemma copy_into_cases:
  assumes "off + length bs \<le> length data"
  obtains data' where "copy_into off bs data = Some data'" "length data' = length data"
    "take (length bs) (drop off data') = bs"
    "\<And>i. i < off \<or> off + length bs \<le> i \<Longrightarrow> i < length data \<Longrightarrow> data' ! i = data ! i"
    "\<And>n. off + length bs \<le> n \<Longrightarrow> drop n data' = drop n data" "\<And>n. n \<le> off \<Longrightarrow> take n data' = take n data"
proof
  let ?d = "take off data @ bs @ drop (off + length bs) data"
  show "copy_into off bs data = Some ?d" using assms by (simp add: copy_into_def)
  show "length ?d = length data" using assms by simp
  show "take (length bs) (drop off ?d) = bs" using assms by simp
  show "?d ! i = data ! i" if "i < off \<or> off + length bs \<le> i" "i < length data" for i
    using that assms by (auto simp: nth_append)
  show "drop n ?d = drop n data" if "off + length bs \<le> n" for n using that assms by simp
  show "take n ?d = take n data" if "n \<le> off" for n using that assms by simp
qed

lemma four_bytes: "i + 4 \<le> length d \<Longrightarrow> [d ! i, d ! (i + 1), d ! (i + 2), d ! (i + 3)] = take 4 (drop i d)"
  by (rule nth_equalityI) (auto simp: less_Suc_eq numeral_eq_Suc)

lemma read_v4_take:
  "read_src_ip_v4 d = (if 16 \<le> length d then Some (from_be_bytes (take 4 (drop 12 d))) else None)"
  "read_dst_ip_v4 d = (if 20 \<le> length d then Some (from_be_bytes (take 4 (drop 16 d))) else None)"
  using four_bytes [of 12 d] four_bytes [of 16 d] by (simp_all add: read_src_ip_v4_def read_dst_ip_v4_def)

lemma read_v6_take:
  "read_src_ip_v6 d = (if 24 \<le> length d then Some (from_be_bytes (take 16 (drop 8 d))) else None)"
  "read_dst_ip_v6 d = (if 40 \<le> length d then Some (from_be_bytes (take 16 (drop 24 d))) else None)"
  by (simp_all add: read_src_ip_v6_def read_dst_ip_v6_def get_range_def)

section \<open>The contract of a family\<close>

text \<open>
  Reading back what was set, the other address untouched, everything past the fixed part of the
  header untouched, lengths kept.
\<close>

locale ip_family =
  fixes read_src :: "bytes \<Rightarrow> 'a option"
    and read_dst :: "bytes \<Rightarrow> 'a option"
    and set_dst :: "bytes \<Rightarrow> 'a \<Rightarrow> bytes option"
    and set_src :: "bytes \<Rightarrow> 'a \<Rightarrow> bytes option"
    and hdr :: nat
  assumes read_total: "hdr \<le> length d \<Longrightarrow> (\<exists>a. read_src d = Some a) \<and> (\<exists>b. read_dst d = Some b)"
    and read_dst_len: "read_dst d = Some b \<Longrightarrow> hdr \<le> length d"
    and read_local: "take hdr d = take hdr d' \<Longrightarrow> read_src d = read_src d' \<and> read_dst d = read_dst d'"
    and set_dst: "hdr \<le> length d \<Longrightarrow> \<exists>d'. set_dst d a = Some d' \<and> length d' = length d
      \<and> read_dst d' = Some a \<and> read_src d' = read_src d \<and> drop hdr d' = drop hdr d"
    and set_src: "hdr \<le> length d \<Longrightarrow> \<exists>d'. set_src d a = Some d' \<and> length d' = length d
      \<and> read_src d' = Some a \<and> read_dst d' = read_dst d \<and> drop hdr d' = drop hdr d"

lemma take_drop_mono: "take h d = take h d' \<Longrightarrow> i + k \<le> h \<Longrightarrow> take k (drop i d) = take k (drop i d')"
proof -
  assume h: "take h d = take h d'" and le: "i + k \<le> h"
  have "take (i + k) d = take (i + k) (take h d)" "take (i + k) d' = take (i + k) (take h d')"
    using le by (simp_all add: min_absorb1)
  then show ?thesis by (simp add: take_drop add.commute h)
qed

lemma take_eq_length: "take h d = take h d' \<Longrightarrow> n \<le> h \<Longrightarrow> n \<le> length d \<longleftrightarrow> n \<le> length d'"
  by (metis length_take min.bounded_iff)

interpretation fam4: ip_family read_src_ip_v4 read_dst_ip_v4 set_request_destination_ip_v4
  set_response_source_ip_v4 20
proof
  fix d d' :: bytes and a b :: u32
  show "20 \<le> length d \<Longrightarrow> (\<exists>a. read_src_ip_v4 d = Some a) \<and> (\<exists>b. read_dst_ip_v4 d = Some b)"
    by (simp add: read_v4_take)
  show "read_dst_ip_v4 d = Some b \<Longrightarrow> 20 \<le> length d" by (simp add: read_v4_take split: if_splits)
  assume "take 20 d = take 20 d'"
  then show "read_src_ip_v4 d = read_src_ip_v4 d' \<and> read_dst_ip_v4 d = read_dst_ip_v4 d'"
    using take_eq_length [of 20 d d' 16] take_eq_length [of 20 d d' 20]
      take_drop_mono [of 20 d d' 12 4] take_drop_mono [of 20 d d' 16 4] by (simp add: read_v4_take)
qed (simp_all add: set_request_destination_ip_v4_def set_response_source_ip_v4_def copy_into_def
    read_v4_take drop_take)

interpretation fam6: ip_family read_src_ip_v6 read_dst_ip_v6 set_request_destination_ip_v6
  set_response_source_ip_v6 40
proof
  fix d d' :: bytes and a b :: u128
  show "40 \<le> length d \<Longrightarrow> (\<exists>a. read_src_ip_v6 d = Some a) \<and> (\<exists>b. read_dst_ip_v6 d = Some b)"
    by (simp add: read_v6_take)
  show "read_dst_ip_v6 d = Some b \<Longrightarrow> 40 \<le> length d" by (simp add: read_v6_take split: if_splits)
  assume "take 40 d = take 40 d'"
  then show "read_src_ip_v6 d = read_src_ip_v6 d' \<and> read_dst_ip_v6 d = read_dst_ip_v6 d'"
    using take_eq_length [of 40 d d' 24] take_eq_length [of 40 d d' 40]
      take_drop_mono [of 40 d d' 8 16] take_drop_mono [of 40 d d' 24 16] by (simp add: read_v6_take)
qed (simp_all add: set_request_destination_ip_v6_def set_response_source_ip_v6_def copy_into_def
    read_v6_take drop_take)

section \<open>ClientHello messages\<close>

text \<open>
  A TLS record with a ClientHello: the 43 bytes up to the session id, the session id, the cipher
  suites, the compression methods and the extensions. Extensions before the server name have
  another type.
\<close>

definition be16 :: "nat \<Rightarrow> bytes" where
  "be16 n = [of_nat (n div 256), of_nat (n mod 256)]"

definition enc_ext :: "nat \<times> bytes \<Rightarrow> bytes" where
  "enc_ext x = be16 (fst x) @ be16 (length (snd x)) @ snd x"

definition enc_sni :: "bytes \<Rightarrow> bytes" where
  "enc_sni host = enc_ext (0, be16 (length host + 3) @ [0] @ be16 (length host) @ host)"

definition client_hello :: "bytes \<Rightarrow> bytes \<Rightarrow> bytes \<Rightarrow> bytes \<Rightarrow> (nat \<times> bytes) list \<Rightarrow> bytes \<Rightarrow> bytes \<Rightarrow> bytes" where
  "client_hello fixed sid ciphers comps exts host tail =
     (let e = concat (map enc_ext exts) @ enc_sni host @ tail
      in fixed @ [of_nat (length sid)] @ sid @ be16 (length ciphers) @ ciphers
         @ [of_nat (length comps)] @ comps @ be16 (length e) @ e)"

lemma get_append [simp]: "get (xs @ b # ys) (length xs) = Some b"
  by (simp add: get_def)

lemma get_append_at: "n = length xs \<Longrightarrow> get (xs @ b # ys) n = Some b"
  by simp

lemma be16_at_append:
  assumes "m < 65536" "n = length xs"
  shows "be16_at (xs @ be16 m @ ys) n = Some m"
proof -
  have "unat (of_nat (m div 256) :: u8) = m div 256" "unat (of_nat (m mod 256) :: u8) = m mod 256"
    using assms(1) by (simp_all add: unat_of_nat)
  moreover have "xs @ be16 m @ ys = (xs @ [of_nat (m div 256)]) @ of_nat (m mod 256) # ys"
    "xs @ be16 m @ ys = xs @ of_nat (m div 256) # of_nat (m mod 256) # ys"
    by (simp_all add: be16_def)
  ultimately show ?thesis
    using get_append [of "xs @ [of_nat (m div 256)]" "of_nat (m mod 256)" ys] assms(2)
    by (simp add: be16_at_def div_mult_mod_eq)
qed

lemma length_be16 [simp]: "length (be16 n) = 2"
  by (simp add: be16_def)

lemma get_range_append: "i = length xs \<Longrightarrow> j = i + length ys \<Longrightarrow> get_range (xs @ ys @ zs) i j = Some ys"
  by (simp add: get_range_def)

declare add_2_eq_Suc [simp del] add_2_eq_Suc' [simp del]

lemma enc_sni_eq:
  "enc_sni host = be16 0 @ be16 (length host + 5) @ be16 (length host + 3) @ [0] @ be16 (length host) @ host"
proof -
  have "length (be16 (length host + 3) @ [0] @ be16 (length host) @ host) = length host + 5" by simp
  then show ?thesis by (simp only: enc_sni_def enc_ext_def fst_conv snd_conv append_assoc)
qed

lemma sni_loop_here:
  assumes "length host < 65000" "length pre + 3 < e"
  shows "sni_loop (pre @ enc_sni host @ tail) (length pre) e = from_utf8 host"
proof -
  let ?p = "pre @ enc_sni host @ tail"
  have t: "be16_at ?p (length pre) = Some 0"
    using be16_at_append [of 0 "length pre" pre] by (simp add: enc_sni_eq)
  have l: "be16_at ?p (length pre + 2) = Some (length host + 5)"
    using be16_at_append [of "length host + 5" "length pre + 2" "pre @ be16 0"] assms(1)
    by (simp add: enc_sni_eq)
  have z: "get ?p (length pre + 4 + 2) = Some 0"
  proof -
    have "?p = (pre @ be16 0 @ be16 (length host + 5) @ be16 (length host + 3)) @ 0 # (be16 (length host) @ host @ tail)"
      by (simp add: enc_sni_eq)
    then show ?thesis by (simp only:) (rule get_append_at, simp)
  qed
  have n: "be16_at ?p (length pre + 4 + 3) = Some (length host)"
  proof -
    have "?p = (pre @ be16 0 @ be16 (length host + 5) @ be16 (length host + 3) @ [0]) @ be16 (length host) @ host @ tail"
      by (simp add: enc_sni_eq)
    then show ?thesis using assms(1) by (simp only:) (rule be16_at_append, simp_all)
  qed
  have h: "get_range ?p (length pre + 4 + 5) (length pre + 4 + 5 + length host) = Some host"
  proof -
    have "?p = (pre @ be16 0 @ be16 (length host + 5) @ be16 (length host + 3) @ [0] @ be16 (length host)) @ host @ tail"
      by (simp add: enc_sni_eq)
    then show ?thesis by (simp only:) (rule get_range_append, simp_all)
  qed
  show ?thesis using assms(2)
    by (subst sni_loop.simps) (simp only: t l z n h Let_def if_True option.case bind.bind_lunit simp_thms)
qed

lemma sni_loop_skip:
  assumes "fst x < 65536" "fst x \<noteq> 0" "length (snd x) < 65536" "length pre + 3 < e"
  shows "sni_loop (pre @ enc_ext x @ rest) (length pre) e =
    sni_loop ((pre @ enc_ext x) @ rest) (length (pre @ enc_ext x)) e"
proof -
  let ?p = "pre @ enc_ext x @ rest"
  have t: "be16_at ?p (length pre) = Some (fst x)"
    using be16_at_append [of "fst x" "length pre" pre] assms(1) by (simp add: enc_ext_def)
  have l: "be16_at ?p (length pre + 2) = Some (length (snd x))"
    using be16_at_append [of "length (snd x)" "length pre + 2" "pre @ be16 (fst x)"] assms(3)
    by (simp add: enc_ext_def)
  have "sni_loop ?p (length pre) e = sni_loop ?p (length pre + 4 + length (snd x)) e"
    using assms(2,4) by (subst sni_loop.simps) (simp only: t l Let_def if_True if_False option.case)
  then show ?thesis by (simp add: enc_ext_def add.assoc)
qed

lemma sni_loop_finds:
  assumes "\<forall>x \<in> set exts. fst x < 65536 \<and> fst x \<noteq> 0 \<and> length (snd x) < 65536" "length host < 65000"
    and "length pre + length (concat (map enc_ext exts)) + 3 < e"
  shows "sni_loop (pre @ concat (map enc_ext exts) @ enc_sni host @ tail) (length pre) e = from_utf8 host"
  using assms
proof (induction exts arbitrary: pre)
  case Nil
  then show ?case by (simp add: sni_loop_here)
next
  case (Cons x xs)
  have "sni_loop (pre @ enc_ext x @ concat (map enc_ext xs) @ enc_sni host @ tail) (length pre) e =
      sni_loop ((pre @ enc_ext x) @ concat (map enc_ext xs) @ enc_sni host @ tail) (length (pre @ enc_ext x)) e"
    using Cons.prems by (intro sni_loop_skip) auto
  also have "\<dots> = from_utf8 host"
    using Cons.prems by (intro Cons.IH) auto
  finally show ?case by simp
qed

declare add_2_eq_Suc [simp] add_2_eq_Suc' [simp]

text \<open>
  C13. The server name of a ClientHello is found: whatever the session id, the cipher suites, the
  compression methods and the extensions before it are, the name the client sent is what is
  extracted, if it is valid UTF-8.
\<close>

theorem sni_round_trip:
  assumes "length fixed = 43" "fixed ! 0 = 0x16" "fixed ! 1 = 0x03" "fixed ! 5 = 0x01"
    and "length sid < 256" "length ciphers < 65536" "length comps < 256"
    and "\<forall>x \<in> set exts. fst x < 65536 \<and> fst x \<noteq> 0 \<and> length (snd x) < 65536"
    and "length (concat (map enc_ext exts) @ enc_sni host @ tail) < 65536" "length host < 65000"
  shows "extract_tls_sni (client_hello fixed sid ciphers comps exts host tail) = from_utf8 host"
proof -
  define e where "e = concat (map enc_ext exts) @ enc_sni host @ tail"
  define p where "p = client_hello fixed sid ciphers comps exts host tail"
  define a where "a = fixed @ [of_nat (length sid)] @ sid"
  define b where "b = a @ be16 (length ciphers) @ ciphers"
  define c where "c = b @ [of_nat (length comps)] @ comps"
  have p: "p = c @ be16 (length e) @ e"
    by (simp add: p_def client_hello_def Let_def a_def b_def c_def e_def)
  have head: "43 < length p" "p ! 0 = 0x16" "p ! 1 = 0x03" "p ! 5 = 0x01"
    using assms(1-4) by (simp_all add: p a_def b_def c_def nth_append)
  have u: "unat (of_nat n :: u8) = n" if "n < 256" for n using that by (simp add: unat_of_nat)
  have "get p 43 = Some (of_nat (length sid))"
    using get_append_at [of 43 fixed] assms(1) by (simp add: p a_def b_def c_def)
  moreover have "be16_at p (length a) = Some (length ciphers)"
    using be16_at_append [of "length ciphers" "length a" a] assms(6) by (simp add: p b_def c_def)
  moreover have "get p (length b) = Some (of_nat (length comps))"
    using get_append_at [of "length b" b] by (simp add: p c_def)
  moreover have "be16_at p (length c) = Some (length e)"
    using be16_at_append [of "length e" "length c" c] assms(9) by (simp add: p e_def)
  moreover have "length a = 43 + (1 + length sid)" "length b = length a + (2 + length ciphers)"
    "length c = length b + (1 + length comps)" using assms(1) by (simp_all add: a_def b_def c_def)
  ultimately have "extract_tls_sni p = sni_loop p (length c + 2) (length c + 2 + length e)"
    using head assms(5,7) by (simp add: extract_tls_sni_def Let_def u add.assoc)
  also have "\<dots> = from_utf8 host"
    using sni_loop_finds [OF assms(8,10), of "c @ be16 (length e)" "length c + 2 + length e" tail]
    by (simp add: p e_def) (simp add: enc_sni_eq)
  finally show ?thesis by (simp add: p_def)
qed

theorem sni_round_trip_witness:
  "extract_tls_sni (client_hello ([0x16, 3, 1, 0, 0, 1] @ replicate 37 0) [7, 7] [0x13, 0x01] [0]
     [(16, [1, 2])] (map byte_of ''a.io'') []) = Some ''a.io''"
proof -
  have "extract_tls_sni (client_hello ([0x16, 3, 1, 0, 0, 1] @ replicate 37 0) [7, 7] [0x13, 0x01] [0]
      [(16, [1, 2])] (map byte_of ''a.io'') []) = from_utf8 (map byte_of ''a.io'')"
    by (rule sni_round_trip) (simp_all add: enc_ext_def enc_sni_def)
  also have "\<dots> = Some ''a.io''" by code_simp
  finally show ?thesis .
qed

end
