(* ===== verification/Fake_Dns.thy ===== *)
theory Fake_Dns
  imports Rule_Resolution Nat_Table Packet
begin

text \<open>
  The fake DNS server: \<^verbatim>\<open>src/src/traffic/shared/dns/mod.rs\<close>, \<^verbatim>\<open>query.rs\<close> and
  \<^verbatim>\<open>resolution.rs\<close>. DNS messages are records of the fields the sources read or set; their wire
  format, the validity of names and the upstream resolver (crates \<^verbatim>\<open>hickory_proto\<close> and
  \<^verbatim>\<open>hickory_resolver\<close>) are the fields of \<open>dns_lib\<close>. \<^verbatim>\<open>Instant::now()\<close> in the loop over the queries
  is a clock indexed by the position of the query. A method on the shared state returns the state it
  leaves behind, of which only the fake-IP store changes.
\<close>

section \<open>Messages\<close>

datatype record_type = RtA | RtAAAA | RtOther nat

datatype rdata = RdA u32 | RdAAAA u128 | RdOther string

record dns_record =
  rr_name :: string
  rr_ttl :: u32
  rr_data :: rdata

datatype response_code = RcNoError | RcNXDomain | RcServFail | RcOther nat

datatype message_type = MsgQuery | MsgResponse

record dns_query =
  q_name :: string
  q_type :: record_type

record dns_message =
  msg_id :: u16
  msg_message_type :: message_type
  msg_op_code :: nat
  msg_recursion_desired :: bool
  msg_recursion_available :: bool
  msg_response_code :: response_code
  msg_queries :: "dns_query list"
  msg_answers :: "dns_record list"

record resolve_error =
  re_nx_domain :: bool
  re_no_records_found :: bool

record dns_lib =
  dl_message_from_vec :: "bytes \<Rightarrow> dns_message option"
  dl_message_to_vec :: "dns_message \<Rightarrow> bytes option"
  dl_name_from_ascii :: "string \<Rightarrow> string option"
  dl_lookup :: "string \<Rightarrow> record_type \<Rightarrow> (resolve_error, dns_record list) result"

section \<open>Queries (query.rs)\<close>

record dns_lookup_query =
  lq_name :: string
  lq_record_type :: record_type

datatype dns_error =
    InvalidRequest
  | InvalidRecordName string
  | InvalidQueryName string
  | FakeIpFailed fake_ip_error
  | SerializeFailed

definition normalize_name :: "string \<Rightarrow> string" where
  "normalize_name name = to_ascii_lowercase (trim_end_matches CHR ''.'' name)"

definition lookup_query_new :: "string \<Rightarrow> record_type \<Rightarrow> dns_lookup_query" where
  "lookup_query_new name record_type = \<lparr>lq_name = normalize_name name, lq_record_type = record_type\<rparr>"

definition queries_from_message :: "dns_message \<Rightarrow> dns_lookup_query list" where
  "queries_from_message request = map (\<lambda>q. lookup_query_new (q_name q) (q_type q)) (msg_queries request)"

definition queries_from_lower :: "dns_query list \<Rightarrow> dns_lookup_query list" where
  "queries_from_lower queries = map (\<lambda>q. lookup_query_new (q_name q) (q_type q)) queries"

text \<open>\<^verbatim>\<open>ttl.as_secs() as u32\<close> truncates.\<close>

definition build_record :: "dns_lib \<Rightarrow> dns_lookup_query \<Rightarrow> duration \<Rightarrow> rdata \<Rightarrow> (dns_error, dns_record) result" where
  "build_record D q ttl data =
     bind_r (ok_or (InvalidRecordName (lq_name q)) (dl_name_from_ascii D (lq_name q))) (\<lambda>record_name.
     Ok \<lparr>rr_name = record_name, rr_ttl = of_nat (ttl div 1000000000), rr_data = data\<rparr>)"

section \<open>Resolutions (resolution.rs)\<close>

record dns_resolution =
  res_response_code :: response_code
  res_answers :: "dns_record list"

definition from_answers :: "dns_record list \<Rightarrow> dns_resolution" where
  "from_answers answers = \<lparr>res_response_code = RcNoError, res_answers = answers\<rparr>"

definition from_error :: "response_code \<Rightarrow> dns_resolution" where
  "from_error code = \<lparr>res_response_code = code, res_answers = []\<rparr>"

definition build_response_message :: "dns_message \<Rightarrow> dns_message" where
  "build_response_message request =
     \<lparr>msg_id = msg_id request, msg_message_type = MsgResponse, msg_op_code = msg_op_code request,
      msg_recursion_desired = msg_recursion_desired request, msg_recursion_available = True,
      msg_response_code = RcNoError, msg_queries = msg_queries request, msg_answers = []\<rparr>"

definition build_error_message_bytes :: "dns_lib \<Rightarrow> dns_message \<Rightarrow> response_code \<Rightarrow> (dns_error, bytes) result" where
  "build_error_message_bytes D request code =
     ok_or SerializeFailed
       (dl_message_to_vec D ((build_response_message request)\<lparr>msg_response_code := code\<rparr>))"

definition to_message_bytes :: "dns_lib \<Rightarrow> dns_resolution \<Rightarrow> dns_message \<Rightarrow> (dns_error, bytes) result" where
  "to_message_bytes D res request =
     (if res_response_code res \<noteq> RcNoError
      then build_error_message_bytes D request (res_response_code res)
      else ok_or SerializeFailed
             (dl_message_to_vec D (fold (\<lambda>answer m. m\<lparr>msg_answers := msg_answers m @ [answer]\<rparr>)
                (res_answers res) (build_response_message request))))"

section \<open>The server (mod.rs)\<close>

record fake_dns_options =
  fdo_listen_addr :: socket_addr
  fdo_fake_ipv4_range :: ipv4_net
  fdo_fake_ipv6_range :: ipv6_net
  fdo_record_ttl :: duration

record 'h fake_dns_state =
  fds_fake_ip_store :: fake_ip_store
  fds_rules :: "'h live_rule_set"
  fds_options :: fake_dns_options

definition fake_dns_state_new :: "fake_dns_options \<Rightarrow> 'h live_rule_set \<Rightarrow> 'h fake_dns_state" where
  "fake_dns_state_new options rules =
     \<lparr>fds_fake_ip_store = fake_ip_store_new (fdo_fake_ipv4_range options) (fdo_fake_ipv6_range options),
      fds_rules = rules, fds_options = options\<rparr>"

definition resolve_fake_domain :: "'h fake_dns_state \<Rightarrow> ip_addr \<Rightarrow> instant \<Rightarrow> string option \<times> 'h fake_dns_state" where
  "resolve_fake_domain st ip now =
     (let (d, store) = resolve_domain (fds_fake_ip_store st) ip now
      in (d, st\<lparr>fds_fake_ip_store := store\<rparr>))"

text \<open>The loop over the queries: \<open>answers\<close> and \<open>matched\<close> are its variables, \<open>i\<close> counts the rounds.\<close>

fun build_fake_answers_loop ::
  "dns_lib \<Rightarrow> (nat \<Rightarrow> instant) \<Rightarrow> nat \<Rightarrow> dns_lookup_query list \<Rightarrow> dns_record list \<Rightarrow> bool \<Rightarrow> 'h fake_dns_state \<Rightarrow>
     (dns_error, dns_record list option) result \<times> 'h fake_dns_state" where
  "build_fake_answers_loop D clock i [] answers matched st =
     (if matched then Ok (Some answers) else Ok None, st)"
| "build_fake_answers_loop D clock i (q # qs) answers matched st =
     (let ttl = fdo_record_ttl (fds_options st)
      in if lq_record_type q = RtA \<and> live_matches_dns_host (fds_rules st) (lq_name q)
         then (case allocate_or_refresh_ipv4 (fds_fake_ip_store st) (lq_name q) ttl (clock i) of
                 (Inl e, store) \<Rightarrow> (Err (FakeIpFailed e), st\<lparr>fds_fake_ip_store := store\<rparr>)
               | (Inr fake_ip, store) \<Rightarrow>
                   (let st = st\<lparr>fds_fake_ip_store := store\<rparr>
                    in case build_record D q ttl (RdA fake_ip) of
                         Inl e \<Rightarrow> (Err e, st)
                       | Inr r \<Rightarrow> build_fake_answers_loop D clock (Suc i) qs (answers @ [r]) True st))
         else if lq_record_type q = RtAAAA \<and> live_matches_dns_host (fds_rules st) (lq_name q)
         then (case allocate_or_refresh_ipv6 (fds_fake_ip_store st) (lq_name q) ttl (clock i) of
                 (Inl e, store) \<Rightarrow> (Err (FakeIpFailed e), st\<lparr>fds_fake_ip_store := store\<rparr>)
               | (Inr fake_ip, store) \<Rightarrow>
                   (let st = st\<lparr>fds_fake_ip_store := store\<rparr>
                    in case build_record D q ttl (RdAAAA fake_ip) of
                         Inl e \<Rightarrow> (Err e, st)
                       | Inr r \<Rightarrow> build_fake_answers_loop D clock (Suc i) qs (answers @ [r]) True st))
         else build_fake_answers_loop D clock (Suc i) qs answers matched st)"

definition build_fake_answers ::
  "dns_lib \<Rightarrow> (nat \<Rightarrow> instant) \<Rightarrow> 'h fake_dns_state \<Rightarrow> dns_lookup_query list \<Rightarrow>
     (dns_error, dns_record list option) result \<times> 'h fake_dns_state" where
  "build_fake_answers D clock st queries = build_fake_answers_loop D clock 0 queries [] False st"

definition map_resolve_error_to_response_code :: "resolve_error \<Rightarrow> response_code" where
  "map_resolve_error_to_response_code e =
     (if re_nx_domain e then RcNXDomain else if re_no_records_found e then RcNoError else RcServFail)"

fun lookup_loop :: "dns_lib \<Rightarrow> dns_lookup_query list \<Rightarrow> dns_record list \<Rightarrow> (dns_error, dns_resolution) result" where
  "lookup_loop D [] answers = Ok (from_answers answers)"
| "lookup_loop D (q # qs) answers =
     bind_r (ok_or (InvalidQueryName (lq_name q)) (dl_name_from_ascii D (lq_name q))) (\<lambda>query_name.
     case dl_lookup D query_name (lq_record_type q) of
       Inr records \<Rightarrow> lookup_loop D qs (answers @ records)
     | Inl e \<Rightarrow> Ok (from_error (map_resolve_error_to_response_code e)))"

definition resolve_queries ::
  "dns_lib \<Rightarrow> (nat \<Rightarrow> instant) \<Rightarrow> 'h fake_dns_state \<Rightarrow> dns_lookup_query list \<Rightarrow>
     (dns_error, dns_resolution) result \<times> 'h fake_dns_state" where
  "resolve_queries D clock st queries =
     (case build_fake_answers D clock st queries of
        (Inl e, st) \<Rightarrow> (Err e, st)
      | (Inr (Some fake_answers), st) \<Rightarrow> (Ok (from_answers fake_answers), st)
      | (Inr None, st) \<Rightarrow> (lookup_loop D queries [], st))"

definition build_fake_response ::
  "dns_lib \<Rightarrow> (nat \<Rightarrow> instant) \<Rightarrow> 'h fake_dns_state \<Rightarrow> bytes \<Rightarrow>
     (dns_error, bytes option) result \<times> 'h fake_dns_state" where
  "build_fake_response D clock st request_bytes =
     (case dl_message_from_vec D request_bytes of
        None \<Rightarrow> (Err InvalidRequest, st)
      | Some request \<Rightarrow>
          (case build_fake_answers D clock st (queries_from_message request) of
             (Inl e, st) \<Rightarrow> (Err e, st)
           | (Inr (Some answers), st) \<Rightarrow>
               (bind_r (to_message_bytes D (from_answers answers) request) (\<lambda>b. Ok (Some b)), st)
           | (Inr None, st) \<Rightarrow> (Ok None, st)))"

definition resolve_request ::
  "dns_lib \<Rightarrow> (nat \<Rightarrow> instant) \<Rightarrow> 'h fake_dns_state \<Rightarrow> bytes \<Rightarrow> (dns_error, bytes) result \<times> 'h fake_dns_state" where
  "resolve_request D clock st request_bytes =
     (case dl_message_from_vec D request_bytes of
        None \<Rightarrow> (Err InvalidRequest, st)
      | Some request \<Rightarrow>
          (case resolve_queries D clock st (queries_from_message request) of
             (Inl e, st) \<Rightarrow> (Err e, st)
           | (Inr resolution, st) \<Rightarrow> (to_message_bytes D resolution request, st)))"

text \<open>The resolution \<^verbatim>\<open>handle_request\<close> sends: a failure to resolve is reported as a server failure.\<close>

definition handle_request ::
  "dns_lib \<Rightarrow> (nat \<Rightarrow> instant) \<Rightarrow> 'h fake_dns_state \<Rightarrow> dns_query list \<Rightarrow> dns_resolution \<times> 'h fake_dns_state" where
  "handle_request D clock st queries =
     (case resolve_queries D clock st (queries_from_lower queries) of
        (Inr resolution, st) \<Rightarrow> (resolution, st)
      | (Inl e, st) \<Rightarrow> (from_error RcServFail, st))"

section \<open>Facts about the loop\<close>

definition captured :: "'h live_rule_set \<Rightarrow> dns_lookup_query \<Rightarrow> bool" where
  "captured rules q \<longleftrightarrow> lq_record_type q \<in> {RtA, RtAAAA} \<and> live_matches_dns_host rules (lq_name q)"

lemma normalize_domain_name [simp]: "normalize_domain (normalize_name x) = normalize_name x"
proof -
  let ?n = "trim_end_matches CHR ''.'' x"
  have "to_ascii_lowercase ?n = [] \<or> last (to_ascii_lowercase ?n) \<noteq> CHR ''.''"
    using trim_end_matches_last [of "CHR ''.''" x] by (cases "?n = []") simp_all
  then show ?thesis
    by (simp add: normalize_domain_def normalize_name_def trim_end_matches_id)
qed

lemma loop_uncaptured:
  "\<forall>q \<in> set qs. \<not> captured (fds_rules st) q \<Longrightarrow>
     build_fake_answers_loop D clock i qs answers matched st =
     (if matched then Ok (Some answers) else Ok None, st)"
  by (induction qs arbitrary: i) (auto simp: captured_def)

lemma loop_matched:
  "fst (build_fake_answers_loop D clock i qs answers True st) \<noteq> Ok None"
  by (induction qs arbitrary: i answers st)
     (auto simp: Let_def split: sum.splits prod.splits)

lemma loop_captured:
  "\<exists>q \<in> set qs. captured (fds_rules st) q \<Longrightarrow>
     fst (build_fake_answers_loop D clock i qs answers matched st) \<noteq> Ok None"
  by (induction qs arbitrary: i)
     (auto simp: captured_def Let_def loop_matched split: sum.splits prod.splits)

text \<open>A lease that lives until after \<open>T\<close> survives an allocation before \<open>T\<close> and keeps its address.\<close>

definition leased :: "fake_ip_store \<Rightarrow> instant \<Rightarrow> string \<Rightarrow> u32 \<Rightarrow> bool" where
  "leased s T d a \<longleftrightarrow> (\<exists>exp. T < exp \<and> lease4 s d a exp)"

definition store_ok :: "fake_ip_store \<Rightarrow> bool" where
  "store_ok s \<longleftrightarrow> \<not> mx_poisoned s \<and> fake_ip_inv (mx_value s)"

lemma store_ok_run: "store_ok s \<Longrightarrow> store_ok (run_op op s)"
  by (simp add: store_ok_def run_op_frame run_op_inv)

lemma leased_alloc4:
  assumes "store_ok s" "leased s T d a" "now \<le> T" "T < now + ttl"
  shows "leased (snd (allocate_or_refresh_ipv4 s d' ttl now)) T d a"
proof -
  from assms(1,2) obtain e0 where e0: "T < e0" "lease4 s d a e0" and s: "\<not> mx_poisoned s" "fake_ip_inv (mx_value s)"
    by (auto simp: leased_def store_ok_def)
  show ?thesis
  proof (cases "normalize_domain d' = d")
    case False
    then show ?thesis
      using lease_step [OF s(2) e0(2), of "AllocV4 d' ttl now"] e0(1) assms(3) by (auto simp: leased_def)
  next
    case True
    have pl: "map_of (fi_domain_to_entry_v4 (prune_expired_entries (mx_value s) now)) d =
        Some \<lparr>fe4_ip = a, fe4_expires_at = e0\<rparr>"
      using pruned_lease [OF s(2) e0(2)] e0(1) assms(3) by simp
    from s show ?thesis
      by (cases rule: allocate_ipv4_cases [where now = now and domain = d' and ttl = ttl])
         (use pl True assms(4) in \<open>auto simp: leased_def lease4_def alist_simps\<close>)
  qed
qed

lemma leased_alloc6:
  assumes "store_ok s" "leased s T d a" "now \<le> T"
  shows "leased (snd (allocate_or_refresh_ipv6 s d' ttl now)) T d a"
  using assms lease_step [of s d a _ "AllocV6 d' ttl now"] by (auto simp: leased_def store_ok_def)

lemma leased_resolves:
  assumes "store_ok s" "leased s T d a"
  shows "fst (resolve_domain s (V4 a) T) = Some d"
  using assms lease_resolves by (auto simp: leased_def store_ok_def)

text \<open>The invariant of the loop: every IPv4 answer collected so far is leased to a captured name.\<close>

definition answers_ok :: "dns_lib \<Rightarrow> 'h fake_dns_state \<Rightarrow> instant \<Rightarrow> dns_record list \<Rightarrow> bool" where
  "answers_ok D st T ans \<longleftrightarrow> store_ok (fds_fake_ip_store st) \<and>
     (\<forall>r \<in> set ans. \<forall>a. rr_data r = RdA a \<longrightarrow>
        (\<exists>n. dl_name_from_ascii D n = Some (rr_name r) \<and> live_matches_dns_host (fds_rules st) n
             \<and> leased (fds_fake_ip_store st) T n a))"

lemma answers_ok_alloc4:
  assumes ok: "answers_ok D st T ans" and t: "now \<le> T" "T < now + ttl"
    and al: "allocate_or_refresh_ipv4 (fds_fake_ip_store st) (lq_name q) ttl now = (Inr a, store)"
    and r: "build_record D q ttl (RdA a) = Inr r"
    and q: "live_matches_dns_host (fds_rules st) (lq_name q)" "normalize_domain (lq_name q) = lq_name q"
  shows "answers_ok D (st\<lparr>fds_fake_ip_store := store\<rparr>) T (ans @ [r])"
proof -
  have s: "store_ok (fds_fake_ip_store st)" using ok by (simp add: answers_ok_def)
  have store: "store_ok store" using store_ok_run [OF s, of "AllocV4 (lq_name q) ttl now"] al by simp
  have "lease4 store (lq_name q) a (now + ttl)"
    using lease_of_alloc(1) [OF _ _ al] s q(2) by (simp add: store_ok_def)
  with t(2) have "leased store T (lq_name q) a" by (auto simp: leased_def)
  moreover have "leased (fds_fake_ip_store st) T n b \<Longrightarrow> leased store T n b" for n b
    using leased_alloc4 [OF s _ t, of n b "lq_name q"] al by simp
  moreover have "rr_data r = RdA a" "dl_name_from_ascii D (lq_name q) = Some (rr_name r)"
    using r by (auto simp: build_record_def bind_r_Ok_iff ok_or_Ok_iff)
  ultimately show ?thesis using ok store q(1) by (fastforce simp: answers_ok_def)
qed

lemma answers_ok_alloc6:
  assumes ok: "answers_ok D st T ans" and t: "now \<le> T"
    and al: "allocate_or_refresh_ipv6 (fds_fake_ip_store st) (lq_name q) ttl now = (Inr a, store)"
    and r: "build_record D q ttl (RdAAAA a) = Inr r"
  shows "answers_ok D (st\<lparr>fds_fake_ip_store := store\<rparr>) T (ans @ [r])"
proof -
  have s: "store_ok (fds_fake_ip_store st)" using ok by (simp add: answers_ok_def)
  have store: "store_ok store" using store_ok_run [OF s, of "AllocV6 (lq_name q) ttl now"] al by simp
  moreover have "leased (fds_fake_ip_store st) T n b \<Longrightarrow> leased store T n b" for n b
    using leased_alloc6 [OF s _ t, of n b "lq_name q" ttl] al by simp
  moreover have "rr_data r = RdAAAA a"
    using r by (auto simp: build_record_def bind_r_Ok_iff ok_or_Ok_iff)
  ultimately show ?thesis using ok by (fastforce simp: answers_ok_def)
qed

lemma loop_skips:
  "\<not> (lq_record_type q = RtA \<and> live_matches_dns_host (fds_rules st) (lq_name q)) \<Longrightarrow>
   \<not> (lq_record_type q = RtAAAA \<and> live_matches_dns_host (fds_rules st) (lq_name q)) \<Longrightarrow>
     build_fake_answers_loop D clock i (q # qs) ans matched st =
     build_fake_answers_loop D clock (Suc i) qs ans matched st"
  by (simp only: build_fake_answers_loop.simps Let_def if_False)

lemma loop_answers_ok:
  assumes "answers_ok D st T ans" "\<forall>q \<in> set qs. normalize_domain (lq_name q) = lq_name q"
    and "\<And>i. clock i \<le> T \<and> T < clock i + fdo_record_ttl (fds_options st)"
    and "build_fake_answers_loop D clock i qs ans matched st = (Ok (Some out), st')"
  shows "answers_ok D st' T out"
  using assms
proof (induction qs arbitrary: i ans matched st)
  case Nil
  then show ?case by (simp split: if_splits)
next
  case (Cons q qs)
  note prems = Cons.prems
  have clk: "clock i \<le> T" "T < clock i + fdo_record_ttl (fds_options st)" using prems(3) by auto
  consider (a) "lq_record_type q = RtA" "live_matches_dns_host (fds_rules st) (lq_name q)"
    | (aaaa) "lq_record_type q = RtAAAA" "live_matches_dns_host (fds_rules st) (lq_name q)"
    | (none) "build_fake_answers_loop D clock i (q # qs) ans matched st =
        build_fake_answers_loop D clock (Suc i) qs ans matched st"
    using loop_skips [of q st D clock i qs ans matched] by blast
  then show ?case
  proof cases
    case a
    then obtain v store r where step: "allocate_or_refresh_ipv4 (fds_fake_ip_store st) (lq_name q)
          (fdo_record_ttl (fds_options st)) (clock i) = (Inr v, store)"
      "build_record D q (fdo_record_ttl (fds_options st)) (RdA v) = Inr r"
      "build_fake_answers_loop D clock (Suc i) qs (ans @ [r]) True (st\<lparr>fds_fake_ip_store := store\<rparr>) = (Ok (Some out), st')"
      using prems(4) by (auto simp: Let_def split: prod.splits sum.splits)
    show ?thesis
      by (rule Cons.IH [OF answers_ok_alloc4 [OF prems(1) clk step(1,2) a(2)] _ _ step(3)])
         (use prems(2,3) in auto)
  next
    case aaaa
    then obtain v store r where step: "allocate_or_refresh_ipv6 (fds_fake_ip_store st) (lq_name q)
          (fdo_record_ttl (fds_options st)) (clock i) = (Inr v, store)"
      "build_record D q (fdo_record_ttl (fds_options st)) (RdAAAA v) = Inr r"
      "build_fake_answers_loop D clock (Suc i) qs (ans @ [r]) True (st\<lparr>fds_fake_ip_store := store\<rparr>) = (Ok (Some out), st')"
      using prems(4) by (auto simp: Let_def split: prod.splits sum.splits)
    show ?thesis
      by (rule Cons.IH [OF answers_ok_alloc6 [OF prems(1) clk(1) step(1,2)] _ _ step(3)])
         (use prems(2,3) in auto)
  next
    case none
    then show ?thesis using Cons.IH [OF prems(1) _ prems(3)] prems(2,4) by simp
  qed
qed

lemma loop_frame:
  "fds_rules (snd (build_fake_answers_loop D clock i qs ans matched st)) = fds_rules st"
  by (induction qs arbitrary: i ans matched st) (auto simp: Let_def split: sum.splits prod.splits)

lemma loop_range:
  "fi_fake_ipv4_range (mx_value (fds_fake_ip_store (snd (build_fake_answers_loop D clock i qs ans matched st)))) =
   fi_fake_ipv4_range (mx_value (fds_fake_ip_store st))"
proof (induction qs arbitrary: i ans matched st)
  case (Cons q qs)
  have f: "fi_fake_ipv4_range (mx_value (snd (allocate_or_refresh_ipv4 s d ttl now))) = fi_fake_ipv4_range (mx_value s)"
    "fi_fake_ipv4_range (mx_value (snd (allocate_or_refresh_ipv6 s d ttl now))) = fi_fake_ipv4_range (mx_value s)" for s d ttl now
    using run_op_frame [of "AllocV4 d ttl now" s] run_op_frame [of "AllocV6 d ttl now" s] by simp_all
  show ?case
    using f(1) [of "fds_fake_ip_store st" "lq_name q" "fdo_record_ttl (fds_options st)" "clock i"]
      f(2) [of "fds_fake_ip_store st" "lq_name q" "fdo_record_ttl (fds_options st)" "clock i"]
    by (auto simp: Let_def Cons.IH split: sum.splits prod.splits)
qed simp

text \<open>An IPv4 answer is a lease of its pool that lives as long as the answer.\<close>

lemma answer_leased:
  assumes "reachable rng4 rng6 (fds_fake_ip_store st)"
    and "\<forall>i. clock i \<le> T \<and> T < clock i + fdo_record_ttl (fds_options st)"
    and "build_fake_answers D clock st (queries_from_message request) = (Ok (Some answers), st')"
    and "r \<in> set answers" "rr_data r = RdA a"
  obtains n where "dl_name_from_ascii D n = Some (rr_name r)" "live_matches_dns_host (fds_rules st) n"
    "leased (fds_fake_ip_store st') T n a" "store_ok (fds_fake_ip_store st')" "in_pool4 rng4 a"
proof -
  have "answers_ok D st T []"
    using reachable_frame [OF assms(1)] reachable_inv [OF assms(1)] by (simp add: answers_ok_def store_ok_def)
  then have ok: "answers_ok D st' T answers"
    by (rule loop_answers_ok [where clock = clock])
       (use assms(2,3) in \<open>auto simp: queries_from_message_def lookup_query_new_def build_fake_answers_def\<close>)
  let ?fin = "snd (build_fake_answers_loop D clock 0 (queries_from_message request) [] False st)"
  have "st' = ?fin" using assms(3) by (simp add: build_fake_answers_def)
  then have fr: "fds_rules st' = fds_rules st" "fi_fake_ipv4_range (mx_value (fds_fake_ip_store st')) = rng4"
    using reachable_frame [OF assms(1)] by (simp_all add: loop_frame loop_range)
  from ok assms(4,5) obtain n where n: "dl_name_from_ascii D n = Some (rr_name r)"
    "live_matches_dns_host (fds_rules st') n" "leased (fds_fake_ip_store st') T n a" "store_ok (fds_fake_ip_store st')"
    by (auto simp: answers_ok_def)
  moreover have "in_pool4 rng4 a" using n(3,4) lease_in_pool fr(2) by (auto simp: leased_def store_ok_def)
  ultimately show ?thesis using that fr(1) by simp
qed

lemma loop_other_resolver:
  "build_fake_answers_loop (D\<lparr>dl_lookup := f\<rparr>) clock i qs ans matched st =
   build_fake_answers_loop D clock i qs ans matched st"
  by (induction qs arbitrary: i ans matched st)
     (auto simp: Let_def build_record_def split: sum.splits prod.splits)

section \<open>Properties\<close>

definition sample_dns_lib :: dns_lib where
  "sample_dns_lib = \<lparr>dl_message_from_vec = \<lambda>_. None, dl_message_to_vec = \<lambda>_. None, dl_name_from_ascii = Some,
     dl_lookup = \<lambda>_ _. Ok []\<rparr>"

definition sample_dns_state :: "unit fake_dns_state" where
  "sample_dns_state = fake_dns_state_new
     \<lparr>fdo_listen_addr = \<lparr>sock_ip = V4 0x7F000001, sock_port = 5353, sock_scope_id = 0\<rparr>, fdo_fake_ipv4_range = sample_net4,
      fdo_fake_ipv6_range = sample_net6, fdo_record_ttl = 60\<rparr> (live_new (rule_set_new stop_rules))"

definition sample_request :: dns_message where
  "sample_request = \<lparr>msg_id = 7, msg_message_type = MsgQuery, msg_op_code = 0, msg_recursion_desired = True,
     msg_recursion_available = False, msg_response_code = RcNoError,
     msg_queries = [\<lparr>q_name = ''A.io.'', q_type = RtA\<rparr>], msg_answers = []\<rparr>"

text \<open>
  C10. Every IPv4 address in a fake answer leads back to the name that was asked for: as long as the
  TTL of the answer has not run out, resolving the address returns a name that the rules capture and
  whose record the answer is, however many other names the same request asked for.
\<close>

theorem fake_answers_resolve_back:
  assumes "reachable rng4 rng6 (fds_fake_ip_store st)"
    and "\<forall>i. clock i \<le> T \<and> T < clock i + fdo_record_ttl (fds_options st)"
    and "build_fake_answers D clock st (queries_from_message request) = (Ok (Some answers), st')"
    and "r \<in> set answers" "rr_data r = RdA a"
  shows "\<exists>n. dl_name_from_ascii D n = Some (rr_name r) \<and> live_matches_dns_host (fds_rules st) n
             \<and> fst (resolve_fake_domain st' (V4 a) T) = Some n"
  by (rule answer_leased [OF assms])
     (use leased_resolves in \<open>force simp: resolve_fake_domain_def split: prod.splits\<close>)

lemma sample_fake_answer:
  "\<exists>st'. build_fake_answers sample_dns_lib (\<lambda>_. 5) sample_dns_state (queries_from_message sample_request) =
     (Ok (Some [\<lparr>rr_name = ''a.io'', rr_ttl = 0, rr_data = RdA 0xC6120003\<rparr>]), st')"
proof -
  have n: "normalize_name ''A.io.'' = ''a.io''" "normalize_domain ''a.io'' = ''a.io''" by code_simp+
  have m: "matches_dns_host (rule_set_new stop_rules) ''a.io''"
    unfolding matches_dns_host_new by (rule exI [of _ "''a.io''"])
      (simp add: sample_host_normal stop_rules_def sample_rule_def host_is_def dns_claims_def)
  have "\<exists>store. allocate_or_refresh_ipv4 sample_store ''a.io'' 60 5 = (Ok 0xC6120003, store)"
    by (simp add: sample_store_def fake_ip_store_new_def sample_net4_def allocate_or_refresh_ipv4_def n
      prune_expired_entries_def allocate_next_ipv4_def last_usable_ipv4_def first_allocatable_ipv4_def
      first_usable_ipv4_def saturating_add_def clamp_ipv4_candidate_def allocate_loop_v4.simps Let_def)
  then show ?thesis
    by (auto simp: build_fake_answers_def sample_dns_state_def queries_from_message_def sample_request_def
        lookup_query_new_def n fake_dns_state_new_def live_matches_dns_host_def live_snapshot_def live_new_def m
        sample_store_def [symmetric] build_record_def sample_dns_lib_def ok_or_def bind_r_def)
qed

theorem fake_answers_resolve_back_witness:
  "\<exists>st'. build_fake_answers sample_dns_lib (\<lambda>_. 5) sample_dns_state (queries_from_message sample_request) =
     (Ok (Some [\<lparr>rr_name = ''a.io'', rr_ttl = 0, rr_data = RdA 0xC6120003\<rparr>]), st')
   \<and> fst (resolve_fake_domain st' (V4 0xC6120003) 64) = Some ''a.io''"
proof -
  obtain st' where b: "build_fake_answers sample_dns_lib (\<lambda>_. 5) sample_dns_state (queries_from_message sample_request) =
     (Ok (Some [\<lparr>rr_name = ''a.io'', rr_ttl = 0, rr_data = RdA 0xC6120003\<rparr>]), st')"
    using sample_fake_answer by blast
  have "reachable sample_net4 sample_net6 (fds_fake_ip_store sample_dns_state)"
    using sample_store_reachable by (simp add: sample_dns_state_def fake_dns_state_new_def sample_store_def)
  from fake_answers_resolve_back [OF this _ b, of 64] b show ?thesis
    by (simp add: sample_dns_state_def fake_dns_state_new_def sample_dns_lib_def)
qed

text \<open>
  C11. Capture is all or nothing: with a captured query in the request the outcome does not depend on the
  upstream resolver, so no name of that request is ever looked up outside; without one the request is
  answered by the upstream look-ups alone and the store of leases is left as it was.
\<close>

theorem fake_dns_all_or_nothing:
  "if list_ex (captured (fds_rules st)) qs
   then resolve_queries D clock st qs = resolve_queries (D\<lparr>dl_lookup := other\<rparr>) clock st qs
   else resolve_queries D clock st qs = (lookup_loop D qs [], st)"
proof (cases "list_ex (captured (fds_rules st)) qs")
  case True
  then have "fst (build_fake_answers D clock st qs) \<noteq> Ok None"
    using loop_captured [of qs st] by (simp add: build_fake_answers_def list_ex_iff)
  with True show ?thesis
    by (auto simp: resolve_queries_def build_fake_answers_def loop_other_resolver
        split: prod.splits sum.splits option.splits)
next
  case False
  then have "build_fake_answers D clock st qs = (Ok None, st)"
    using loop_uncaptured [of qs st] by (simp add: build_fake_answers_def list_ex_iff)
  with False show ?thesis by (simp add: resolve_queries_def)
qed

end
