(* ===== verification/Config.thy ===== *)
theory Config
  imports Rule_Compile Fake_Dns
begin

text \<open>
  Configuration: \<^verbatim>\<open>src/src/config.rs\<close>. A parsed YAML document is a record with an optional field per
  key; the functions \<open>de_...\<close> are what the serde attributes of the raw structs make of it, with the
  \<^verbatim>\<open>default\<close> functions and the \<^verbatim>\<open>Default\<close> instances. Paths are Unix paths. Reading the
  file, the YAML parser, the parsers of the crate \<^verbatim>\<open>ipnet\<close>, the conversion of plugin settings from YAML
  to JSON, the number of processors and the target platform are the fields of \<open>config_env\<close>.
\<close>

section \<open>Options\<close>

datatype transparent_backend_kind = WinDivertKind | TunKind

datatype windivert_layer_config = NetworkLayer | NetworkForwardLayer

record windivert_backend_options =
  wbo_layer :: windivert_layer_config

datatype tun_stack = SystemStack | SmoltcpStack

datatype tun_platform_dns_mode = AutoDns | ManualDns

datatype tun_dns_hijack_transport = HijackUdp | HijackTcp

datatype tun_dns_hijack_target = HijackAny u16 | HijackExact socket_addr

record tun_dns_hijack_spec =
  th_transport :: tun_dns_hijack_transport
  th_target :: tun_dns_hijack_target

record tun_backend_options =
  tbo_name :: string
  tbo_mtu :: u16
  tbo_stack :: tun_stack
  tbo_platform_dns :: tun_platform_dns_mode
  tbo_dns_hijack :: "tun_dns_hijack_spec list"

record backend_options =
  bo_kind :: transparent_backend_kind
  bo_dns :: fake_dns_options
  bo_windivert :: windivert_backend_options
  bo_tun :: tun_backend_options

datatype plugin_engine = QuickJs

record plugin_permissions =
  pp_on_request_body :: bool
  pp_on_response_body :: bool

record 'j plugin_definition =
  pd_name :: string
  pd_engine :: plugin_engine
  pd_enabled :: bool
  pd_root :: string
  pd_permissions :: plugin_permissions
  pd_config :: 'j

record 'j plugin_runtime_options =
  pro_enabled :: bool
  pro_workers :: nat
  pro_definitions :: "'j plugin_definition list"

record telemetry_options =
  to_service_name :: string
  to_otlp_endpoint :: string

record observability_options =
  oo_enabled :: bool
  oo_telemetry :: telemetry_options

record ('h, 'j) app_config =
  ac_listen_addr :: socket_addr
  ac_tls_port :: "u16 option"
  ac_backend :: backend_options
  ac_observability :: observability_options
  ac_plugins :: "'j plugin_runtime_options"
  ac_rules :: "'h rule_set"

record ('h, 'j, 'y) config_env =
  cf_compile :: "('h, 'j) compile_env"
  cf_ipv4net_parse :: "string \<Rightarrow> ipv4_net option"
  cf_ipv6net_parse :: "string \<Rightarrow> ipv6_net option"
  cf_yaml_to_json :: "'y \<Rightarrow> 'j option"
  cf_parallelism :: "nat option"
  cf_windows :: bool

section \<open>Raw structures and their defaults\<close>

record raw_windivert_backend_options =
  rw_layer :: string

record raw_tun_backend_options =
  rt_name :: string
  rt_mtu :: u16
  rt_stack :: string
  rt_platform_dns :: string
  rt_dns_hijack :: "string list"

record raw_fake_dns_options =
  rd_listen :: string
  rd_fake_ipv4_range :: string
  rd_fake_ipv6_range :: string
  rd_record_ttl_secs :: "64 word"

record raw_backend_options =
  rb_kind :: string
  rb_dns :: raw_fake_dns_options
  rb_windivert :: raw_windivert_backend_options
  rb_tun :: raw_tun_backend_options

record raw_telemetry_options =
  rte_service_name :: string
  rte_otlp_endpoint :: string

record raw_observability_options =
  ro_enable :: bool
  ro_telemetry :: raw_telemetry_options

record raw_plugin_permissions =
  rpp_on_request :: bool
  rpp_on_response :: bool

record 'y raw_plugin_definition =
  rpd_name :: string
  rpd_engine :: string
  rpd_enabled :: bool
  rpd_root :: "string option"
  rpd_matcher :: "rule_matcher_schema option"
  rpd_permissions :: raw_plugin_permissions
  rpd_config :: 'y

record 'y raw_plugin_runtime_options =
  rpr_enabled :: bool
  rpr_workers :: nat
  rpr_includes :: "'y raw_plugin_definition list"

record ('j, 'y) raw_config =
  rc_listen :: string
  rc_tls_port :: "u16 option"
  rc_backend :: raw_backend_options
  rc_observability :: raw_observability_options
  rc_plugins :: "'y raw_plugin_runtime_options"
  rc_includes :: "'j rule_schema list"

definition default_listen_addr :: string where "default_listen_addr = ''127.0.0.1:8787''"

definition default_plugin_workers :: "('h, 'j, 'y) config_env \<Rightarrow> nat" where
  "default_plugin_workers E = unwrap_or 1 (cf_parallelism E)"

definition default_plugin_engine :: string where "default_plugin_engine = ''quickjs''"

definition default_plugin_enabled :: bool where "default_plugin_enabled = True"

definition default_telemetry_service_name :: string where "default_telemetry_service_name = ''anymirror''"

definition default_telemetry_otlp_endpoint :: string where
  "default_telemetry_otlp_endpoint = ''http://127.0.0.1:4317''"

definition default_backend_dns_listen_addr :: string where "default_backend_dns_listen_addr = ''127.0.0.1:15353''"

definition default_backend_kind :: "('h, 'j, 'y) config_env \<Rightarrow> string" where
  "default_backend_kind E = (if cf_windows E then ''windivert'' else ''tun'')"

definition default_windivert_layer :: string where "default_windivert_layer = ''network''"

definition default_tun_name :: string where "default_tun_name = ''anymirror-tun''"

definition default_tun_mtu :: u16 where "default_tun_mtu = 1500"

definition default_tun_stack :: string where "default_tun_stack = ''smoltcp''"

definition default_tun_platform_dns :: "('h, 'j, 'y) config_env \<Rightarrow> string" where
  "default_tun_platform_dns E = (if cf_windows E then ''auto'' else ''manual'')"

definition default_tun_dns_hijack :: "string list" where "default_tun_dns_hijack = [''any:53'', ''tcp://any:53'']"

definition default_fake_ipv4_range :: string where "default_fake_ipv4_range = ''198.18.0.0/16''"

definition default_fake_ipv6_range :: string where "default_fake_ipv6_range = ''fd00:198:18::/48''"

definition default_fake_ip_record_ttl_secs :: "64 word" where "default_fake_ip_record_ttl_secs = 60"

text \<open>The \<^verbatim>\<open>Default\<close> instances. That of the backend is derived: its kind is the empty string.\<close>

definition raw_windivert_default :: raw_windivert_backend_options where
  "raw_windivert_default = \<lparr>rw_layer = default_windivert_layer\<rparr>"

definition raw_tun_default :: "('h, 'j, 'y) config_env \<Rightarrow> raw_tun_backend_options" where
  "raw_tun_default E = \<lparr>rt_name = default_tun_name, rt_mtu = default_tun_mtu, rt_stack = default_tun_stack,
     rt_platform_dns = default_tun_platform_dns E, rt_dns_hijack = default_tun_dns_hijack\<rparr>"

definition raw_fake_dns_default :: raw_fake_dns_options where
  "raw_fake_dns_default = \<lparr>rd_listen = default_backend_dns_listen_addr, rd_fake_ipv4_range = default_fake_ipv4_range,
     rd_fake_ipv6_range = default_fake_ipv6_range, rd_record_ttl_secs = default_fake_ip_record_ttl_secs\<rparr>"

definition raw_backend_default :: "('h, 'j, 'y) config_env \<Rightarrow> raw_backend_options" where
  "raw_backend_default E = \<lparr>rb_kind = [], rb_dns = raw_fake_dns_default, rb_windivert = raw_windivert_default,
     rb_tun = raw_tun_default E\<rparr>"

definition raw_telemetry_default :: raw_telemetry_options where
  "raw_telemetry_default = \<lparr>rte_service_name = default_telemetry_service_name,
     rte_otlp_endpoint = default_telemetry_otlp_endpoint\<rparr>"

definition raw_observability_default :: raw_observability_options where
  "raw_observability_default = \<lparr>ro_enable = False, ro_telemetry = raw_telemetry_default\<rparr>"

definition raw_plugin_runtime_default :: "('h, 'j, 'y) config_env \<Rightarrow> 'y raw_plugin_runtime_options" where
  "raw_plugin_runtime_default E = \<lparr>rpr_enabled = False, rpr_workers = default_plugin_workers E, rpr_includes = []\<rparr>"

section \<open>Documents\<close>

text \<open>The keys of the YAML document; a key that is absent is \<open>None\<close>. The stages of the plugin permissions
  have one key each.\<close>

record doc_tun =
  dt_name :: "string option"
  dt_mtu :: "u16 option"
  dt_stack :: "string option"
  dt_platform_dns :: "string option"
  dt_dns_hijack :: "string list option"

record doc_fake_dns =
  dd_listen :: "string option"
  dd_fake_ipv4_range :: "string option"
  dd_fake_ipv6_range :: "string option"
  dd_record_ttl_secs :: "64 word option"

record doc_backend =
  db_kind :: "string option"
  db_dns :: "doc_fake_dns option"
  db_windivert :: "string option option"
  db_tun :: "doc_tun option"

record doc_observability =
  do_enable :: "bool option"
  do_telemetry :: "(string option \<times> string option) option"

record 'y doc_plugin_definition =
  dpd_name :: string
  dpd_engine :: "string option"
  dpd_enabled :: "bool option"
  dpd_root :: "string option"
  dpd_matcher :: "rule_matcher_schema option"
  dpd_request_body :: "bool option"
  dpd_response_body :: "bool option"
  dpd_config :: 'y

record 'y doc_plugins =
  dp_enabled :: "bool option"
  dp_workers :: "nat option"
  dp_includes :: "'y doc_plugin_definition list option"

record ('j, 'y) doc_config =
  dc_listen :: "string option"
  dc_tls_port :: "u16 option"
  dc_backend :: "doc_backend option"
  dc_observability :: "doc_observability option"
  dc_plugins :: "'y doc_plugins option"
  dc_includes :: "'j rule_schema list option"

definition de_tun :: "('h, 'j, 'y) config_env \<Rightarrow> doc_tun \<Rightarrow> raw_tun_backend_options" where
  "de_tun E d = \<lparr>rt_name = unwrap_or default_tun_name (dt_name d), rt_mtu = unwrap_or default_tun_mtu (dt_mtu d),
     rt_stack = unwrap_or default_tun_stack (dt_stack d),
     rt_platform_dns = unwrap_or (default_tun_platform_dns E) (dt_platform_dns d),
     rt_dns_hijack = unwrap_or default_tun_dns_hijack (dt_dns_hijack d)\<rparr>"

definition de_fake_dns :: "doc_fake_dns \<Rightarrow> raw_fake_dns_options" where
  "de_fake_dns d = \<lparr>rd_listen = unwrap_or default_backend_dns_listen_addr (dd_listen d),
     rd_fake_ipv4_range = unwrap_or default_fake_ipv4_range (dd_fake_ipv4_range d),
     rd_fake_ipv6_range = unwrap_or default_fake_ipv6_range (dd_fake_ipv6_range d),
     rd_record_ttl_secs = unwrap_or default_fake_ip_record_ttl_secs (dd_record_ttl_secs d)\<rparr>"

definition de_windivert :: "string option \<Rightarrow> raw_windivert_backend_options" where
  "de_windivert layer = \<lparr>rw_layer = unwrap_or default_windivert_layer layer\<rparr>"

definition de_backend :: "('h, 'j, 'y) config_env \<Rightarrow> doc_backend \<Rightarrow> raw_backend_options" where
  "de_backend E d = \<lparr>rb_kind = unwrap_or (default_backend_kind E) (db_kind d),
     rb_dns = unwrap_or raw_fake_dns_default (map_option de_fake_dns (db_dns d)),
     rb_windivert = unwrap_or raw_windivert_default (map_option de_windivert (db_windivert d)),
     rb_tun = unwrap_or (raw_tun_default E) (map_option (de_tun E) (db_tun d))\<rparr>"

definition de_telemetry :: "string option \<times> string option \<Rightarrow> raw_telemetry_options" where
  "de_telemetry d = \<lparr>rte_service_name = unwrap_or default_telemetry_service_name (fst d),
     rte_otlp_endpoint = unwrap_or default_telemetry_otlp_endpoint (snd d)\<rparr>"

definition de_observability :: "doc_observability \<Rightarrow> raw_observability_options" where
  "de_observability d = \<lparr>ro_enable = unwrap_or False (do_enable d),
     ro_telemetry = unwrap_or raw_telemetry_default (map_option de_telemetry (do_telemetry d))\<rparr>"

definition de_plugin_definition :: "'y doc_plugin_definition \<Rightarrow> 'y raw_plugin_definition" where
  "de_plugin_definition d = \<lparr>rpd_name = dpd_name d, rpd_engine = unwrap_or default_plugin_engine (dpd_engine d),
     rpd_enabled = unwrap_or default_plugin_enabled (dpd_enabled d), rpd_root = dpd_root d, rpd_matcher = dpd_matcher d,
     rpd_permissions = \<lparr>rpp_on_request = unwrap_or False (dpd_request_body d),
       rpp_on_response = unwrap_or False (dpd_response_body d)\<rparr>, rpd_config = dpd_config d\<rparr>"

definition de_plugins :: "('h, 'j, 'y) config_env \<Rightarrow> 'y doc_plugins \<Rightarrow> 'y raw_plugin_runtime_options" where
  "de_plugins E d = \<lparr>rpr_enabled = unwrap_or False (dp_enabled d),
     rpr_workers = unwrap_or (default_plugin_workers E) (dp_workers d),
     rpr_includes = map de_plugin_definition (unwrap_or [] (dp_includes d))\<rparr>"

definition de_config :: "('h, 'j, 'y) config_env \<Rightarrow> ('j, 'y) doc_config \<Rightarrow> ('j, 'y) raw_config" where
  "de_config E d = \<lparr>rc_listen = unwrap_or default_listen_addr (dc_listen d), rc_tls_port = dc_tls_port d,
     rc_backend = unwrap_or (raw_backend_default E) (map_option (de_backend E) (dc_backend d)),
     rc_observability = unwrap_or raw_observability_default (map_option de_observability (dc_observability d)),
     rc_plugins = unwrap_or (raw_plugin_runtime_default E) (map_option (de_plugins E) (dc_plugins d)),
     rc_includes = unwrap_or [] (dc_includes d)\<rparr>"

section \<open>Unix paths\<close>

datatype path_component = RootDir | CurDir | ParentDir | NormalComp string

definition path_component :: "string \<Rightarrow> path_component list" where
  "path_component c = (if c = [] \<or> c = ''.'' then [] else if c = ''..'' then [ParentDir] else [NormalComp c])"

definition path_components :: "string \<Rightarrow> path_component list" where
  "path_components p =
     (let absolute = starts_with p ''/'';
          parts = split_on CHR ''/'' p
      in (if absolute then [RootDir] else [])
         @ (if \<not> absolute \<and> hd parts = ''.'' then [CurDir] else path_component (hd parts))
         @ concat (map path_component (tl parts)))"

definition path_is_absolute :: "string \<Rightarrow> bool" where
  "path_is_absolute p = starts_with p ''/''"

definition path_join :: "string \<Rightarrow> string \<Rightarrow> string" where
  "path_join base p =
     (if path_is_absolute p then p
      else if base \<noteq> [] \<and> \<not> ends_with base ''/'' then base @ ''/'' @ p
      else base @ p)"

definition path_file_name :: "string \<Rightarrow> string option" where
  "path_file_name p =
     (case rev (path_components p) of NormalComp c # _ \<Rightarrow> Some c | _ \<Rightarrow> None)"

section \<open>Validation\<close>

datatype config_error =
    InvalidListen string
  | InvalidDnsListen string
  | InvalidIpv4Range string
  | InvalidIpv6Range string
  | InvalidLayer string
  | InvalidBackendKind string
  | InvalidTunStack string
  | InvalidPlatformDns string
  | EmptyTunName
  | ZeroMtu
  | EmptyHijackEntry
  | InvalidHijackPort string
  | InvalidHijackAddress string
  | ZeroWorkers
  | DuplicatePlugin string
  | EmptyPluginName
  | EmptyPluginRoot string
  | UnsupportedEngine string
  | PluginConfigNotJson
  | EmptyServiceName
  | EmptyOtlpEndpoint
  | EmptyBodyFile
  | RuleFailed rule_error
  | NoIncludeRules
  | UnresolvedAlias string "string list"

definition parse_windivert_layer :: "string \<Rightarrow> (config_error, windivert_layer_config) result" where
  "parse_windivert_layer value =
     (if value = ''network'' then Ok NetworkLayer
      else if value = ''network-forward'' \<or> value = ''network_forward'' then Ok NetworkForwardLayer
      else Err (InvalidLayer value))"

definition parse_backend_kind :: "string \<Rightarrow> (config_error, transparent_backend_kind) result" where
  "parse_backend_kind value =
     (if value = ''windivert'' then Ok WinDivertKind
      else if value = ''tun'' \<or> value = ''tun-rs'' \<or> value = ''tun_rs'' then Ok TunKind
      else Err (InvalidBackendKind value))"

definition parse_tun_stack :: "string \<Rightarrow> (config_error, tun_stack) result" where
  "parse_tun_stack value =
     (if value = ''system'' then Ok SystemStack
      else if value = ''smoltcp'' then Ok SmoltcpStack
      else Err (InvalidTunStack value))"

definition parse_tun_platform_dns :: "string \<Rightarrow> (config_error, tun_platform_dns_mode) result" where
  "parse_tun_platform_dns value =
     (if value = ''auto'' then Ok AutoDns
      else if value = ''manual'' then Ok ManualDns
      else Err (InvalidPlatformDns value))"

definition parse_tun_dns_hijack_target :: "string \<Rightarrow> (config_error, tun_dns_hijack_target) result" where
  "parse_tun_dns_hijack_target value =
     (case strip_prefix value ''any:'' of
        Some port \<Rightarrow> bind_r (ok_or (InvalidHijackPort port) (parse_u16 port)) (\<lambda>port. Ok (HijackAny port))
      | None \<Rightarrow> bind_r (ok_or (InvalidHijackAddress value) (parse_socket_addr value)) (\<lambda>addr. Ok (HijackExact addr)))"

definition parse_tun_dns_hijack_spec :: "string \<Rightarrow> (config_error, tun_dns_hijack_spec) result" where
  "parse_tun_dns_hijack_spec value =
     (let normalized = trim value
      in bind_r (ensure_r (normalized \<noteq> []) EmptyHijackEntry) (\<lambda>_.
         let (transport, target) =
           (case strip_prefix normalized ''tcp://'' of
              Some rest \<Rightarrow> (HijackTcp, rest)
            | None \<Rightarrow> (case strip_prefix normalized ''udp://'' of
                         Some rest \<Rightarrow> (HijackUdp, rest)
                       | None \<Rightarrow> (HijackUdp, normalized)))
         in bind_r (parse_tun_dns_hijack_target target) (\<lambda>target.
            Ok \<lparr>th_transport = transport, th_target = target\<rparr>)))"

definition windivert_try_from :: "raw_windivert_backend_options \<Rightarrow> (config_error, windivert_backend_options) result" where
  "windivert_try_from value = bind_r (parse_windivert_layer (rw_layer value)) (\<lambda>l. Ok \<lparr>wbo_layer = l\<rparr>)"

definition fake_dns_try_from ::
  "('h, 'j, 'y) config_env \<Rightarrow> raw_fake_dns_options \<Rightarrow> (config_error, fake_dns_options) result" where
  "fake_dns_try_from E value =
     bind_r (ok_or (InvalidDnsListen (rd_listen value)) (parse_socket_addr (rd_listen value))) (\<lambda>listen_addr.
     bind_r (ok_or (InvalidIpv4Range (rd_fake_ipv4_range value)) (cf_ipv4net_parse E (rd_fake_ipv4_range value))) (\<lambda>range4.
     bind_r (ok_or (InvalidIpv6Range (rd_fake_ipv6_range value)) (cf_ipv6net_parse E (rd_fake_ipv6_range value))) (\<lambda>range6.
     Ok \<lparr>fdo_listen_addr = listen_addr, fdo_fake_ipv4_range = range4, fdo_fake_ipv6_range = range6,
         fdo_record_ttl = secs (unat (rd_record_ttl_secs value))\<rparr>)))"

definition tun_try_from :: "raw_tun_backend_options \<Rightarrow> (config_error, tun_backend_options) result" where
  "tun_try_from value =
     bind_r (ensure_r (trim (rt_name value) \<noteq> []) EmptyTunName) (\<lambda>_.
     bind_r (ensure_r (rt_mtu value \<noteq> 0) ZeroMtu) (\<lambda>_.
     bind_r (parse_tun_stack (rt_stack value)) (\<lambda>stack.
     bind_r (parse_tun_platform_dns (rt_platform_dns value)) (\<lambda>platform_dns.
     bind_r (collect_r parse_tun_dns_hijack_spec (rt_dns_hijack value)) (\<lambda>dns_hijack.
     Ok \<lparr>tbo_name = rt_name value, tbo_mtu = rt_mtu value, tbo_stack = stack, tbo_platform_dns = platform_dns,
         tbo_dns_hijack = dns_hijack\<rparr>)))))"

definition backend_try_from ::
  "('h, 'j, 'y) config_env \<Rightarrow> raw_backend_options \<Rightarrow> (config_error, backend_options) result" where
  "backend_try_from E value =
     bind_r (parse_backend_kind (rb_kind value)) (\<lambda>kind.
     bind_r (fake_dns_try_from E (rb_dns value)) (\<lambda>dns.
     bind_r (windivert_try_from (rb_windivert value)) (\<lambda>windivert.
     bind_r (tun_try_from (rb_tun value)) (\<lambda>tun.
     Ok \<lparr>bo_kind = kind, bo_dns = dns, bo_windivert = windivert, bo_tun = tun\<rparr>))))"

definition telemetry_try_from :: "raw_telemetry_options \<Rightarrow> (config_error, telemetry_options) result" where
  "telemetry_try_from value =
     bind_r (ensure_r (trim (rte_service_name value) \<noteq> []) EmptyServiceName) (\<lambda>_.
     bind_r (ensure_r (trim (rte_otlp_endpoint value) \<noteq> []) EmptyOtlpEndpoint) (\<lambda>_.
     Ok \<lparr>to_service_name = rte_service_name value, to_otlp_endpoint = rte_otlp_endpoint value\<rparr>))"

definition observability_try_from :: "raw_observability_options \<Rightarrow> (config_error, observability_options) result" where
  "observability_try_from value =
     bind_r (telemetry_try_from (ro_telemetry value)) (\<lambda>telemetry.
     Ok \<lparr>oo_enabled = ro_enable value, oo_telemetry = telemetry\<rparr>)"

definition parse_plugin_engine :: "string \<Rightarrow> (config_error, plugin_engine) result" where
  "parse_plugin_engine value =
     (let v = to_ascii_lowercase (trim value)
      in if v = ''quickjs'' then Ok QuickJs else Err (UnsupportedEngine v))"

definition engine_label :: "plugin_engine \<Rightarrow> string" where
  "engine_label e = (case e of QuickJs \<Rightarrow> ''quickjs'')"

definition permissions_from_raw :: "raw_plugin_permissions \<Rightarrow> plugin_permissions" where
  "permissions_from_raw value = \<lparr>pp_on_request_body = rpp_on_request value, pp_on_response_body = rpp_on_response value\<rparr>"

definition resolve_plugin_root :: "string \<Rightarrow> string \<Rightarrow> string" where
  "resolve_plugin_root base_dir root =
     (if path_is_absolute root then root
      else if length (path_components root) = 1 then path_join (path_join base_dir ''plugins'') root
      else path_join base_dir root)"

record 'j parsed_plugin_definition =
  ppd_definition :: "'j plugin_definition"
  ppd_implicit_rule :: "'j rule_schema option"

definition parsed_plugin_from_raw ::
  "('h, 'j, 'y) config_env \<Rightarrow> string \<Rightarrow> 'y raw_plugin_definition \<Rightarrow> (config_error, 'j parsed_plugin_definition) result" where
  "parsed_plugin_from_raw E base_dir value =
     bind_r (ensure_r (trim (rpd_name value) \<noteq> []) EmptyPluginName) (\<lambda>_.
     let plugin_name = rpd_name value;
         root_value = unwrap_or plugin_name (rpd_root value)
     in bind_r (ensure_r (trim root_value \<noteq> []) (EmptyPluginRoot plugin_name)) (\<lambda>_.
        let root = resolve_plugin_root base_dir root_value;
            implicit_rule = (if rpd_enabled value
              then map_option (\<lambda>matcher. \<lparr>rs_matcher = matcher, rs_priority = None, rs_spread = None,
                                          rs_action = SPlugin plugin_name\<rparr>) (rpd_matcher value)
              else None)
        in bind_r (parse_plugin_engine (rpd_engine value)) (\<lambda>engine.
           bind_r (ok_or PluginConfigNotJson (cf_yaml_to_json E (rpd_config value))) (\<lambda>config.
           Ok \<lparr>ppd_definition = \<lparr>pd_name = plugin_name, pd_engine = engine, pd_enabled = rpd_enabled value, pd_root = root,
                  pd_permissions = permissions_from_raw (rpd_permissions value), pd_config = config\<rparr>,
               ppd_implicit_rule = implicit_rule\<rparr>))))"

text \<open>The loop over the plugin definitions with its set of names and its two result vectors.\<close>

fun plugins_loop ::
  "('h, 'j, 'y) config_env \<Rightarrow> string \<Rightarrow> 'y raw_plugin_definition list \<Rightarrow> string set \<Rightarrow> 'j plugin_definition list \<Rightarrow>
     'j rule_schema list \<Rightarrow> (config_error, 'j plugin_definition list \<times> 'j rule_schema list) result" where
  "plugins_loop E base_dir [] names definitions implicit_rules = Ok (definitions, implicit_rules)"
| "plugins_loop E base_dir (d # ds) names definitions implicit_rules =
     bind_r (parsed_plugin_from_raw E base_dir d) (\<lambda>parsed.
     let name = pd_name (ppd_definition parsed)
     in if name \<in> names then Err (DuplicatePlugin name)
        else plugins_loop E base_dir ds (insert name names) (definitions @ [ppd_definition parsed])
               (implicit_rules @ (case ppd_implicit_rule parsed of Some r \<Rightarrow> [r] | None \<Rightarrow> [])))"

definition plugin_runtime_from_raw ::
  "('h, 'j, 'y) config_env \<Rightarrow> string \<Rightarrow> 'y raw_plugin_runtime_options \<Rightarrow>
     (config_error, 'j plugin_runtime_options \<times> 'j rule_schema list) result" where
  "plugin_runtime_from_raw E base_dir value =
     bind_r (ensure_r (rpr_workers value \<noteq> 0) ZeroWorkers) (\<lambda>_.
     bind_r (plugins_loop E base_dir (rpr_includes value) {} [] []) (\<lambda>(definitions, implicit_rules).
     Ok (\<lparr>pro_enabled = rpr_enabled value, pro_workers = rpr_workers value, pro_definitions = definitions\<rparr>, implicit_rules)))"

definition resolve_rule_asset_path :: "string \<Rightarrow> string \<Rightarrow> string" where
  "resolve_rule_asset_path base_dir file =
     (if path_is_absolute file then file else path_join base_dir file)"

definition resolve_respond_body_file_path ::
  "string \<Rightarrow> 'j respond_body_schema \<Rightarrow> (config_error, 'j respond_body_schema) result" where
  "resolve_respond_body_file_path base_dir body =
     (case bs_file body of
        None \<Rightarrow> Ok body
      | Some file \<Rightarrow>
          (let trimmed = trim file
           in bind_r (ensure_r (trimmed \<noteq> []) EmptyBodyFile) (\<lambda>_.
              Ok (body\<lparr>bs_file := Some (resolve_rule_asset_path base_dir trimmed)\<rparr>))))"

definition resolve_rule_body :: "string \<Rightarrow> 'j rule_schema \<Rightarrow> (config_error, 'j rule_schema) result" where
  "resolve_rule_body base_dir r =
     (case rs_action r of
        SRespond status headers content_type (Some body) \<Rightarrow>
          bind_r (resolve_respond_body_file_path base_dir body) (\<lambda>body.
          Ok (r\<lparr>rs_action := SRespond status headers content_type (Some body)\<rparr>))
      | _ \<Rightarrow> Ok r)"

definition resolve_rule_body_file_paths :: "string \<Rightarrow> 'j rule_schema list \<Rightarrow> (config_error, 'j rule_schema list) result" where
  "resolve_rule_body_file_paths base_dir rules = collect_r (resolve_rule_body base_dir) rules"

text \<open>\<^verbatim>\<open>load_config\<close> from the parsed document on; \<open>config_dir\<close> is the directory of the file.\<close>

definition load_config ::
  "('h, 'j, 'y) config_env \<Rightarrow> string \<Rightarrow> ('j, 'y) raw_config \<Rightarrow> (config_error, ('h, 'j) app_config) result" where
  "load_config E config_dir parsed =
     bind_r (ok_or (InvalidListen (rc_listen parsed)) (parse_socket_addr (rc_listen parsed))) (\<lambda>listen_addr.
     bind_r (plugin_runtime_from_raw E config_dir (rc_plugins parsed)) (\<lambda>(plugins, implicit_plugin_rules).
     bind_r (resolve_rule_body_file_paths config_dir (rc_includes parsed @ implicit_plugin_rules)) (\<lambda>rule_schemas.
     bind_r (case compile_rule_set (cf_compile E) rule_schemas of Inl e \<Rightarrow> Err (RuleFailed e) | Inr rules \<Rightarrow> Ok rules) (\<lambda>rules.
     bind_r (ensure_r (rule_set_len rules \<noteq> 0) NoIncludeRules) (\<lambda>_.
     bind_r (backend_try_from E (rc_backend parsed)) (\<lambda>backend.
     bind_r (observability_try_from (rc_observability parsed)) (\<lambda>observability.
     Ok \<lparr>ac_listen_addr = listen_addr, ac_tls_port = rc_tls_port parsed, ac_backend = backend,
         ac_observability = observability, ac_plugins = plugins, ac_rules = rules\<rparr>)))))))"

section \<open>Aliases\<close>

definition extract_config_alias :: "string \<Rightarrow> string option" where
  "extract_config_alias path =
     (if length (path_components path) \<noteq> 1 then None
      else case path_file_name path of
        None \<Rightarrow> None
      | Some file_name \<Rightarrow>
          if to_ascii_lowercase file_name = ''config.yml'' \<or> to_ascii_lowercase file_name = ''config.yaml'' then None
          else if contains_char file_name CHR ''.'' then None
          else Some file_name)"

definition alias_candidates :: "string \<Rightarrow> string list" where
  "alias_candidates a = [''config.'' @ a @ ''.yaml'', ''config.'' @ a @ ''.yml'', a @ ''.yaml'', a @ ''.yml'']"

definition resolve_config_path :: "(string \<Rightarrow> bool) \<Rightarrow> string \<Rightarrow> (config_error, string) result" where
  "resolve_config_path is_file path =
     (if is_file path then Ok path
      else case extract_config_alias path of
        None \<Rightarrow> Ok path
      | Some a \<Rightarrow>
          (case find is_file (alias_candidates a) of
             Some candidate \<Rightarrow> Ok candidate
           | None \<Rightarrow> Err (UnresolvedAlias a (alias_candidates a))))"

section \<open>Facts\<close>

lemma collect_r_length: "collect_r f xs = Ok ys \<Longrightarrow> length ys = length xs"
  by (simp add: collect_r_Ok_iff list_all2_lengthD)

lemma plugins_loop_ok:
  assumes "plugins_loop E b ds names defs rules = Ok (defs', rules')"
  obtains ps where "list_all2 (\<lambda>d p. parsed_plugin_from_raw E b d = Ok p) ds ps"
    "defs' = defs @ map ppd_definition ps"
    "rules' = rules @ List.map_filter ppd_implicit_rule ps"
    "distinct (map (\<lambda>p. pd_name (ppd_definition p)) ps)"
    "names \<inter> set (map (\<lambda>p. pd_name (ppd_definition p)) ps) = {}"
  using assms
proof (induction ds arbitrary: names defs rules thesis)
  case Nil
  then show ?case by simp
next
  case (Cons d ds)
  from Cons.prems(2) obtain p where p: "parsed_plugin_from_raw E b d = Ok p" "pd_name (ppd_definition p) \<notin> names"
    "plugins_loop E b ds (insert (pd_name (ppd_definition p)) names) (defs @ [ppd_definition p])
       (rules @ (case ppd_implicit_rule p of Some r \<Rightarrow> [r] | None \<Rightarrow> [])) = Ok (defs', rules')"
    by (auto simp: bind_r_Ok_iff Let_def split: if_splits)
  show ?case
    by (rule Cons.IH [OF _ p(3)], rule Cons.prems(1) [of "p # _"])
       (use p(1,2) in \<open>auto simp: List.map_filter_simps split: option.splits\<close>)
qed

lemma parsed_plugin_ok:
  assumes "parsed_plugin_from_raw E b d = Ok p"
  shows "pd_name (ppd_definition p) = rpd_name d" "trim (rpd_name d) \<noteq> []"
    "ppd_implicit_rule p = (if rpd_enabled d then map_option (\<lambda>m. \<lparr>rs_matcher = m, rs_priority = None, rs_spread = None,
       rs_action = SPlugin (rpd_name d)\<rparr>) (rpd_matcher d) else None)"
    "pd_permissions (ppd_definition p) = permissions_from_raw (rpd_permissions d)"
  using assms by (auto simp: parsed_plugin_from_raw_def bind_r_Ok_iff ensure_r_def Let_def split: if_splits)

lemma plugin_runtime_ok:
  assumes "plugin_runtime_from_raw E b v = Ok (opts, rules)"
  shows "pro_workers opts \<noteq> 0" "map pd_name (pro_definitions opts) = map rpd_name (rpr_includes v)"
    "distinct (map rpd_name (rpr_includes v))" "\<forall>d \<in> set (rpr_includes v). trim (rpd_name d) \<noteq> []"
    "rules = List.map_filter (\<lambda>d. if rpd_enabled d then map_option (\<lambda>m. \<lparr>rs_matcher = m, rs_priority = None,
       rs_spread = None, rs_action = SPlugin (rpd_name d)\<rparr>) (rpd_matcher d) else None) (rpr_includes v)"
proof -
  from assms have w: "rpr_workers v \<noteq> 0" and l: "plugins_loop E b (rpr_includes v) {} [] [] = Ok (pro_definitions opts, rules)"
    and o: "pro_workers opts = rpr_workers v"
    by (auto simp: plugin_runtime_from_raw_def bind_r_Ok_iff ensure_r_def split: if_splits)
  from l obtain ps where ps: "list_all2 (\<lambda>d p. parsed_plugin_from_raw E b d = Ok p) (rpr_includes v) ps"
    "pro_definitions opts = map ppd_definition ps" "rules = List.map_filter ppd_implicit_rule ps"
    "distinct (map (\<lambda>p. pd_name (ppd_definition p)) ps)"
    by (rule plugins_loop_ok) simp
  have names: "map (\<lambda>p. pd_name (ppd_definition p)) ps = map rpd_name (rpr_includes v)"
    using ps(1) by (induction rule: list_all2_induct) (simp_all add: parsed_plugin_ok(1))
  show "pro_workers opts \<noteq> 0" using w o by simp
  show "map pd_name (pro_definitions opts) = map rpd_name (rpr_includes v)" using ps(2) names by (simp add: comp_def)
  show "distinct (map rpd_name (rpr_includes v))" using ps(4) names by simp
  show "\<forall>d \<in> set (rpr_includes v). trim (rpd_name d) \<noteq> []"
    using ps(1) by (induction rule: list_all2_induct) (auto dest: parsed_plugin_ok(2))
  show "rules = List.map_filter (\<lambda>d. if rpd_enabled d then map_option (\<lambda>m. \<lparr>rs_matcher = m, rs_priority = None,
       rs_spread = None, rs_action = SPlugin (rpd_name d)\<rparr>) (rpd_matcher d) else None) (rpr_includes v)"
    unfolding ps(3) using ps(1)
    by (induction rule: list_all2_induct) (auto simp: List.map_filter_simps parsed_plugin_ok(3) split: option.splits)
qed

lemma tun_ok: "tun_try_from v = Ok t \<Longrightarrow> tbo_mtu t \<noteq> 0 \<and> trim (tbo_name t) \<noteq> []"
  by (auto simp: tun_try_from_def bind_r_Ok_iff ensure_r_def split: if_splits)

lemma load_config_ok:
  assumes "load_config E dir parsed = Ok cfg"
  obtains implicit schemas where
    "plugin_runtime_from_raw E dir (rc_plugins parsed) = Ok (ac_plugins cfg, implicit)"
    "resolve_rule_body_file_paths dir (rc_includes parsed @ implicit) = Ok schemas"
    "compile_rule_set (cf_compile E) schemas = Ok (ac_rules cfg)" "rule_set_len (ac_rules cfg) \<noteq> 0"
    "backend_try_from E (rc_backend parsed) = Ok (ac_backend cfg)"
  using assms by (auto simp: load_config_def bind_r_Ok_iff ensure_r_def split: if_splits sum.splits)

lemma list_all2_self: "list_all2 (\<lambda>x y. Ok (f x) = Ok y) xs ys \<longleftrightarrow> ys = map f xs"
  by (auto simp: list_all2_conv_all_nth list_eq_iff_nth_eq)

lemma plugin_rules_compiled:
  assumes "list_all2 (\<lambda>v r. compile_rule_schema E v = Ok r)
      (List.map_filter (\<lambda>d. if en d then map_option (\<lambda>m. \<lparr>rs_matcher = m, rs_priority = None,
         rs_spread = None, rs_action = SPlugin (nm d)\<rparr>) (mt d) else None) ds) rs"
  shows "map r_action rs = map (\<lambda>d. ActPlugin (nm d)) (filter (\<lambda>d. en d \<and> mt d \<noteq> None) ds)
    \<and> list_all (\<lambda>r. r_priority r = MEDIUM \<and> \<not> r_spread r) rs"
  using assms
proof (induction ds arbitrary: rs)
  case (Cons d ds)
  have "r_action r = ActPlugin n \<and> r_priority r = MEDIUM \<and> \<not> r_spread r"
    if "compile_rule_schema E \<lparr>rs_matcher = m, rs_priority = None, rs_spread = None, rs_action = SPlugin n\<rparr> = Ok r" for m n r
    using that by (auto simp: compile_rule_schema_def compile_action_def bind_r_Ok_iff)
  with Cons show ?case
    by (fastforce simp: List.map_filter_simps list_all2_Cons1 split: if_splits option.splits)
qed (simp add: List.map_filter_simps)

section \<open>Properties\<close>

text \<open>A document with a plugin of its own match clause and an empty backend section.\<close>

definition sample_config_env :: "(unit, unit, unit) config_env" where
  "sample_config_env = \<lparr>cf_compile = sample_env, cf_ipv4net_parse = \<lambda>_. Some sample_net4,
     cf_ipv6net_parse = \<lambda>_. Some sample_net6, cf_yaml_to_json = Some, cf_parallelism = Some 4, cf_windows = False\<rparr>"

definition sample_doc :: "doc_backend option \<Rightarrow> (unit, unit) doc_config" where
  "sample_doc backend = \<lparr>dc_listen = None, dc_tls_port = None, dc_backend = backend, dc_observability = None,
     dc_plugins = Some \<lparr>dp_enabled = Some True, dp_workers = None, dp_includes = Some [\<lparr>dpd_name = ''demo'', dpd_engine = None,
       dpd_enabled = None, dpd_root = None, dpd_matcher = Some (no_match\<lparr>ms_prefix := Some ''https://a.io/x''\<rparr>),
       dpd_request_body = None, dpd_response_body = None, dpd_config = ()\<rparr>]\<rparr>,
     dc_includes = Some sample_config\<rparr>"

definition empty_backend :: doc_backend where
  "empty_backend = \<lparr>db_kind = None, db_dns = None, db_windivert = None, db_tun = None\<rparr>"

lemma sample_trims:
  "trim ''any:53'' = ''any:53''" "trim ''tcp://any:53'' = ''tcp://any:53''" "trim ''demo'' = ''demo''"
  "trim ''anymirror-tun'' = ''anymirror-tun''" "trim ''anymirror'' = ''anymirror''"
  "trim ''http://127.0.0.1:4317'' = ''http://127.0.0.1:4317''" "trim ''quickjs'' = ''quickjs''"
  by (rule trim_graphic; simp add: ascii_graphic_def)+

lemma sample_engine: "parse_plugin_engine ''quickjs'' = Ok QuickJs"
  by (simp add: parse_plugin_engine_def sample_trims to_ascii_lowercase_def ascii_lower_def is_ascii_uppercase_def)

lemma sample_strings:
  "parse_socket_addr ''127.0.0.1:8787'' = Some \<lparr>sock_ip = V4 0x7F000001, sock_port = 8787, sock_scope_id = 0\<rparr>"
  "parse_socket_addr ''127.0.0.1:15353'' = Some \<lparr>sock_ip = V4 0x7F000001, sock_port = 15353, sock_scope_id = 0\<rparr>"
  "parse_tun_dns_hijack_spec ''any:53'' = Ok \<lparr>th_transport = HijackUdp, th_target = HijackAny 53\<rparr>"
  "parse_tun_dns_hijack_spec ''tcp://any:53'' = Ok \<lparr>th_transport = HijackTcp, th_target = HijackAny 53\<rparr>"
  by (simp_all add: parse_socket_addr_def read_socket_addr_v4_def read_port_def parse_tun_dns_hijack_spec_def
      parse_tun_dns_hijack_target_def parse_u16_def sample_trims ip_parse_eval)

lemma sample_rules_compile:
  "\<exists>rset. compile_rule_set sample_env (sample_config @ [\<lparr>rs_matcher = no_match\<lparr>ms_prefix := Some ''https://a.io/x''\<rparr>,
      rs_priority = None, rs_spread = None, rs_action = SPlugin ''demo''\<rparr>]) = Ok rset \<and> rule_set_len rset = 3"
  by (simp add: compile_rule_set_def sample_config_def compile_rule_schema_def sample_schema_def
      sample_matchers sample_env_def Let_def compile_action_def valid_status_def trim_no validate_matcher_action_def
      sample_trims rule_set_len_def rule_set_new_def)

lemma sample_doc_loads:
  "\<exists>cfg. load_config sample_config_env ''/etc'' (de_config sample_config_env (sample_doc (Some empty_backend))) = Ok cfg"
proof -
  have body: "resolve_rule_body_file_paths ''/etc'' (sample_config @ [\<lparr>rs_matcher = m, rs_priority = None, rs_spread = None,
      rs_action = SPlugin ''demo''\<rparr>]) = Ok (sample_config @ [\<lparr>rs_matcher = m, rs_priority = None, rs_spread = None,
      rs_action = SPlugin ''demo''\<rparr>])" for m
    by (simp add: resolve_rule_body_file_paths_def resolve_rule_body_def sample_config_def sample_schema_def)
  note raw = de_config_def sample_doc_def empty_backend_def de_backend_def de_plugins_def de_plugin_definition_def
    default_plugin_workers_def default_listen_addr_def default_backend_kind_def default_plugin_engine_def
    default_plugin_enabled_def raw_observability_default_def raw_telemetry_default_def default_telemetry_service_name_def
    default_telemetry_otlp_endpoint_def raw_fake_dns_default_def default_backend_dns_listen_addr_def raw_windivert_default_def
    default_windivert_layer_def raw_tun_default_def default_tun_name_def default_tun_mtu_def default_tun_stack_def
    default_tun_platform_dns_def default_tun_dns_hijack_def
  show ?thesis using sample_rules_compile
    by (auto simp: load_config_def raw sample_strings sample_trims sample_engine Let_def sample_config_env_def plugin_runtime_from_raw_def
        parsed_plugin_from_raw_def body backend_try_from_def parse_backend_kind_def fake_dns_try_from_def
        windivert_try_from_def parse_windivert_layer_def tun_try_from_def parse_tun_stack_def parse_tun_platform_dns_def
        observability_try_from_def telemetry_try_from_def)
qed

text \<open>
  C19. What a loaded configuration guarantees to the rest of the program: there is a rule, a plugin worker and a
  usable TUN device, and plugin names are not blank, unique and in the order of the file.
\<close>

theorem loaded_config_valid:
  assumes "load_config E dir parsed = Ok cfg"
  shows "rule_set_len (ac_rules cfg) \<noteq> 0 \<and> pro_workers (ac_plugins cfg) \<noteq> 0
    \<and> tbo_mtu (bo_tun (ac_backend cfg)) \<noteq> 0 \<and> trim (tbo_name (bo_tun (ac_backend cfg))) \<noteq> []
    \<and> map pd_name (pro_definitions (ac_plugins cfg)) = map rpd_name (rpr_includes (rc_plugins parsed))
    \<and> distinct (map pd_name (pro_definitions (ac_plugins cfg)))
    \<and> (\<forall>d \<in> set (pro_definitions (ac_plugins cfg)). trim (pd_name d) \<noteq> [])"
proof -
  obtain implicit schemas where l: "plugin_runtime_from_raw E dir (rc_plugins parsed) = Ok (ac_plugins cfg, implicit)"
    "rule_set_len (ac_rules cfg) \<noteq> 0" "backend_try_from E (rc_backend parsed) = Ok (ac_backend cfg)"
    by (rule load_config_ok [OF assms])
  note p = plugin_runtime_ok [OF l(1)]
  have "trim n \<noteq> []" if "n \<in> set (map pd_name (pro_definitions (ac_plugins cfg)))" for n
    using that p(4) unfolding p(2) by auto
  then have "\<forall>d \<in> set (pro_definitions (ac_plugins cfg)). trim (pd_name d) \<noteq> []" by auto
  moreover have "tun_try_from (rb_tun (rc_backend parsed)) = Ok (bo_tun (ac_backend cfg))"
    using l(3) by (auto simp: backend_try_from_def bind_r_Ok_iff eq_commute [of _ "ac_backend cfg"])
  ultimately show ?thesis using l(2) p(1-3) tun_ok by auto
qed

theorem loaded_config_valid_witness:
  "\<exists>cfg. load_config sample_config_env ''/etc'' (de_config sample_config_env (sample_doc (Some empty_backend))) = Ok cfg
     \<and> map pd_name (pro_definitions (ac_plugins cfg)) = [''demo'']"
  using sample_doc_loads loaded_config_valid [of sample_config_env "''/etc''"]
  by (fastforce simp: de_config_def sample_doc_def de_plugins_def de_plugin_definition_def)

text \<open>
  The rules of a loaded configuration are those of the file, in their order, followed by one rule for
  each enabled plugin with a match clause. Those rules name the plugin, have the default priority and do not
  spread, so that at equal priority a rule of the file comes first.
\<close>

theorem plugin_rules_follow_file_rules:
  assumes "load_config E dir parsed = Ok cfg"
  shows "\<exists>file_rules plugin_rules. ac_rules cfg = rule_set_new (file_rules @ plugin_rules)
    \<and> length file_rules = length (rc_includes parsed)
    \<and> map r_action plugin_rules = map (\<lambda>d. ActPlugin (rpd_name d))
        (filter (\<lambda>d. rpd_enabled d \<and> rpd_matcher d \<noteq> None) (rpr_includes (rc_plugins parsed)))
    \<and> list_all (\<lambda>r. r_priority r = MEDIUM \<and> \<not> r_spread r) plugin_rules"
proof -
  obtain implicit schemas where l: "plugin_runtime_from_raw E dir (rc_plugins parsed) = Ok (ac_plugins cfg, implicit)"
    "resolve_rule_body_file_paths dir (rc_includes parsed @ implicit) = Ok schemas"
    "compile_rule_set (cf_compile E) schemas = Ok (ac_rules cfg)"
    by (rule load_config_ok [OF assms])
  note imp = plugin_runtime_ok(5) [OF l(1)]
  from l(2) obtain files same where s: "schemas = files @ same" "length files = length (rc_includes parsed)"
    "list_all2 (\<lambda>x y. resolve_rule_body dir x = Ok y) implicit same"
    by (auto simp: resolve_rule_body_file_paths_def collect_r_Ok_iff list_all2_append1)
  have "\<forall>r \<in> set implicit. resolve_rule_body dir r = Ok r"
    unfolding imp by (auto simp: List.map_filter_def resolve_rule_body_def split: if_splits)
  then have "list_all2 (\<lambda>x y. Ok (id x) = Ok y) implicit same"
    using s(3) by (auto simp: list_all2_conv_all_nth)
  then have "same = implicit" by (simp only: list_all2_self list.map_id)
  with l(3) s(1) obtain rs where rs: "ac_rules cfg = rule_set_new rs"
    "list_all2 (\<lambda>v r. compile_rule_schema (cf_compile E) v = Ok r) (files @ implicit) rs"
    by (auto simp: compile_rule_set_def bind_r_Ok_iff collect_r_Ok_iff eq_commute [of _ "ac_rules cfg"])
  from rs(2) obtain rs1 rs2 where r12: "rs = rs1 @ rs2" "length rs1 = length files"
    "list_all2 (\<lambda>v r. compile_rule_schema (cf_compile E) v = Ok r) implicit rs2"
    by (auto simp: list_all2_append1)
  from plugin_rules_compiled [OF r12(3) [unfolded imp]] rs(1) r12(1,2) s(2) show ?thesis by metis
qed

theorem plugin_rules_follow_file_rules_witness:
  "\<exists>cfg file_rules plugin_rules.
     load_config sample_config_env ''/etc'' (de_config sample_config_env (sample_doc (Some empty_backend))) = Ok cfg
     \<and> ac_rules cfg = rule_set_new (file_rules @ plugin_rules) \<and> length file_rules = 2
     \<and> map r_action plugin_rules = [ActPlugin ''demo'']"
proof -
  obtain cfg where l: "load_config sample_config_env ''/etc'' (de_config sample_config_env (sample_doc (Some empty_backend))) = Ok cfg"
    using sample_doc_loads by blast
  from plugin_rules_follow_file_rules [OF l] l show ?thesis
    by (fastforce simp: de_config_def sample_doc_def de_plugins_def de_plugin_definition_def sample_config_def
        default_plugin_enabled_def)
qed

text \<open>
  A configuration without a \<^verbatim>\<open>backend\<close> section is rejected, whatever else it says, although every key of the
  section has a default: the derived default of the section leaves the backend kind empty.
\<close>

theorem missing_backend_section_rejected:
  assumes "dc_backend d = None"
  shows "\<exists>e. load_config E dir (de_config E d) = Err e"
proof (cases "load_config E dir (de_config E d)")
  case (Inr cfg)
  then have "backend_try_from E (raw_backend_default E) = Ok (ac_backend cfg)"
    using assms by (elim load_config_ok) (simp add: de_config_def)
  then show ?thesis by (simp add: backend_try_from_def raw_backend_default_def parse_backend_kind_def)
qed simp

text \<open>The same document with the section present and empty loads.\<close>

theorem missing_backend_section_rejected_witness:
  "(\<exists>e. load_config sample_config_env ''/etc'' (de_config sample_config_env (sample_doc None)) = Err e)
   \<and> (\<exists>cfg. load_config sample_config_env ''/etc'' (de_config sample_config_env (sample_doc (Some empty_backend))) = Ok cfg)"
  using missing_backend_section_rejected [of "sample_doc None"] sample_doc_loads by (simp add: sample_doc_def)

end
