(* ===== verification/Plugins.thy ===== *)
theory Plugins
  imports Config
begin

text \<open>
  The plugin registry: \<^verbatim>\<open>src/src/plugins/mod.rs\<close>, \<^verbatim>\<open>src/src/plugins/model.rs\<close> and
  \<^verbatim>\<open>src/src/supervisors/plugins.rs\<close>. What lies outside is the record \<open>plugin_env\<close>: the file
  system, the calls of a script runtime (the trait \<^verbatim>\<open>ScriptRuntimePool\<close>, whose result may be any
  function of the plugin, the stage and the input), and \<^verbatim>\<open>serde_json\<close>, \<^verbatim>\<open>base64\<close>. A serialised
  value is of type \<open>'j\<close>; what serde makes of a stage's output is the record of its fields. The
  \<^verbatim>\<open>anyhow\<close> errors are the constructors of \<open>plugin_error\<close>; a failing \<^verbatim>\<open>expect\<close> is \<open>PluginPanic\<close>.
\<close>

section \<open>Data\<close>

datatype plugin_stage = StageLoad | StageCompile | StageRequest | StageResponse

record plugin_stage_source =
  pss_module_name :: string
  pss_source :: string

record plugin_stage_sources =
  pss_on_load :: "plugin_stage_source option"
  pss_on_compile :: "plugin_stage_source option"
  pss_on_request :: "plugin_stage_source option"
  pss_on_response :: "plugin_stage_source option"

datatype plugin_host_pattern = PhExact string | PhAnyOf "string list" | PhSuffix string

record compiled_plugin_host_matcher =
  phm_pattern :: plugin_host_pattern
  phm_scheme :: "string option"
  phm_port :: "u16 option"
  phm_path_prefix :: "string option"
  phm_path_suffix :: "string option"

datatype compiled_plugin_matcher =
    PmExactUrl url
  | PmPrefixUrl url
  | PmHost compiled_plugin_host_matcher

datatype plugin_resolved_outcome =
    OutMirror upstream_plan
  | OutDirect
  | OutReject reject_rule_action

record compiled_plugin_rule =
  cpr_index :: nat
  cpr_matcher :: compiled_plugin_matcher
  cpr_action :: plugin_resolved_outcome

text \<open>\<^verbatim>\<open>ScriptRuntimePool::execute\<close>: plugin name, stage, root, module name, source and input.\<close>

type_synonym 'j script_runtime =
  "string \<Rightarrow> plugin_stage \<Rightarrow> string \<Rightarrow> string \<Rightarrow> string \<Rightarrow> 'j \<Rightarrow> 'j option"

record 'j active_plugin =
  ap_definition :: "'j plugin_definition"
  ap_request_stage :: "plugin_stage_source option"
  ap_response_stage :: "plugin_stage_source option"
  ap_runtime :: "'j script_runtime"
  ap_state :: 'j
  ap_program :: 'j
  ap_compiled_rules :: "compiled_plugin_rule list"

record 'j plugin_registry =
  pr_plugins :: "string \<rightharpoonup> 'j active_plugin"
  pr_disabled_plugins :: "string set"
  pr_missing_plugins :: "string set"

text \<open>What a stage returns.\<close>

record plugin_matcher_schema =
  pms_exact :: "string option"
  pms_prefix :: "string option"
  pms_host :: "string option"
  pms_hosts :: "string list option"
  pms_host_suffix :: "string option"
  pms_scheme :: "string option"
  pms_port :: "u16 option"
  pms_path_prefix :: "string option"
  pms_path_suffix :: "string option"

record plugin_dns_plan_schema =
  pds_mode :: dns_mode
  pds_server :: "string option"

record plugin_upstream_plan_schema =
  pus_url :: string
  pus_sni :: "string option"
  pus_host :: "string option"
  pus_connect_host :: "string option"
  pus_connect_ip :: "ip_addr option"
  pus_dns :: "plugin_dns_plan_schema option"

datatype plugin_action_schema =
    PaMirror plugin_upstream_plan_schema
  | PaDirect
  | PaReject "u16 option" "string option"

record plugin_rule_schema =
  prs_matcher :: plugin_matcher_schema
  prs_action :: plugin_action_schema

record 'j plugin_body_patch_schema =
  pb_text :: "string option"
  pb_json :: "'j option"
  pb_base64 :: "string option"

text \<open>The \<^verbatim>\<open>HashMap\<close> of header patches is the list of its entries in iteration order.\<close>

record 'j plugin_request_patch_schema =
  pqs_method :: "string option"
  pqs_url :: "string option"
  pqs_headers :: "(string \<times> string option) list option"
  pqs_body :: "'j plugin_body_patch_schema option"

record 'j plugin_request_output =
  pqo_action :: "plugin_action_schema option"
  pqo_request :: "'j plugin_request_patch_schema option"

record 'j plugin_response_output =
  pro_status :: "u16 option"
  pro_headers :: "(string \<times> string option) list option"
  pro_body :: "'j plugin_body_patch_schema option"

section \<open>Stage contexts (model.rs)\<close>

record plugin_header_input =
  phi_name :: string
  phi_value :: string

record plugin_body_input =
  pbi_kind :: string
  pbi_value :: string

record plugin_request_context =
  prq_source :: string
  prq_method :: string
  prq_url :: string
  prq_scheme :: string
  prq_host :: "string option"
  prq_port :: "u16 option"
  prq_path :: string
  prq_query :: "string option"
  prq_headers :: "plugin_header_input list"
  prq_body :: "plugin_body_input option"

record plugin_response_context =
  prc_status :: u16
  prc_headers :: "plugin_header_input list"
  prc_body :: "plugin_body_input option"

record plugin_header_patch =
  php_name :: string
  php_value :: "string option"

record plugin_request_patch =
  prp_method :: "string option"
  prp_url :: "string option"
  prp_headers :: "plugin_header_patch list"
  prp_body :: "string option"

record plugin_response_patch =
  psp_status :: "u16 option"
  psp_headers :: "plugin_header_patch list"
  psp_body :: "string option"

record plugin_match_dns =
  pmd_mode :: string
  pmd_server :: "string option"

record plugin_match_upstream =
  pmu_url :: string
  pmu_sni :: "string option"
  pmu_host :: "string option"
  pmu_connect_host :: "string option"
  pmu_connect_ip :: "ip_addr option"
  pmu_dns :: "plugin_match_dns option"

datatype plugin_match_action =
    MaMirror plugin_match_upstream
  | MaDirect
  | MaReject u16 string

record plugin_match_context =
  pmc_index :: nat
  pmc_action :: plugin_match_action

record plugin_request_plan =
  pqp_outcome :: plugin_resolved_outcome
  pqp_matched :: "plugin_match_context option"
  pqp_request_patch :: plugin_request_patch

record plugin_response_plan =
  psl_patch :: plugin_response_patch

record plugin_permission_context =
  ppc_on_request_body :: bool
  ppc_on_response_body :: bool

record 'j plugin_resolve_plugin_state =
  pps_name :: string
  pps_engine :: string
  pps_permissions :: plugin_permission_context
  pps_config :: 'j
  pps_state :: 'j
  pps_program :: 'j

record 'j plugin_request_stage_context =
  pqc_plugin :: "'j plugin_resolve_plugin_state"
  pqc_request :: plugin_request_context
  pqc_matched :: "plugin_match_context option"

record 'j plugin_response_stage_context =
  psc_plugin :: "'j plugin_resolve_plugin_state"
  psc_request :: plugin_request_context
  psc_matched :: "plugin_match_context option"
  psc_resolved_action :: plugin_match_action
  psc_response :: plugin_response_context

record 'j plugin_load_descriptor =
  pld_name :: string
  pld_engine :: string
  pld_permissions :: plugin_permission_context
  pld_config :: 'j

record 'j plugin_compile_descriptor =
  pcd_name :: string
  pcd_engine :: string
  pcd_permissions :: plugin_permission_context
  pcd_config :: 'j
  pcd_state :: 'j

record 'j plugin_env =
  pe_lib :: ext_lib
  pe_is_dir :: "string \<Rightarrow> bool"
  pe_exists :: "string \<Rightarrow> bool"
  pe_read_to_string :: "string \<Rightarrow> string option"
  pe_canonicalize :: "string \<Rightarrow> string option"
  pe_execute :: "'j script_runtime"
  pe_null :: 'j
  pe_get_rules :: "'j \<Rightarrow> 'j option"
  pe_load_input :: "'j plugin_load_descriptor \<Rightarrow> 'j option"
  pe_compile_input :: "'j plugin_compile_descriptor \<Rightarrow> 'j option"
  pe_request_input :: "'j plugin_request_stage_context \<Rightarrow> 'j option"
  pe_response_input :: "'j plugin_response_stage_context \<Rightarrow> 'j option"
  pe_load_output :: "'j \<Rightarrow> 'j option"
  pe_compile_output :: "'j \<Rightarrow> 'j option"
  pe_rule_schemas :: "'j \<Rightarrow> plugin_rule_schema list option"
  pe_request_output :: "'j \<Rightarrow> 'j plugin_request_output option"
  pe_response_output :: "'j \<Rightarrow> 'j plugin_response_output option"
  pe_json_to_vec :: "'j \<Rightarrow> string option"
  pe_base64_decode :: "string \<Rightarrow> string option"

datatype plugin_error =
    PluginPanic
  | EmptyPool
  | NoRuntimePool string
  | RootNotDirectory string
  | StageFileUnreadable string
  | StageFileEmpty string
  | StageFileNotCanonical string
  | NoStageFiles string
  | InputNotSerialized plugin_stage
  | StageFailed plugin_stage string
  | InvalidPayload plugin_stage string
  | ProgramRulesInvalid
  | PluginMatchNotExactlyOne
  | PluginExactCombined
  | PluginBadExactUrl string
  | PluginPrefixCombined
  | PluginBadPrefixUrl string
  | PluginHostsEmpty
  | PluginHostEmpty
  | PluginHostNotBare string
  | PluginHostSuffixEmpty
  | PluginHostSuffixNotBare string
  | PluginBadScheme string
  | PluginBadPathPrefix string
  | PluginBadPathSuffix string
  | PluginBadUpstreamUrl string
  | PluginDnsServerForbidden
  | PluginDnsServerRequired
  | PluginConnectHostAndIp
  | PluginDnsWithConnectIp
  | MatchedUrlInvalid string
  | BodyPatchNotExactlyOne
  | BodyPatchJson
  | BodyPatchBase64
  | BodyPatchForbidden string plugin_stage

definition permission_default :: plugin_permission_context where
  "permission_default = \<lparr>ppc_on_request_body = False, ppc_on_response_body = False\<rparr>"

definition permission_from :: "plugin_permissions \<Rightarrow> plugin_permission_context" where
  "permission_from value = \<lparr>ppc_on_request_body = pp_on_request_body value,
     ppc_on_response_body = pp_on_response_body value\<rparr>"

definition plugin_state_empty :: "'j \<Rightarrow> 'j plugin_resolve_plugin_state" where
  "plugin_state_empty null = \<lparr>pps_name = [], pps_engine = [], pps_permissions = permission_default,
     pps_config = null, pps_state = null, pps_program = null\<rparr>"

definition request_stage_context_new :: "'j \<Rightarrow> plugin_request_context \<Rightarrow> 'j plugin_request_stage_context" where
  "request_stage_context_new null request =
     \<lparr>pqc_plugin = plugin_state_empty null, pqc_request = request, pqc_matched = None\<rparr>"

definition request_with_plugin_state ::
  "'j plugin_resolve_plugin_state \<Rightarrow> plugin_match_context option \<Rightarrow> 'j plugin_request_stage_context \<Rightarrow>
     'j plugin_request_stage_context" where
  "request_with_plugin_state plugin matched c = c\<lparr>pqc_plugin := plugin, pqc_matched := matched\<rparr>"

definition response_stage_context_new ::
  "'j \<Rightarrow> plugin_request_context \<Rightarrow> plugin_match_action \<Rightarrow> plugin_response_context \<Rightarrow>
     'j plugin_response_stage_context" where
  "response_stage_context_new null request resolved_action response =
     \<lparr>psc_plugin = plugin_state_empty null, psc_request = request, psc_matched = None,
      psc_resolved_action = resolved_action, psc_response = response\<rparr>"

definition response_with_plugin_state ::
  "'j plugin_resolve_plugin_state \<Rightarrow> plugin_match_context option \<Rightarrow> 'j plugin_response_stage_context \<Rightarrow>
     'j plugin_response_stage_context" where
  "response_with_plugin_state plugin matched c = c\<lparr>psc_plugin := plugin, psc_matched := matched\<rparr>"

definition with_matched ::
  "plugin_match_context option \<Rightarrow> 'j plugin_response_stage_context \<Rightarrow> 'j plugin_response_stage_context" where
  "with_matched matched c = c\<lparr>psc_matched := matched\<rparr>"

definition request_patch_default :: plugin_request_patch where
  "request_patch_default = \<lparr>prp_method = None, prp_url = None, prp_headers = [], prp_body = None\<rparr>"

section \<open>Matched rules as stages see them\<close>

definition dns_mode_name :: "dns_mode \<Rightarrow> string" where
  "dns_mode_name m =
     (case m of DnsSystem \<Rightarrow> ''system'' | DnsUdp \<Rightarrow> ''udp'' | DnsDot \<Rightarrow> ''dot'' | DnsDoh \<Rightarrow> ''doh'')"

definition match_action_from_outcome :: "plugin_resolved_outcome \<Rightarrow> plugin_match_action" where
  "match_action_from_outcome outcome =
     (case outcome of
        OutDirect \<Rightarrow> MaDirect
      | OutReject reject \<Rightarrow> MaReject (rej_status reject) (rej_message reject)
      | OutMirror upstream \<Rightarrow>
          MaMirror \<lparr>pmu_url = url_as_str (up_url upstream), pmu_sni = up_sni upstream, pmu_host = up_host upstream,
            pmu_connect_host = up_connect_host upstream, pmu_connect_ip = up_connect_ip upstream,
            pmu_dns = map_option (\<lambda>dns. \<lparr>pmd_mode = dns_mode_name (dp_mode dns), pmd_server = dp_server dns\<rparr>)
              (up_dns upstream)\<rparr>)"

definition match_context_from_rule :: "compiled_plugin_rule \<Rightarrow> plugin_match_context" where
  "match_context_from_rule r = \<lparr>pmc_index = cpr_index r, pmc_action = match_action_from_outcome (cpr_action r)\<rparr>"

definition dns_mode_from_name :: "string \<Rightarrow> dns_mode" where
  "dns_mode_from_name m =
     (if m = ''system'' then DnsSystem else if m = ''udp'' then DnsUdp else if m = ''dot'' then DnsDot
      else if m = ''doh'' then DnsDoh else DnsSystem)"

definition match_action_into_outcome ::
  "ext_lib \<Rightarrow> plugin_match_action \<Rightarrow> (plugin_error, plugin_resolved_outcome) result" where
  "match_action_into_outcome L a =
     (case a of
        MaDirect \<Rightarrow> Ok OutDirect
      | MaReject status message \<Rightarrow> Ok (OutReject \<lparr>rej_status = status, rej_message = message\<rparr>)
      | MaMirror upstream \<Rightarrow>
          bind_r (ok_or (MatchedUrlInvalid (pmu_url upstream)) (url_parse L (pmu_url upstream))) (\<lambda>u.
          Ok (OutMirror \<lparr>up_url = u, up_sni = pmu_sni upstream, up_host = pmu_host upstream,
            up_connect_host = pmu_connect_host upstream, up_connect_ip = pmu_connect_ip upstream,
            up_dns = map_option (\<lambda>dns. \<lparr>dp_mode = dns_mode_from_name (pmd_mode dns), dp_server = pmd_server dns\<rparr>)
              (pmu_dns upstream)\<rparr>)))"

definition match_context_into_outcome ::
  "ext_lib \<Rightarrow> plugin_match_context \<Rightarrow> (plugin_error, plugin_resolved_outcome) result" where
  "match_context_into_outcome L c = match_action_into_outcome L (pmc_action c)"

definition request_plan_from_match ::
  "ext_lib \<Rightarrow> plugin_match_context \<Rightarrow> (plugin_error, plugin_request_plan) result" where
  "request_plan_from_match L matched =
     (case match_context_into_outcome L matched of
        Inl _ \<Rightarrow> Err PluginPanic
      | Inr outcome \<Rightarrow> Ok \<lparr>pqp_outcome = outcome, pqp_matched = Some matched,
          pqp_request_patch = request_patch_default\<rparr>)"

section \<open>Plugin rules\<close>

text \<open>The module has its own copies of the normalisation functions of \<^verbatim>\<open>rules/matching.rs\<close>.\<close>

definition plugin_normalize_host :: "string \<Rightarrow> (plugin_error, string) result" where
  "plugin_normalize_host value =
     (let trimmed = trim_end_matches CHR ''.'' (trim value)
      in bind_r (ensure_r (trimmed \<noteq> []) PluginHostEmpty) (\<lambda>_.
         bind_r (ensure_r (\<not> contains_str trimmed ''://'' \<and> \<not> contains_char trimmed CHR ''/'')
                   (PluginHostNotBare value)) (\<lambda>_.
         Ok (to_ascii_lowercase trimmed))))"

definition plugin_normalize_host_suffix :: "string \<Rightarrow> (plugin_error, string) result" where
  "plugin_normalize_host_suffix value =
     (let normalized = to_ascii_lowercase (trim_matches CHR ''.'' (trim value))
      in bind_r (ensure_r (normalized \<noteq> []) PluginHostSuffixEmpty) (\<lambda>_.
         bind_r (ensure_r (\<not> contains_str normalized ''://'' \<and> \<not> contains_char normalized CHR ''/'')
                   (PluginHostSuffixNotBare value)) (\<lambda>_.
         Ok normalized)))"

definition plugin_normalize_scheme :: "string \<Rightarrow> (plugin_error, string) result" where
  "plugin_normalize_scheme value =
     (if value = ''http'' \<or> value = ''https'' then Ok value else Err (PluginBadScheme value))"

definition plugin_normalize_path_prefix :: "string \<Rightarrow> (plugin_error, string) result" where
  "plugin_normalize_path_prefix value =
     bind_r (ensure_r (starts_with value ''/'') (PluginBadPathPrefix value)) (\<lambda>_. Ok value)"

definition is_ascii_alphanumeric :: "char \<Rightarrow> bool" where
  "is_ascii_alphanumeric c =
     (let n = (of_char c :: nat)
      in 48 \<le> n \<and> n \<le> 57 \<or> 65 \<le> n \<and> n \<le> 90 \<or> 97 \<le> n \<and> n \<le> 122)"

definition normalize_path_suffix :: "string \<Rightarrow> (plugin_error, string) result" where
  "normalize_path_suffix value =
     bind_r (ensure_r (starts_with value ''.'' \<or> starts_with value ''/''
         \<or> list_all (\<lambda>c. is_ascii_alphanumeric c \<or> c = CHR ''-'' \<or> c = CHR ''_'') value)
       (PluginBadPathSuffix value)) (\<lambda>_. Ok value)"

definition plugin_path_has_prefix :: "string \<Rightarrow> string \<Rightarrow> bool" where
  "plugin_path_has_prefix path pre =
     (if pre = ''/'' then True
      else if \<not> starts_with path pre then False
      else if ends_with pre ''/'' then True
      else (case byte_at path (length pre) of None \<Rightarrow> True | Some b \<Rightarrow> b = CHR ''/''))"

definition plugin_matcher_try_from ::
  "ext_lib \<Rightarrow> plugin_matcher_schema \<Rightarrow> (plugin_error, compiled_plugin_matcher) result" where
  "plugin_matcher_try_from L v =
     bind_r (ensure_r (count_some [pms_exact v \<noteq> None, pms_prefix v \<noteq> None, pms_host v \<noteq> None,
         pms_hosts v \<noteq> None, pms_host_suffix v \<noteq> None] = 1) PluginMatchNotExactlyOne) (\<lambda>_.
     bind_r (transpose_r plugin_normalize_scheme (pms_scheme v)) (\<lambda>scheme.
     bind_r (transpose_r plugin_normalize_path_prefix (pms_path_prefix v)) (\<lambda>path_pre.
     bind_r (transpose_r normalize_path_suffix (pms_path_suffix v)) (\<lambda>path_suf.
     let alone = (scheme = None \<and> pms_port v = None \<and> path_pre = None \<and> path_suf = None)
     in case pms_exact v of
          Some exact \<Rightarrow>
            bind_r (ensure_r alone PluginExactCombined) (\<lambda>_.
            bind_r (ok_or (PluginBadExactUrl exact) (url_parse L exact)) (\<lambda>u. Ok (PmExactUrl u)))
        | None \<Rightarrow>
       (case pms_prefix v of
          Some pre \<Rightarrow>
            bind_r (ensure_r alone PluginPrefixCombined) (\<lambda>_.
            bind_r (ok_or (PluginBadPrefixUrl pre) (url_parse L pre)) (\<lambda>u. Ok (PmPrefixUrl u)))
        | None \<Rightarrow>
            bind_r (case pms_host v of
                      Some host \<Rightarrow> bind_r (plugin_normalize_host host) (\<lambda>h. Ok (PhExact h))
                    | None \<Rightarrow>
                   (case pms_hosts v of
                      Some hosts \<Rightarrow>
                        bind_r (ensure_r (hosts \<noteq> []) PluginHostsEmpty) (\<lambda>_.
                        bind_r (collect_r plugin_normalize_host hosts) (\<lambda>hs. Ok (PhAnyOf hs)))
                    | None \<Rightarrow>
                        bind_r (ok_or PluginMatchNotExactlyOne (pms_host_suffix v)) (\<lambda>suf.
                        bind_r (plugin_normalize_host_suffix suf) (\<lambda>s. Ok (PhSuffix s))))) (\<lambda>pattern.
            Ok (PmHost \<lparr>phm_pattern = pattern, phm_scheme = scheme, phm_port = pms_port v,
              phm_path_prefix = path_pre, phm_path_suffix = path_suf\<rparr>)))))))"

definition plugin_host_matcher_matches :: "compiled_plugin_host_matcher \<Rightarrow> plugin_request_context \<Rightarrow> bool" where
  "plugin_host_matcher_matches m request =
     (if (case phm_scheme m of Some scheme \<Rightarrow> scheme \<noteq> prq_scheme request | None \<Rightarrow> False) then False
      else if (case phm_port m of Some port \<Rightarrow> Some port \<noteq> prq_port request | None \<Rightarrow> False) then False
      else if (case phm_path_prefix m of Some pre \<Rightarrow> \<not> plugin_path_has_prefix (prq_path request) pre | None \<Rightarrow> False)
      then False
      else if (case phm_path_suffix m of Some suf \<Rightarrow> \<not> ends_with (prq_path request) suf | None \<Rightarrow> False) then False
      else (case prq_host request of
              None \<Rightarrow> False
            | Some host \<Rightarrow>
                (case phm_pattern m of
                   PhExact expected \<Rightarrow> expected = host
                 | PhAnyOf expected \<Rightarrow> list_ex (\<lambda>entry. entry = host) expected
                 | PhSuffix expected \<Rightarrow>
                     host = expected
                     \<or> (case strip_suffix host expected of None \<Rightarrow> False | Some v \<Rightarrow> ends_with v ''.''))))"

definition plugin_matcher_matches :: "compiled_plugin_matcher \<Rightarrow> plugin_request_context \<Rightarrow> bool" where
  "plugin_matcher_matches m request =
     (case m of
        PmExactUrl expected \<Rightarrow> prq_url request = url_as_str expected
      | PmPrefixUrl expected \<Rightarrow>
          prq_scheme request = url_scheme expected \<and> prq_host request = url_host_str expected
          \<and> prq_port request = url_port_or_known_default expected
          \<and> plugin_path_has_prefix (prq_path request) (url_path expected)
      | PmHost host_matcher \<Rightarrow> plugin_host_matcher_matches host_matcher request)"

definition plugin_dns_plan_try_from :: "plugin_dns_plan_schema \<Rightarrow> (plugin_error, dns_plan) result" where
  "plugin_dns_plan_try_from v =
     (let plan = \<lparr>dp_mode = pds_mode v, dp_server = filter_opt (\<lambda>s. s \<noteq> []) (pds_server v)\<rparr>
      in bind_r (case dp_mode plan of
                   DnsSystem \<Rightarrow> ensure_r (dp_server plan = None) PluginDnsServerForbidden
                 | _ \<Rightarrow> ensure_r (dp_server plan \<noteq> None) PluginDnsServerRequired) (\<lambda>_. Ok plan))"

definition validate_plugin_plan :: "upstream_plan \<Rightarrow> (plugin_error, unit) result" where
  "validate_plugin_plan p =
     bind_r (ensure_r (\<not> (up_connect_host p \<noteq> None \<and> up_connect_ip p \<noteq> None)) PluginConnectHostAndIp) (\<lambda>_.
     bind_r (ensure_r (\<not> (up_connect_ip p \<noteq> None \<and> up_dns p \<noteq> None)) PluginDnsWithConnectIp) (\<lambda>_. Ok ()))"

definition plugin_upstream_try_from ::
  "ext_lib \<Rightarrow> plugin_upstream_plan_schema \<Rightarrow> (plugin_error, upstream_plan) result" where
  "plugin_upstream_try_from L v =
     bind_r (ok_or (PluginBadUpstreamUrl (pus_url v)) (url_parse L (pus_url v))) (\<lambda>u.
     bind_r (transpose_r plugin_dns_plan_try_from (pus_dns v)) (\<lambda>dns.
     let plan = \<lparr>up_url = u,
                 up_sni = filter_opt (\<lambda>s. s \<noteq> []) (pus_sni v),
                 up_host = filter_opt (\<lambda>s. s \<noteq> []) (pus_host v),
                 up_connect_host = filter_opt (\<lambda>s. s \<noteq> []) (pus_connect_host v),
                 up_connect_ip = pus_connect_ip v,
                 up_dns = dns\<rparr>
     in bind_r (validate_plugin_plan plan) (\<lambda>_. Ok plan)))"

definition plugin_outcome_try_from ::
  "ext_lib \<Rightarrow> plugin_action_schema \<Rightarrow> (plugin_error, plugin_resolved_outcome) result" where
  "plugin_outcome_try_from L v =
     (case v of
        PaMirror upstream \<Rightarrow> bind_r (plugin_upstream_try_from L upstream) (\<lambda>p. Ok (OutMirror p))
      | PaDirect \<Rightarrow> Ok OutDirect
      | PaReject status message \<Rightarrow>
          Ok (OutReject \<lparr>rej_status = unwrap_or 403 status,
            rej_message = unwrap_or ''request rejected by plugin'' message\<rparr>))"

definition compiled_plugin_rule_try_from_schema ::
  "ext_lib \<Rightarrow> nat \<times> plugin_rule_schema \<Rightarrow> (plugin_error, compiled_plugin_rule) result" where
  "compiled_plugin_rule_try_from_schema L iv =
     (case iv of (index, value) \<Rightarrow>
        bind_r (plugin_matcher_try_from L (prs_matcher value)) (\<lambda>matcher.
        bind_r (plugin_outcome_try_from L (prs_action value)) (\<lambda>action.
        Ok \<lparr>cpr_index = index, cpr_matcher = matcher, cpr_action = action\<rparr>)))"

definition extract_compiled_rules :: "'j plugin_env \<Rightarrow> 'j \<Rightarrow> (plugin_error, compiled_plugin_rule list) result" where
  "extract_compiled_rules E program =
     (case pe_get_rules E program of
        None \<Rightarrow> Ok []
      | Some rule_value \<Rightarrow>
          bind_r (ok_or ProgramRulesInvalid (pe_rule_schemas E rule_value)) (\<lambda>schemas.
          collect_r (compiled_plugin_rule_try_from_schema (pe_lib E)) (enumerate 0 schemas)))"

section \<open>Loading\<close>

definition stage_file_name :: "plugin_engine \<Rightarrow> plugin_stage \<Rightarrow> string" where
  "stage_file_name engine stage =
     (case (engine, stage) of
        (QuickJs, StageLoad) \<Rightarrow> ''on_load.js''
      | (QuickJs, StageCompile) \<Rightarrow> ''on_compile.js''
      | (QuickJs, StageRequest) \<Rightarrow> ''on_request.js''
      | (QuickJs, StageResponse) \<Rightarrow> ''on_response.js'')"

definition normalize_stage_module_name :: "'j plugin_env \<Rightarrow> string \<Rightarrow> (plugin_error, string) result" where
  "normalize_stage_module_name E stage_path =
     bind_r (ok_or (StageFileNotCanonical stage_path) (pe_canonicalize E stage_path)) (\<lambda>canonical.
     Ok (map (\<lambda>c. if c = CHR 0x5C then CHR ''/'' else c) canonical))"

definition load_stage_source ::
  "'j plugin_env \<Rightarrow> string \<Rightarrow> plugin_engine \<Rightarrow> plugin_stage \<Rightarrow> (plugin_error, plugin_stage_source option) result" where
  "load_stage_source E root engine stage =
     (let stage_path = path_join root (stage_file_name engine stage)
      in if \<not> pe_exists E stage_path then Ok None
         else
           bind_r (ok_or (StageFileUnreadable stage_path) (pe_read_to_string E stage_path)) (\<lambda>source.
           bind_r (ensure_r (trim source \<noteq> []) (StageFileEmpty stage_path)) (\<lambda>_.
           bind_r (normalize_stage_module_name E stage_path) (\<lambda>module_name.
           Ok (Some \<lparr>pss_module_name = module_name, pss_source = source\<rparr>)))))"

definition load_stage_sources ::
  "'j plugin_env \<Rightarrow> 'j plugin_definition \<Rightarrow> (plugin_error, plugin_stage_sources) result" where
  "load_stage_sources E d =
     bind_r (ensure_r (pe_is_dir E (pd_root d)) (RootNotDirectory (pd_root d))) (\<lambda>_.
     bind_r (load_stage_source E (pd_root d) (pd_engine d) StageLoad) (\<lambda>on_load.
     bind_r (load_stage_source E (pd_root d) (pd_engine d) StageCompile) (\<lambda>on_compile.
     bind_r (load_stage_source E (pd_root d) (pd_engine d) StageRequest) (\<lambda>on_request.
     bind_r (load_stage_source E (pd_root d) (pd_engine d) StageResponse) (\<lambda>on_response.
     bind_r (ensure_r (\<not> (on_load = None \<and> on_compile = None \<and> on_request = None \<and> on_response = None))
       (NoStageFiles (pd_root d))) (\<lambda>_.
     Ok \<lparr>pss_on_load = on_load, pss_on_compile = on_compile, pss_on_request = on_request,
         pss_on_response = on_response\<rparr>))))))"

definition execute_load_stage ::
  "'j plugin_env \<Rightarrow> 'j script_runtime \<Rightarrow> 'j plugin_definition \<Rightarrow> plugin_stage_sources \<Rightarrow>
     (plugin_error, 'j) result" where
  "execute_load_stage E runtime d sources =
     (case pss_on_load sources of
        None \<Rightarrow> Ok (pe_null E)
      | Some src \<Rightarrow>
          bind_r (ok_or (InputNotSerialized StageLoad) (pe_load_input E
            \<lparr>pld_name = pd_name d, pld_engine = engine_label (pd_engine d),
             pld_permissions = permission_from (pd_permissions d), pld_config = pd_config d\<rparr>)) (\<lambda>input.
          bind_r (ok_or (StageFailed StageLoad (pd_name d))
            (runtime (pd_name d) StageLoad (pd_root d) (pss_module_name src) (pss_source src) input)) (\<lambda>output.
          if output = pe_null E then Ok (pe_null E)
          else ok_or (InvalidPayload StageLoad (pd_name d)) (pe_load_output E output))))"

definition execute_compile_stage ::
  "'j plugin_env \<Rightarrow> 'j script_runtime \<Rightarrow> 'j plugin_definition \<Rightarrow> plugin_stage_sources \<Rightarrow> 'j \<Rightarrow>
     (plugin_error, 'j) result" where
  "execute_compile_stage E runtime d sources st =
     (case pss_on_compile sources of
        None \<Rightarrow> Ok (pe_null E)
      | Some src \<Rightarrow>
          bind_r (ok_or (InputNotSerialized StageCompile) (pe_compile_input E
            \<lparr>pcd_name = pd_name d, pcd_engine = engine_label (pd_engine d),
             pcd_permissions = permission_from (pd_permissions d), pcd_config = pd_config d, pcd_state = st\<rparr>)) (\<lambda>input.
          bind_r (ok_or (StageFailed StageCompile (pd_name d))
            (runtime (pd_name d) StageCompile (pd_root d) (pss_module_name src) (pss_source src) input)) (\<lambda>output.
          if output = pe_null E then Ok (pe_null E)
          else ok_or (InvalidPayload StageCompile (pd_name d)) (pe_compile_output E output))))"

section \<open>The registry\<close>

definition quickjs_pool_new :: "'j plugin_env \<Rightarrow> nat \<Rightarrow> (plugin_error, 'j script_runtime) result" where
  "quickjs_pool_new E worker_count =
     bind_r (ensure_r (worker_count \<noteq> 0) EmptyPool) (\<lambda>_. Ok (pe_execute E))"

definition build_runtime_pools ::
  "'j plugin_env \<Rightarrow> 'j plugin_runtime_options \<Rightarrow> (plugin_error, plugin_engine \<rightharpoonup> 'j script_runtime) result" where
  "build_runtime_pools E options =
     (if list_ex (\<lambda>d. pd_engine d = QuickJs) (pro_definitions options)
      then bind_r (quickjs_pool_new E (pro_workers options)) (\<lambda>pool. Ok [QuickJs \<mapsto> pool])
      else Ok Map.empty)"

definition load_plugin ::
  "'j plugin_env \<Rightarrow> (plugin_engine \<rightharpoonup> 'j script_runtime) \<Rightarrow> 'j plugin_definition \<Rightarrow>
     (plugin_error, 'j active_plugin) result" where
  "load_plugin E runtimes d =
     bind_r (ok_or (NoRuntimePool (pd_name d)) (runtimes (pd_engine d))) (\<lambda>runtime.
     bind_r (load_stage_sources E d) (\<lambda>sources.
     bind_r (execute_load_stage E runtime d sources) (\<lambda>st.
     bind_r (execute_compile_stage E runtime d sources st) (\<lambda>program.
     bind_r (extract_compiled_rules E program) (\<lambda>compiled_rules.
     Ok \<lparr>ap_definition = d, ap_request_stage = pss_on_request sources, ap_response_stage = pss_on_response sources,
         ap_runtime = runtime, ap_state = st, ap_program = program, ap_compiled_rules = compiled_rules\<rparr>)))))"

fun build_loop ::
  "'j plugin_env \<Rightarrow> (plugin_engine \<rightharpoonup> 'j script_runtime) \<Rightarrow> 'j plugin_definition list \<Rightarrow>
     (string \<rightharpoonup> 'j active_plugin) \<Rightarrow> string set \<Rightarrow>
     (plugin_error, (string \<rightharpoonup> 'j active_plugin) \<times> string set) result" where
  "build_loop E runtimes [] plugins disabled = Ok (plugins, disabled)"
| "build_loop E runtimes (d # ds) plugins disabled =
     (if \<not> pd_enabled d then build_loop E runtimes ds plugins (insert (pd_name d) disabled)
      else bind_r (load_plugin E runtimes d) (\<lambda>plugin.
           build_loop E runtimes ds (plugins(pd_name d \<mapsto> plugin)) disabled))"

definition referenced_plugins :: "'h rule_set \<Rightarrow> string list" where
  "referenced_plugins rules =
     List.map_filter (\<lambda>r. case r_action r of ActPlugin name \<Rightarrow> Some name | _ \<Rightarrow> None) (rset_entries rules)"

definition registry_default :: "'j plugin_registry" where
  "registry_default = \<lparr>pr_plugins = Map.empty, pr_disabled_plugins = {}, pr_missing_plugins = {}\<rparr>"

definition registry_build ::
  "'j plugin_env \<Rightarrow> 'j plugin_runtime_options \<Rightarrow> 'h rule_set \<Rightarrow> (plugin_error, 'j plugin_registry) result" where
  "registry_build E options rules =
     (if \<not> pro_enabled options then Ok registry_default
      else
        bind_r (build_runtime_pools E options) (\<lambda>runtimes.
        bind_r (build_loop E runtimes (pro_definitions options) Map.empty {}) (\<lambda>(plugins, disabled).
        Ok \<lparr>pr_plugins = plugins, pr_disabled_plugins = disabled,
            pr_missing_plugins = set (filter (\<lambda>n. \<not> (plugins n \<noteq> None \<or> n \<in> disabled)) (referenced_plugins rules))\<rparr>)))"

definition allows_request_body :: "plugin_permissions \<Rightarrow> bool" where
  "allows_request_body p = pp_on_request_body p"

definition allows_response_body :: "plugin_permissions \<Rightarrow> bool" where
  "allows_response_body p = pp_on_response_body p"

definition request_body_access :: "'j plugin_registry \<Rightarrow> string \<Rightarrow> bool" where
  "request_body_access reg plugin_name =
     (case pr_plugins reg plugin_name of
        None \<Rightarrow> False
      | Some plugin \<Rightarrow> ap_request_stage plugin \<noteq> None \<and> allows_request_body (pd_permissions (ap_definition plugin)))"

definition response_body_access :: "'j plugin_registry \<Rightarrow> string \<Rightarrow> bool" where
  "response_body_access reg plugin_name =
     (case pr_plugins reg plugin_name of
        None \<Rightarrow> False
      | Some plugin \<Rightarrow> ap_response_stage plugin \<noteq> None \<and> allows_response_body (pd_permissions (ap_definition plugin)))"

section \<open>Patches\<close>

definition parse_header_patches :: "(string \<times> string option) list \<Rightarrow> plugin_header_patch list" where
  "parse_header_patches headers = map (\<lambda>(name, value). \<lparr>php_name = name, php_value = value\<rparr>) headers"

definition parse_body_patch ::
  "'j plugin_env \<Rightarrow> 'j plugin_body_patch_schema option \<Rightarrow> (plugin_error, string option) result" where
  "parse_body_patch E body =
     (case body of
        None \<Rightarrow> Ok None
      | Some b \<Rightarrow>
          bind_r (ensure_r (count_some [pb_text b \<noteq> None, pb_json b \<noteq> None, pb_base64 b \<noteq> None] = 1)
            BodyPatchNotExactlyOne) (\<lambda>_.
          case pb_text b of
            Some text \<Rightarrow> Ok (Some text)
          | None \<Rightarrow>
         (case pb_json b of
            Some json \<Rightarrow> bind_r (ok_or BodyPatchJson (pe_json_to_vec E json)) (\<lambda>bytes. Ok (Some bytes))
          | None \<Rightarrow>
         (case pb_base64 b of
            Some base64 \<Rightarrow> bind_r (ok_or BodyPatchBase64 (pe_base64_decode E base64)) (\<lambda>bytes. Ok (Some bytes))
          | None \<Rightarrow> Err BodyPatchNotExactlyOne))))"

definition request_patch_try_from ::
  "'j plugin_env \<Rightarrow> 'j plugin_request_patch_schema \<Rightarrow> (plugin_error, plugin_request_patch) result" where
  "request_patch_try_from E v =
     bind_r (parse_body_patch E (pqs_body v)) (\<lambda>body.
     Ok \<lparr>prp_method = filter_opt (\<lambda>e. e \<noteq> []) (pqs_method v), prp_url = filter_opt (\<lambda>e. e \<noteq> []) (pqs_url v),
         prp_headers = parse_header_patches (unwrap_or [] (pqs_headers v)), prp_body = body\<rparr>)"

definition response_patch_try_from ::
  "'j plugin_env \<Rightarrow> 'j plugin_response_output \<Rightarrow> (plugin_error, plugin_response_patch) result" where
  "response_patch_try_from E v =
     bind_r (parse_body_patch E (pro_body v)) (\<lambda>body.
     Ok \<lparr>psp_status = pro_status v, psp_headers = parse_header_patches (unwrap_or [] (pro_headers v)),
         psp_body = body\<rparr>)"

definition ensure_body_patch_permission ::
  "bool \<Rightarrow> string option \<Rightarrow> string \<Rightarrow> plugin_stage \<Rightarrow> (plugin_error, unit) result" where
  "ensure_body_patch_permission is_allowed body plugin_name stage =
     (if body = None then Ok () else ensure_r is_allowed (BodyPatchForbidden plugin_name stage))"

section \<open>Running a plugin\<close>

definition plugin_state_of :: "'j active_plugin \<Rightarrow> 'j plugin_resolve_plugin_state" where
  "plugin_state_of plugin =
     \<lparr>pps_name = pd_name (ap_definition plugin), pps_engine = engine_label (pd_engine (ap_definition plugin)),
      pps_permissions = permission_from (pd_permissions (ap_definition plugin)),
      pps_config = pd_config (ap_definition plugin), pps_state = ap_state plugin, pps_program = ap_program plugin\<rparr>"

text \<open>\<^verbatim>\<open>matched_rule.map(PluginRequestPlan::from_match)\<close>.\<close>

definition plan_of_match ::
  "ext_lib \<Rightarrow> plugin_match_context option \<Rightarrow> (plugin_error, plugin_request_plan option) result" where
  "plan_of_match L matched_rule = transpose_r (request_plan_from_match L) matched_rule"

definition plugin_resolve_request ::
  "'j plugin_env \<Rightarrow> 'j plugin_registry \<Rightarrow> string \<Rightarrow> 'j plugin_request_stage_context \<Rightarrow>
     (plugin_error, plugin_request_plan option) result" where
  "plugin_resolve_request E reg plugin_name context =
     (if plugin_name \<in> pr_disabled_plugins reg then Ok None
      else if plugin_name \<in> pr_missing_plugins reg then Ok None
      else case pr_plugins reg plugin_name of
        None \<Rightarrow> Ok None
      | Some plugin \<Rightarrow>
          (let matched_rule = map_option match_context_from_rule
                 (find (\<lambda>r. plugin_matcher_matches (cpr_matcher r) (pqc_request context)) (ap_compiled_rules plugin))
           in case ap_request_stage plugin of
                None \<Rightarrow> plan_of_match (pe_lib E) matched_rule
              | Some src \<Rightarrow>
                  bind_r (ok_or (InputNotSerialized StageRequest) (pe_request_input E
                    (request_with_plugin_state (plugin_state_of plugin) matched_rule context))) (\<lambda>input.
                  bind_r (ok_or (StageFailed StageRequest plugin_name)
                    (ap_runtime plugin plugin_name StageRequest (pd_root (ap_definition plugin))
                      (pss_module_name src) (pss_source src) input)) (\<lambda>output.
                  if output = pe_null E then plan_of_match (pe_lib E) matched_rule
                  else
                    bind_r (ok_or (InvalidPayload StageRequest plugin_name) (pe_request_output E output)) (\<lambda>resolved.
                    bind_r (case pqo_action resolved of
                              Some action \<Rightarrow> bind_r (plugin_outcome_try_from (pe_lib E) action) (\<lambda>out. Ok (Some out))
                            | None \<Rightarrow>
                           (case matched_rule of
                              Some matched \<Rightarrow> bind_r (match_context_into_outcome (pe_lib E) matched) (\<lambda>out. Ok (Some out))
                            | None \<Rightarrow> Ok None)) (\<lambda>outcome.
                    case outcome of
                      None \<Rightarrow> Ok None
                    | Some outcome \<Rightarrow>
                        bind_r (case pqo_request resolved of
                                  Some request_patch \<Rightarrow>
                                    bind_r (request_patch_try_from E request_patch) (\<lambda>request_patch.
                                    bind_r (ensure_body_patch_permission
                                      (allows_request_body (pd_permissions (ap_definition plugin)))
                                      (prp_body request_patch) plugin_name StageRequest) (\<lambda>_.
                                    Ok request_patch))
                                | None \<Rightarrow> Ok request_patch_default) (\<lambda>request_patch.
                        Ok (Some \<lparr>pqp_outcome = outcome, pqp_matched = matched_rule,
                              pqp_request_patch = request_patch\<rparr>))))))))"

definition plugin_resolve_response ::
  "'j plugin_env \<Rightarrow> 'j plugin_registry \<Rightarrow> string \<Rightarrow> 'j plugin_response_stage_context \<Rightarrow>
     (plugin_error, plugin_response_plan option) result" where
  "plugin_resolve_response E reg plugin_name context =
     (if plugin_name \<in> pr_disabled_plugins reg then Ok None
      else if plugin_name \<in> pr_missing_plugins reg then Ok None
      else case pr_plugins reg plugin_name of
        None \<Rightarrow> Ok None
      | Some plugin \<Rightarrow>
         (case ap_response_stage plugin of
            None \<Rightarrow> Ok None
          | Some src \<Rightarrow>
              bind_r (ok_or (InputNotSerialized StageResponse) (pe_response_input E
                (response_with_plugin_state (plugin_state_of plugin) (psc_matched context) context))) (\<lambda>input.
              bind_r (ok_or (StageFailed StageResponse plugin_name)
                (ap_runtime plugin plugin_name StageResponse (pd_root (ap_definition plugin))
                  (pss_module_name src) (pss_source src) input)) (\<lambda>output.
              if output = pe_null E then Ok None
              else
                bind_r (ok_or (InvalidPayload StageResponse plugin_name) (pe_response_output E output)) (\<lambda>resolved.
                if pro_status resolved = None \<and> pro_headers resolved = None \<and> pro_body resolved = None then Ok None
                else
                  bind_r (response_patch_try_from E resolved) (\<lambda>patch.
                  bind_r (ensure_body_patch_permission
                    (allows_response_body (pd_permissions (ap_definition plugin)))
                    (psp_body patch) plugin_name StageResponse) (\<lambda>_.
                  Ok (Some \<lparr>psl_patch = patch\<rparr>))))))))"

section \<open>The live registry and its supervisor\<close>

record 'j live_plugin_registry =
  lpr_inner :: "'j plugin_registry"

definition live_registry_new :: "'j plugin_registry \<Rightarrow> 'j live_plugin_registry" where
  "live_registry_new reg = \<lparr>lpr_inner = reg\<rparr>"

definition live_registry_snapshot :: "'j live_plugin_registry \<Rightarrow> 'j plugin_registry" where
  "live_registry_snapshot l = lpr_inner l"

definition live_registry_replace :: "'j plugin_registry \<Rightarrow> 'j live_plugin_registry \<Rightarrow> 'j live_plugin_registry" where
  "live_registry_replace reg l = l\<lparr>lpr_inner := reg\<rparr>"

definition registry_len :: "'j plugin_registry \<Rightarrow> nat" where
  "registry_len reg = card (dom (pr_plugins reg))"

definition build_registry ::
  "'j plugin_env \<Rightarrow> 'j plugin_runtime_options \<Rightarrow> 'h live_rule_set \<Rightarrow> (plugin_error, 'j plugin_registry) result" where
  "build_registry E options rules = registry_build E options (live_snapshot rules)"

definition plugins_start ::
  "'j plugin_env \<Rightarrow> 'j plugin_runtime_options \<Rightarrow> 'h live_rule_set \<Rightarrow> (plugin_error, 'j live_plugin_registry) result" where
  "plugins_start E options rules = bind_r (build_registry E options rules) (\<lambda>reg. Ok (live_registry_new reg))"

definition plugins_reload ::
  "'j plugin_env \<Rightarrow> 'j plugin_runtime_options \<Rightarrow> 'h live_rule_set \<Rightarrow> 'j live_plugin_registry \<Rightarrow>
     (plugin_error, unit) result \<times> 'j live_plugin_registry" where
  "plugins_reload E options rules live =
     (case build_registry E options rules of
        Inl e \<Rightarrow> (Err e, live)
      | Inr reg \<Rightarrow> (Ok (), live_registry_replace reg live))"

section \<open>Matched rules survive the trip through a stage\<close>

text \<open>
  What the \<^verbatim>\<open>url\<close> crate promises of a parsed URL: its serialisation parses to itself. The script
  stages see URLs as text, and the code parses them back.
\<close>

definition url_reparse_law :: "ext_lib \<Rightarrow> bool" where
  "url_reparse_law L \<longleftrightarrow> (\<forall>s u. url_parse L s = Some u \<longrightarrow> url_parse L (url_as_str u) = Some u)"

lemma sample_lib_reparse: "url_reparse_law sample_lib"
proof -
  have "takeWhile (\<lambda>c. c \<noteq> CHR ''/'') (h @ CHR ''/'' # t) = h" "dropWhile (\<lambda>c. c \<noteq> CHR ''/'') (h @ CHR ''/'' # t) = CHR ''/'' # t"
    if "h = takeWhile (\<lambda>c. c \<noteq> CHR ''/'') s" for h t s
    using that by (auto simp: takeWhile_append dropWhile_append dest: set_takeWhileD)
  then show ?thesis
    by (auto simp: url_reparse_law_def sample_lib_def sample_url_def strip_prefix_def)
qed

definition outcome_parsed :: "ext_lib \<Rightarrow> plugin_resolved_outcome \<Rightarrow> bool" where
  "outcome_parsed L out \<longleftrightarrow> (\<forall>up. out = OutMirror up \<longrightarrow> (\<exists>s. url_parse L s = Some (up_url up)))"

lemma plugin_outcome_parsed: "plugin_outcome_try_from L v = Ok out \<Longrightarrow> outcome_parsed L out"
  by (auto simp: outcome_parsed_def plugin_outcome_try_from_def plugin_upstream_try_from_def result_simps Let_def
      split: plugin_action_schema.splits)

lemma dns_mode_name_inverse [simp]: "dns_mode_from_name (dns_mode_name m) = m"
  by (cases m) (simp_all add: dns_mode_name_def dns_mode_from_name_def)

lemma dns_plan_eta: "map_option (\<lambda>d. \<lparr>dp_mode = dp_mode d, dp_server = dp_server d\<rparr>) (o' :: dns_plan option) = o'"
  by (cases o') simp_all

lemma match_action_round_trip:
  assumes "url_reparse_law L" "outcome_parsed L out"
  shows "match_action_into_outcome L (match_action_from_outcome out) = Ok out"
proof (cases out)
  case (OutMirror up)
  with assms have "url_parse L (url_as_str (up_url up)) = Some (up_url up)"
    by (auto simp: url_reparse_law_def outcome_parsed_def)
  then show ?thesis using OutMirror
    by (simp add: match_action_from_outcome_def match_action_into_outcome_def option.map_comp comp_def dns_plan_eta)
qed (simp_all add: match_action_from_outcome_def match_action_into_outcome_def)

section \<open>What the registry holds\<close>

definition plugin_ok :: "'j plugin_env \<Rightarrow> 'j plugin_runtime_options \<Rightarrow> string \<Rightarrow> 'j active_plugin \<Rightarrow> bool" where
  "plugin_ok E options n p \<longleftrightarrow> pro_enabled options \<and> ap_definition p \<in> set (pro_definitions options)
     \<and> pd_enabled (ap_definition p) \<and> pd_name (ap_definition p) = n
     \<and> (\<forall>r \<in> set (ap_compiled_rules p). outcome_parsed (pe_lib E) (cpr_action r))"

lemma extract_compiled_rules_parsed:
  assumes "extract_compiled_rules E program = Ok rules" "r \<in> set rules"
  shows "outcome_parsed (pe_lib E) (cpr_action r)"
proof -
  let ?ok = "\<lambda>iv r. compiled_plugin_rule_try_from_schema (pe_lib E) iv = Ok r"
  from assms obtain ivs where "list_all2 ?ok ivs rules"
    unfolding extract_compiled_rules_def by (auto simp: bind_r_Ok_iff collect_r_Ok_iff split: option.splits)
  then have "r \<in> set rules \<Longrightarrow> \<exists>iv. ?ok iv r" by (induction rule: list_all2_induct) auto
  with assms(2) obtain iv where "?ok iv r" by blast
  then show ?thesis
    by (auto simp: compiled_plugin_rule_try_from_schema_def result_simps dest: plugin_outcome_parsed split: prod.splits)
qed

lemma load_plugin_ok:
  assumes "load_plugin E runtimes d = Ok p" "pro_enabled options" "d \<in> set (pro_definitions options)" "pd_enabled d"
  shows "plugin_ok E options (pd_name d) p"
  using assms extract_compiled_rules_parsed
  by (auto simp: load_plugin_def plugin_ok_def result_simps)

lemma build_loop_ok:
  assumes "build_loop E runtimes ds plugins disabled = Ok (plugins', disabled')" "pro_enabled options"
    "set ds \<subseteq> set (pro_definitions options)" "\<forall>n p. plugins n = Some p \<longrightarrow> plugin_ok E options n p"
  shows "plugins' n = Some p \<Longrightarrow> plugin_ok E options n p"
  using assms
proof (induction ds arbitrary: plugins disabled)
  case (Cons d ds)
  show ?case
  proof (cases "pd_enabled d")
    case True
    with Cons.prems obtain q where q: "load_plugin E runtimes d = Ok q"
      "build_loop E runtimes ds (plugins(pd_name d \<mapsto> q)) disabled = Ok (plugins', disabled')"
      by (auto simp: result_simps)
    have "plugin_ok E options (pd_name d) q" using load_plugin_ok [OF q(1)] Cons.prems True by simp
    then show ?thesis using Cons.IH [OF _ q(2)] Cons.prems by auto
  qed (use Cons in auto)
qed simp

lemma registry_build_ok:
  assumes "registry_build E options rules = Ok reg" "pr_plugins reg n = Some p"
  shows "plugin_ok E options n p"
proof (cases "pro_enabled options")
  case True
  with assms(1) obtain rts disabled where
    "build_loop E rts (pro_definitions options) Map.empty {} = Ok (pr_plugins reg, disabled)"
    by (auto simp: registry_build_def result_simps)
  from build_loop_ok [OF this True, of n p] assms(2) show ?thesis by simp
qed (use assms in \<open>auto simp: registry_build_def registry_default_def\<close>)

lemma body_permission_Ok [simp]:
  "ensure_body_patch_permission a b n s = Inr u \<longleftrightarrow> (b \<noteq> None \<longrightarrow> a)"
  by (simp add: ensure_body_patch_permission_def)

lemma plan_of_match_patch: "plan_of_match L m = Ok (Some plan) \<Longrightarrow> prp_body (pqp_request_patch plan) = None"
  by (auto simp: plan_of_match_def request_plan_from_match_def request_patch_default_def result_simps
      split: option.splits sum.splits)

lemma plugin_resolve_request_permission:
  assumes "plugin_resolve_request E reg name ctx = Ok (Some plan)"
  obtains p where "pr_plugins reg name = Some p"
    "prp_body (pqp_request_patch plan) \<noteq> None \<longrightarrow> pp_on_request_body (pd_permissions (ap_definition p))"
  using assms
  by (auto simp: plugin_resolve_request_def result_simps Let_def allows_request_body_def request_patch_default_def
      split: if_splits option.splits dest: plan_of_match_patch)

lemma plugin_resolve_response_permission:
  assumes "plugin_resolve_response E reg name ctx = Ok (Some plan)"
  obtains p where "pr_plugins reg name = Some p" "ap_response_stage p \<noteq> None"
    "psp_body (psl_patch plan) \<noteq> None \<longrightarrow> pp_on_response_body (pd_permissions (ap_definition p))"
  using assms
  by (auto simp: plugin_resolve_response_def result_simps allows_response_body_def split: if_splits option.splits)

section \<open>Errors of the request stage\<close>

lemma bind_r_Err_iff: "bind_r r f = Inl e \<longleftrightarrow> r = Inl e \<or> (\<exists>x. r = Inr x \<and> f x = Inl e)"
  by (cases r) simp_all

lemma ok_or_Err_iff: "ok_or e x = Inl e' \<longleftrightarrow> x = None \<and> e = e'"
  by (cases x) auto

lemma plugin_dns_plan_no_panic: "plugin_dns_plan_try_from v \<noteq> Err PluginPanic"
  by (auto simp: plugin_dns_plan_try_from_def Let_def bind_r_Err_iff split: dns_mode.splits)

lemma plugin_outcome_no_panic: "plugin_outcome_try_from L v \<noteq> Err PluginPanic"
  by (auto simp: plugin_outcome_try_from_def plugin_upstream_try_from_def validate_plugin_plan_def bind_r_Err_iff
      ok_or_Err_iff transpose_r_def plugin_dns_plan_no_panic Let_def split: plugin_action_schema.splits option.splits)

lemma request_patch_no_panic: "request_patch_try_from E v \<noteq> Err PluginPanic"
  by (auto simp: request_patch_try_from_def parse_body_patch_def bind_r_Err_iff ok_or_Err_iff split: option.splits)

text \<open>The rule a request matches reaches the plan with the action it was compiled with.\<close>

lemma find_rule_outcome:
  assumes "registry_build E options rules = Ok reg" "url_reparse_law (pe_lib E)" "pr_plugins reg name = Some p"
    "find P (ap_compiled_rules p) = Some r"
  shows "match_context_into_outcome (pe_lib E) (match_context_from_rule r) = Ok (cpr_action r)"
proof -
  from assms(4) have "r \<in> set (ap_compiled_rules p)" by (auto simp: find_Some_iff)
  with registry_build_ok [OF assms(1,3)] have "outcome_parsed (pe_lib E) (cpr_action r)" by (simp add: plugin_ok_def)
  then show ?thesis
    by (simp add: match_context_into_outcome_def match_context_from_rule_def match_action_round_trip [OF assms(2)])
qed

lemma plan_of_find:
  assumes "registry_build E options rules = Ok reg" "url_reparse_law (pe_lib E)" "pr_plugins reg name = Some p"
  shows "plan_of_match (pe_lib E) (map_option match_context_from_rule (find P (ap_compiled_rules p))) =
    Ok (map_option (\<lambda>r. \<lparr>pqp_outcome = cpr_action r, pqp_matched = Some (match_context_from_rule r),
      pqp_request_patch = request_patch_default\<rparr>) (find P (ap_compiled_rules p)))"
  using find_rule_outcome [OF assms]
  by (cases "find P (ap_compiled_rules p)") (simp_all add: plan_of_match_def request_plan_from_match_def)

lemma plugin_resolve_request_no_panic:
  assumes "registry_build E options rules = Ok reg" "url_reparse_law (pe_lib E)"
  shows "plugin_resolve_request E reg name ctx \<noteq> Err PluginPanic"
proof (cases "pr_plugins reg name")
  case (Some p)
  let ?P = "\<lambda>r. plugin_matcher_matches (cpr_matcher r) (pqc_request ctx)"
  note errs = bind_r_Err_iff ok_or_Err_iff plugin_outcome_no_panic request_patch_no_panic ensure_body_patch_permission_def
  note plan = plan_of_find [OF assms Some, of ?P] find_rule_outcome [OF assms Some, of ?P]
  show ?thesis
  proof (cases "find ?P (ap_compiled_rules p)")
    case None
    then show ?thesis using Some
      by (auto simp: plugin_resolve_request_def Let_def errs plan_of_match_def split: option.splits)
  next
    case (Some r)
    then show ?thesis using \<open>pr_plugins reg name = Some p\<close> plan(1) plan(2) [OF Some]
      by (auto simp: plugin_resolve_request_def Let_def errs split: option.splits)
  qed
qed (auto simp: plugin_resolve_request_def)

section \<open>A concrete plugin\<close>

text \<open>A plugin with a request stage whose answer and whose permissions are given; JSON values are their text.\<close>

definition sample_plugin_env :: "string plugin_request_output \<Rightarrow> string plugin_env" where
  "sample_plugin_env out =
     \<lparr>pe_lib = sample_lib, pe_is_dir = \<lambda>_. True, pe_exists = (\<lambda>p. p = ''/p/on_request.js''),
      pe_read_to_string = \<lambda>_. Some ''x'', pe_canonicalize = Some,
      pe_execute = \<lambda>_ _ _ _ _ _. Some ''patch'', pe_null = ''null'', pe_get_rules = \<lambda>_. None,
      pe_load_input = \<lambda>_. Some [], pe_compile_input = \<lambda>_. Some [], pe_request_input = \<lambda>_. Some [],
      pe_response_input = \<lambda>_. Some [], pe_load_output = Some, pe_compile_output = Some,
      pe_rule_schemas = \<lambda>_. None,
      pe_request_output = \<lambda>_. Some out,
      pe_response_output = \<lambda>_. None, pe_json_to_vec = Some, pe_base64_decode = Some\<rparr>"

definition sample_answer :: "plugin_action_schema \<Rightarrow> string option \<Rightarrow> string plugin_request_output" where
  "sample_answer action body = \<lparr>pqo_action = Some action, pqo_request = Some \<lparr>pqs_method = None, pqs_url = None,
     pqs_headers = None, pqs_body = map_option (\<lambda>text. \<lparr>pb_text = Some text, pb_json = None, pb_base64 = None\<rparr>) body\<rparr>\<rparr>"

definition sample_plugin :: "bool \<Rightarrow> string plugin_definition" where
  "sample_plugin body = \<lparr>pd_name = ''p'', pd_engine = QuickJs, pd_enabled = True, pd_root = ''/p'',
     pd_permissions = \<lparr>pp_on_request_body = body, pp_on_response_body = False\<rparr>, pd_config = ''null''\<rparr>"

definition sample_plugin_options :: "bool \<Rightarrow> string plugin_runtime_options" where
  "sample_plugin_options body = \<lparr>pro_enabled = True, pro_workers = 1, pro_definitions = [sample_plugin body]\<rparr>"

definition sample_registry :: "bool \<Rightarrow> string plugin_registry" where
  "sample_registry body =
     \<lparr>pr_plugins = [''p'' \<mapsto> \<lparr>ap_definition = sample_plugin body,
        ap_request_stage = Some \<lparr>pss_module_name = ''/p/on_request.js'', pss_source = ''x''\<rparr>, ap_response_stage = None,
        ap_runtime = \<lambda>_ _ _ _ _ _. Some ''patch'', ap_state = ''null'', ap_program = ''null'', ap_compiled_rules = []\<rparr>],
      pr_disabled_plugins = {}, pr_missing_plugins = {}\<rparr>"

lemma sample_registry_built:
  "registry_build (sample_plugin_env out) (sample_plugin_options body) (rule_set_new []) = Ok (sample_registry body)"
  by (simp add: registry_build_def sample_plugin_options_def build_runtime_pools_def quickjs_pool_new_def
      sample_plugin_def load_plugin_def load_stage_sources_def load_stage_source_def stage_file_name_def
      path_join_def path_is_absolute_def starts_with_def ends_with_def normalize_stage_module_name_def
      execute_load_stage_def execute_compile_stage_def extract_compiled_rules_def sample_registry_def
      sample_plugin_env_def referenced_plugins_def rule_set_new_def trim_graphic ascii_graphic_def
      suffix_def List.map_filter_def)

definition sample_request :: plugin_request_context where
  "sample_request = \<lparr>prq_source = ''proxy'', prq_method = ''GET'', prq_url = ''https://a.io/'', prq_scheme = ''https'',
     prq_host = Some ''a.io'', prq_port = Some 443, prq_path = ''/'', prq_query = None, prq_headers = [], prq_body = None\<rparr>"

lemma sample_request_plan:
  "plugin_resolve_request (sample_plugin_env (sample_answer PaDirect (Some ''hi''))) (sample_registry True) ''p''
       (request_stage_context_new ''null'' sample_request) =
     Ok (Some \<lparr>pqp_outcome = OutDirect, pqp_matched = None,
       pqp_request_patch = \<lparr>prp_method = None, prp_url = None, prp_headers = [], prp_body = Some ''hi''\<rparr>\<rparr>)"
  by (simp add: plugin_resolve_request_def sample_registry_def sample_plugin_env_def sample_plugin_def sample_answer_def
      plugin_outcome_try_from_def request_patch_try_from_def parse_body_patch_def count_some_def filter_opt_def
      parse_header_patches_def ensure_body_patch_permission_def allows_request_body_def)

section \<open>Properties\<close>

text \<open>
  C20. A plugin changes a request or a response only when the configuration enables the plugin runtime and
  defines an enabled plugin of that name, and it replaces a body only when that definition grants the
  permission for the stage.
\<close>

theorem plugin_patches_need_permission:
  assumes "registry_build E options rules = Ok reg"
  shows "(\<forall>ctx plan. plugin_resolve_request E reg name ctx = Ok (Some plan) \<longrightarrow>
       pro_enabled options \<and> (\<exists>d \<in> set (pro_definitions options). pd_enabled d \<and> pd_name d = name
         \<and> (prp_body (pqp_request_patch plan) \<noteq> None \<longrightarrow> pp_on_request_body (pd_permissions d))))
     \<and> (\<forall>ctx plan. plugin_resolve_response E reg name ctx = Ok (Some plan) \<longrightarrow>
       pro_enabled options \<and> (\<exists>d \<in> set (pro_definitions options). pd_enabled d \<and> pd_name d = name
         \<and> (psp_body (psl_patch plan) \<noteq> None \<longrightarrow> pp_on_response_body (pd_permissions d))))"
proof -
  have ok: "pro_enabled options \<and> (\<exists>d \<in> set (pro_definitions options). pd_enabled d \<and> pd_name d = name \<and> P (pd_permissions d))"
    if "pr_plugins reg name = Some p" "P (pd_permissions (ap_definition p))" for p P
    using registry_build_ok [OF assms that(1)] that(2) by (auto simp: plugin_ok_def)
  show ?thesis
  proof (rule conjI; intro allI impI)
    fix ctx plan
    assume "plugin_resolve_request E reg name ctx = Ok (Some plan)"
    then obtain p where "pr_plugins reg name = Some p"
      "prp_body (pqp_request_patch plan) \<noteq> None \<longrightarrow> pp_on_request_body (pd_permissions (ap_definition p))"
      by (rule plugin_resolve_request_permission)
    then show "pro_enabled options \<and> (\<exists>d \<in> set (pro_definitions options). pd_enabled d \<and> pd_name d = name
       \<and> (prp_body (pqp_request_patch plan) \<noteq> None \<longrightarrow> pp_on_request_body (pd_permissions d)))" by (rule ok)
  next
    fix ctx plan
    assume "plugin_resolve_response E reg name ctx = Ok (Some plan)"
    then obtain p where "pr_plugins reg name = Some p"
      "psp_body (psl_patch plan) \<noteq> None \<longrightarrow> pp_on_response_body (pd_permissions (ap_definition p))"
      by (rule plugin_resolve_response_permission)
    then show "pro_enabled options \<and> (\<exists>d \<in> set (pro_definitions options). pd_enabled d \<and> pd_name d = name
       \<and> (psp_body (psl_patch plan) \<noteq> None \<longrightarrow> pp_on_response_body (pd_permissions d)))" by (rule ok)
  qed
qed

theorem plugin_patches_need_permission_witness:
  "\<exists>d \<in> set (pro_definitions (sample_plugin_options True)). pd_name d = ''p'' \<and> pp_on_request_body (pd_permissions d)"
  using plugin_patches_need_permission [OF sample_registry_built [of "sample_answer PaDirect (Some ''hi'')" True], of "''p''"]
    sample_request_plan by force

end
