(* ===== verification/Forwarding.thy ===== *)
theory Forwarding
  imports Plugins
begin

text \<open>
  Forwarding of a request by the rule that routes it: \<^verbatim>\<open>src/src/gateway/forwarding/\<close> and
  \<^verbatim>\<open>src/src/gateway/http/{responses,headers,proxy_response}.rs\<close>. The crates \<^verbatim>\<open>http\<close> (header maps,
  methods, status codes), \<^verbatim>\<open>hyper\<close> (bodies) and \<^verbatim>\<open>base64\<close>, the file system and the upstream executor (the trait
  \<^verbatim>\<open>UpstreamExecutor\<close>) are the fields of \<open>gateway_env\<close>; \<open>'h\<close> is \<^verbatim>\<open>HeaderMap\<close>, \<open>'b\<close> a
  streaming body. A header name or value, a method and a status are their text or number. Spans and
  log lines are left out. An \<^verbatim>\<open>expect\<close>, \<^verbatim>\<open>unreachable!\<close> or failing conversion that panics is a value of
  \<open>gateway_panic\<close>; the text of an error response is a value of \<open>gateway_message\<close>.
\<close>

section \<open>Data\<close>

datatype gateway_panic =
    PanicRejectStatus u16
  | PanicRespondStatus u16
  | PanicNoUpstream
  | PanicHeaderValue string
  | PanicPluginMatch
  | PanicRequestUrl string
  | PanicRejectOutcome
  | PanicUnreachable

datatype gateway_message =
    RejectedWith string
  | RespondBodyUnreadable
  | ForwardingFailed
  | DirectFailed
  | PluginUpstreamFailed
  | PluginResolutionFailed plugin_error
  | PluginResponseFailed plugin_error
  | RequestBodyUnreadable
  | UpstreamBodyUnreadable
  | PatchBadMethod string
  | PatchBadUrl string
  | PatchBadStatus u16
  | PatchBadHeaderName string
  | PatchBadHeaderValue string
  | InvalidUrl string
  | UnknownRoute
  | InvalidAuthority string
  | MissingConnectPort string
  | ConnectNotHttps url
  | ConnectMissingHost url
  | ConnectMissingPort url
  | ConnectMismatch url string
  | HostHeaderRequired
  | UnsupportedScheme string
  | InvalidHeaderValue string
  | ConnectUnsupported string
  | NoMatchingRule
  | NoCandidateRules

record ('h, 'b) http_response =
  hr_status :: u16
  hr_headers :: 'h
  hr_body :: 'b

text \<open>What a handler returns: a JSON error or a response it built; or it panics.\<close>

datatype ('h, 'b) gateway_response =
    JsonError u16 gateway_message
  | Responded "('h, 'b) http_response"

type_synonym ('h, 'b) gateway_result = "(gateway_panic, ('h, 'b) gateway_response) result"

record ('h, 'b, 'j) gateway_env =
  ge_plugins :: "'j plugin_env"
  ge_status_from_u16 :: "u16 \<Rightarrow> bool"
  ge_method_parse :: "string \<Rightarrow> string option"
  ge_header_name :: "string \<Rightarrow> string option"
  ge_header_value :: "string \<Rightarrow> string option"
  ge_value_to_str :: "string \<Rightarrow> string option"
  ge_headers_new :: 'h
  ge_headers_append :: "string \<Rightarrow> string \<Rightarrow> 'h \<Rightarrow> 'h"
  ge_headers_insert :: "string \<Rightarrow> string \<Rightarrow> 'h \<Rightarrow> 'h"
  ge_headers_remove :: "string \<Rightarrow> 'h \<Rightarrow> 'h"
  ge_headers_get :: "'h \<Rightarrow> string \<Rightarrow> string option"
  ge_headers_iter :: "'h \<Rightarrow> (string \<times> string) list"
  ge_body_from :: "string \<Rightarrow> 'b"
  ge_body_collect :: "'b \<Rightarrow> string option"
  ge_base64_encode :: "string \<Rightarrow> string"
  ge_read_file :: "string \<Rightarrow> string option"
  ge_execute :: "string \<Rightarrow> 'h \<Rightarrow> string \<Rightarrow> upstream_plan \<Rightarrow> 'b \<Rightarrow> ('h, 'b) http_response option"

abbreviation ge_lib :: "('h, 'b, 'j) gateway_env \<Rightarrow> ext_lib" where
  "ge_lib G \<equiv> pe_lib (ge_plugins G)"

record ('h, 'j) app_state =
  as_plugins :: "'j live_plugin_registry"
  as_rules :: "'h live_rule_set"

section \<open>Responses (responses.rs, headers.rs, proxy_response.rs)\<close>

definition rule_kind_name :: "'h matched_rule \<Rightarrow> string" where
  "rule_kind_name matched =
     (case r_kind (mr_rule matched) of
        KindExact \<Rightarrow> ''exact'' | KindPrefix \<Rightarrow> ''prefix'' | KindHost \<Rightarrow> ''host'' | KindHosts \<Rightarrow> ''hosts''
      | KindHostSuffix \<Rightarrow> ''host-suffix'' | KindIp \<Rightarrow> ''ip'' | KindIpCidr \<Rightarrow> ''ip-cidr'')"

definition rule_action_name :: "'h matched_rule \<Rightarrow> string" where
  "rule_action_name matched =
     (case resolved_kind (mr_action matched) of
        KMirror \<Rightarrow> ''mirror'' | KDirect \<Rightarrow> ''direct'' | KRespond \<Rightarrow> ''respond'' | KPlugin \<Rightarrow> ''plugin''
      | KReject \<Rightarrow> ''reject'')"

definition reject_response :: "('h, 'b, 'j) gateway_env \<Rightarrow> u16 \<Rightarrow> string \<Rightarrow> ('h, 'b) gateway_result" where
  "reject_response G status message =
     bind_r (ensure_r (ge_status_from_u16 G status) (PanicRejectStatus status)) (\<lambda>_.
     Ok (JsonError status (RejectedWith message)))"

definition load_respond_body :: "('h, 'b, 'j) gateway_env \<Rightarrow> 'h respond_rule_action \<Rightarrow> string option" where
  "load_respond_body G action =
     (case resp_body action of BodyInline bytes \<Rightarrow> Some bytes | BodyFile path \<Rightarrow> ge_read_file G path)"

definition append_headers :: "('h, 'b, 'j) gateway_env \<Rightarrow> (string \<times> string) list \<Rightarrow> 'h \<Rightarrow> 'h" where
  "append_headers G entries headers = fold (\<lambda>(name, value). ge_headers_append G name value) entries headers"

definition respond_response :: "('h, 'b, 'j) gateway_env \<Rightarrow> 'h respond_rule_action \<Rightarrow> ('h, 'b) gateway_result" where
  "respond_response G action =
     bind_r (ensure_r (ge_status_from_u16 G (resp_status action)) (PanicRespondStatus (resp_status action))) (\<lambda>_.
     case load_respond_body G action of
       None \<Rightarrow> Ok (JsonError 500 RespondBodyUnreadable)
     | Some body \<Rightarrow>
         (let response_headers = append_headers G (ge_headers_iter G (resp_headers action)) (ge_headers_new G)
          in case ge_header_value G (decimal (length body)) of
               None \<Rightarrow> Err (PanicHeaderValue (decimal (length body)))
             | Some len \<Rightarrow>
                 Ok (Responded \<lparr>hr_status = resp_status action,
                   hr_headers = ge_headers_insert G CONTENT_LENGTH len response_headers,
                   hr_body = ge_body_from G body\<rparr>)))"

definition is_end_to_end_header :: "string \<Rightarrow> bool" where
  "is_end_to_end_header name \<longleftrightarrow>
     name \<noteq> ''host'' \<and> name \<noteq> ''connection'' \<and> name \<noteq> ''keep-alive'' \<and> name \<noteq> ''proxy-authenticate''
     \<and> name \<noteq> ''proxy-authorization'' \<and> name \<noteq> ''proxy-connection'' \<and> name \<noteq> ''te'' \<and> name \<noteq> ''trailer''
     \<and> name \<noteq> ''transfer-encoding'' \<and> name \<noteq> ''upgrade''"

definition insert_static ::
  "('h, 'b, 'j) gateway_env \<Rightarrow> string \<Rightarrow> string option \<Rightarrow> 'h \<Rightarrow> (gateway_panic, 'h) result" where
  "insert_static G name value headers =
     (case value of
        None \<Rightarrow> Ok headers
      | Some v \<Rightarrow>
          bind_r (ok_or (PanicHeaderValue v) (ge_header_value G v)) (\<lambda>hv. Ok (ge_headers_insert G name hv headers)))"

definition insert_target :: "('h, 'b, 'j) gateway_env \<Rightarrow> string option \<Rightarrow> 'h \<Rightarrow> (gateway_panic, 'h) result" where
  "insert_target G target headers =
     (case target of
        None \<Rightarrow> Ok headers
      | Some t \<Rightarrow>
          bind_r (case ge_header_value G t of
                    Some hv \<Rightarrow> Ok hv
                  | None \<Rightarrow> ok_or (PanicHeaderValue ''unavailable'') (ge_header_value G ''unavailable'')) (\<lambda>hv.
          Ok (ge_headers_insert G ''x-anymirror-target'' hv headers)))"

definition build_upstream_response ::
  "('h, 'b, 'j) gateway_env \<Rightarrow> ('h, 'b) http_response \<Rightarrow> string option \<Rightarrow> string option \<Rightarrow> string option \<Rightarrow>
     ('h, 'b) gateway_result" where
  "build_upstream_response G upstream source target rule_kind =
     (let response_headers = append_headers G
            (filter (\<lambda>(name, value). is_end_to_end_header name) (ge_headers_iter G (hr_headers upstream)))
            (ge_headers_new G)
      in bind_r (insert_static G ''x-anymirror-mode'' source response_headers) (\<lambda>response_headers.
         bind_r (insert_target G target response_headers) (\<lambda>response_headers.
         bind_r (insert_static G ''x-anymirror-rule-kind'' rule_kind response_headers) (\<lambda>response_headers.
         Ok (Responded \<lparr>hr_status = hr_status upstream, hr_headers = response_headers,
           hr_body = hr_body upstream\<rparr>)))))"

definition build_proxy_response ::
  "('h, 'b, 'j) gateway_env \<Rightarrow> ('h, 'b) http_response \<Rightarrow> 'h matched_rule \<Rightarrow> string option \<Rightarrow> ('h, 'b) gateway_result" where
  "build_proxy_response G upstream matched source =
     bind_r (ok_or PanicNoUpstream (resolved_upstream (mr_action matched))) (\<lambda>up.
     build_upstream_response G upstream source (Some (url_as_str (up_url up))) (Some (rule_kind_name matched)))"

definition build_passthrough_response ::
  "('h, 'b, 'j) gateway_env \<Rightarrow> ('h, 'b) http_response \<Rightarrow> string option \<Rightarrow> string \<Rightarrow> ('h, 'b) gateway_result" where
  "build_passthrough_response G upstream source target =
     build_upstream_response G upstream source (Some target) None"

section \<open>Plugin requests (forwarding/plugin.rs)\<close>

text \<open>\<^verbatim>\<open>std::str::from_utf8\<close>: the well-formed byte sequences, by the first byte of each character.\<close>

definition utf8_cont :: "char \<Rightarrow> bool" where
  "utf8_cont c = (128 \<le> (of_char c :: nat) \<and> (of_char c :: nat) \<le> 191)"

definition utf8_second :: "nat \<Rightarrow> char \<Rightarrow> bool" where
  "utf8_second n c =
     (let m = (of_char c :: nat)
      in if n = 0xE0 then 0xA0 \<le> m \<and> m \<le> 0xBF
         else if n = 0xED then 0x80 \<le> m \<and> m \<le> 0x9F
         else if n = 0xF0 then 0x90 \<le> m \<and> m \<le> 0xBF
         else if n = 0xF4 then 0x80 \<le> m \<and> m \<le> 0x8F
         else utf8_cont c)"

fun from_utf8_ok :: "string \<Rightarrow> bool" where
  "from_utf8_ok [] = True"
| "from_utf8_ok (a # s) =
     (let n = (of_char a :: nat)
      in if n < 0x80 then from_utf8_ok s
         else if 0xC2 \<le> n \<and> n \<le> 0xDF
         then (case s of b # s \<Rightarrow> utf8_cont b \<and> from_utf8_ok s | _ \<Rightarrow> False)
         else if 0xE0 \<le> n \<and> n \<le> 0xEF
         then (case s of b # c # s \<Rightarrow> utf8_second n b \<and> utf8_cont c \<and> from_utf8_ok s | _ \<Rightarrow> False)
         else if 0xF0 \<le> n \<and> n \<le> 0xF4
         then (case s of b # c # d # s \<Rightarrow> utf8_second n b \<and> utf8_cont c \<and> utf8_cont d \<and> from_utf8_ok s | _ \<Rightarrow> False)
         else False)"

definition CONTENT_ENCODING :: string where "CONTENT_ENCODING = ''content-encoding''"

datatype 'b plugin_incoming_request_body = Streaming 'b | Buffered string

fun incoming_bytes :: "'b plugin_incoming_request_body \<Rightarrow> string option" where
  "incoming_bytes (Streaming _) = None"
| "incoming_bytes (Buffered bytes) = Some bytes"

fun into_body :: "('h, 'b, 'j) gateway_env \<Rightarrow> 'b plugin_incoming_request_body \<Rightarrow> 'b" where
  "into_body G (Streaming body) = body"
| "into_body G (Buffered bytes) = ge_body_from G bytes"

record 'h buffered_upstream_response =
  bu_status :: u16
  bu_headers :: 'h
  bu_body :: string

record ('h, 'b) prepared_plugin_request =
  pp_method :: string
  pp_headers :: 'h
  pp_body :: "'b plugin_incoming_request_body"
  pp_context :: plugin_request_context
  pp_outcome :: plugin_resolved_outcome
  pp_matched :: "plugin_match_context option"

definition build_plugin_headers :: "('h, 'b, 'j) gateway_env \<Rightarrow> 'h \<Rightarrow> plugin_header_input list" where
  "build_plugin_headers G headers =
     List.map_filter (\<lambda>(name, value). map_option (\<lambda>v. \<lparr>phi_name = name, phi_value = v\<rparr>) (ge_value_to_str G value))
       (ge_headers_iter G headers)"

definition build_plugin_body :: "('h, 'b, 'j) gateway_env \<Rightarrow> string option \<Rightarrow> plugin_body_input option" where
  "build_plugin_body G bytes =
     (case bytes of
        None \<Rightarrow> None
      | Some bytes \<Rightarrow>
          if bytes = [] then None
          else if from_utf8_ok bytes then Some \<lparr>pbi_kind = ''text'', pbi_value = bytes\<rparr>
          else Some \<lparr>pbi_kind = ''base64'', pbi_value = ge_base64_encode G bytes\<rparr>)"

definition build_plugin_request_context ::
  "('h, 'b, 'j) gateway_env \<Rightarrow> string \<Rightarrow> string \<Rightarrow> url \<Rightarrow> 'h \<Rightarrow> string option \<Rightarrow> plugin_request_context" where
  "build_plugin_request_context G source method u headers body =
     \<lparr>prq_source = source, prq_method = method, prq_url = url_as_str u, prq_scheme = url_scheme u,
      prq_host = url_host_str u, prq_port = url_port_or_known_default u, prq_path = url_path u,
      prq_query = url_query u, prq_headers = build_plugin_headers G headers, prq_body = build_plugin_body G body\<rparr>"

definition collect_plugin_request_body ::
  "('h, 'b, 'j) gateway_env \<Rightarrow> 'b \<Rightarrow> bool \<Rightarrow> (gateway_message, 'b plugin_incoming_request_body) result" where
  "collect_plugin_request_body G body body_access =
     (if \<not> body_access then Ok (Streaming body)
      else bind_r (ok_or RequestBodyUnreadable (ge_body_collect G body)) (\<lambda>bytes. Ok (Buffered bytes)))"

definition collect_upstream_response ::
  "('h, 'b, 'j) gateway_env \<Rightarrow> ('h, 'b) http_response \<Rightarrow> (gateway_message, 'h buffered_upstream_response) result" where
  "collect_upstream_response G response =
     bind_r (ok_or UpstreamBodyUnreadable (ge_body_collect G (hr_body response))) (\<lambda>body.
     Ok \<lparr>bu_status = hr_status response, bu_headers = hr_headers response, bu_body = body\<rparr>)"

fun apply_header_patches ::
  "('h, 'b, 'j) gateway_env \<Rightarrow> plugin_header_patch list \<Rightarrow> 'h \<Rightarrow> (gateway_message, 'h) result" where
  "apply_header_patches G [] headers = Ok headers"
| "apply_header_patches G (patch # patches) headers =
     bind_r (ok_or (PatchBadHeaderName (php_name patch)) (ge_header_name G (php_name patch))) (\<lambda>name.
     case php_value patch of
       Some value \<Rightarrow>
         bind_r (ok_or (PatchBadHeaderValue (php_name patch)) (ge_header_value G value)) (\<lambda>value.
         apply_header_patches G patches (ge_headers_insert G name value headers))
     | None \<Rightarrow> apply_header_patches G patches (ge_headers_remove G name headers))"

definition remove_content_headers :: "('h, 'b, 'j) gateway_env \<Rightarrow> 'h \<Rightarrow> 'h" where
  "remove_content_headers G headers =
     ge_headers_remove G CONTENT_ENCODING (ge_headers_remove G CONTENT_LENGTH headers)"

definition prepare_plugin_request ::
  "('h, 'b, 'j) gateway_env \<Rightarrow> string \<Rightarrow> 'h \<Rightarrow> 'b plugin_incoming_request_body \<Rightarrow> plugin_request_context \<Rightarrow>
     plugin_request_plan option \<Rightarrow> (gateway_message, ('h, 'b) prepared_plugin_request) result" where
  "prepare_plugin_request G method request_headers request_body initial_request request_plan =
     (let (outcome, matched, patch) =
            (case request_plan of
               Some plan \<Rightarrow> (pqp_outcome plan, pqp_matched plan, pqp_request_patch plan)
             | None \<Rightarrow> (OutDirect, None, request_patch_default))
      in bind_r (case prp_method patch of
                   Some m \<Rightarrow> ok_or (PatchBadMethod m) (ge_method_parse G m)
                 | None \<Rightarrow> Ok method) (\<lambda>method.
         bind_r (case prp_url patch of
                   Some url_patch \<Rightarrow>
                     bind_r (ok_or (PatchBadUrl url_patch) (url_parse (ge_lib G) url_patch)) (\<lambda>u.
                     Ok (initial_request\<lparr>prq_url := url_as_str u, prq_scheme := url_scheme u,
                           prq_host := url_host_str u, prq_port := url_port_or_known_default u,
                           prq_path := url_path u, prq_query := url_query u\<rparr>,
                         case outcome of OutMirror upstream \<Rightarrow> OutMirror (upstream\<lparr>up_url := u\<rparr>) | _ \<Rightarrow> outcome))
                 | None \<Rightarrow> Ok (initial_request, outcome)) (\<lambda>(request, outcome).
         bind_r (apply_header_patches G (prp_headers patch) request_headers) (\<lambda>headers.
         let (body, headers) =
               (case prp_body patch of
                  Some body_patch \<Rightarrow> (Buffered body_patch, remove_content_headers G headers)
                | None \<Rightarrow> (request_body, headers));
             request = request\<lparr>prq_method := method, prq_headers := build_plugin_headers G headers,
               prq_body := build_plugin_body G (incoming_bytes body)\<rparr>
         in Ok \<lparr>pp_method = method, pp_headers = headers, pp_body = body, pp_context = request,
                pp_outcome = outcome, pp_matched = matched\<rparr>))))"

definition resolve_plugin_upstream ::
  "('h, 'b, 'j) gateway_env \<Rightarrow> plugin_resolved_outcome \<Rightarrow> plugin_request_context \<Rightarrow> string option \<Rightarrow>
     (gateway_panic, upstream_plan \<times> string option) result" where
  "resolve_plugin_upstream G outcome request source =
     (case outcome of
        OutDirect \<Rightarrow>
          bind_r (ok_or (PanicRequestUrl (prq_url request)) (url_parse (ge_lib G) (prq_url request))) (\<lambda>u.
          Ok (upstream_direct u, opt_or_else source (Some ''plugin-direct'')))
      | OutMirror upstream \<Rightarrow> Ok (upstream, opt_or_else source (Some ''plugin-mirror''))
      | OutReject _ \<Rightarrow> Err PanicRejectOutcome)"

definition run_plugin_response_stage ::
  "('h, 'b, 'j) gateway_env \<Rightarrow> 'j plugin_registry \<Rightarrow> string \<Rightarrow> plugin_request_context \<Rightarrow> plugin_match_context option \<Rightarrow>
     plugin_resolved_outcome \<Rightarrow> u16 \<Rightarrow> 'h \<Rightarrow> string option \<Rightarrow> (plugin_error, plugin_response_plan option) result" where
  "run_plugin_response_stage G plugins plugin_name request matched outcome status headers body =
     plugin_resolve_response (ge_plugins G) plugins plugin_name
       (with_matched matched (response_stage_context_new (pe_null (ge_plugins G)) request
          (match_action_from_outcome outcome)
          \<lparr>prc_status = status, prc_headers = build_plugin_headers G headers, prc_body = build_plugin_body G body\<rparr>))"

text \<open>The status and the headers are updated in place; an error drops them.\<close>

definition apply_plugin_response_patch ::
  "('h, 'b, 'j) gateway_env \<Rightarrow> u16 \<Rightarrow> 'h \<Rightarrow> (plugin_error, plugin_response_plan option) result \<Rightarrow>
     (gateway_message, u16 \<times> 'h \<times> string option) result" where
  "apply_plugin_response_patch G status headers response_plan =
     (case response_plan of
        Inl e \<Rightarrow> Err (PluginResponseFailed e)
      | Inr None \<Rightarrow> Ok (status, headers, None)
      | Inr (Some plan) \<Rightarrow>
          bind_r (case psp_status (psl_patch plan) of
                    Some patched \<Rightarrow> bind_r (ensure_r (ge_status_from_u16 G patched) (PatchBadStatus patched)) (\<lambda>_. Ok patched)
                  | None \<Rightarrow> Ok status) (\<lambda>status.
          bind_r (apply_header_patches G (psp_headers (psl_patch plan)) headers) (\<lambda>headers.
          Ok (status, headers, psp_body (psl_patch plan)))))"

definition build_response ::
  "('h, 'b, 'j) gateway_env \<Rightarrow> u16 \<Rightarrow> 'h \<Rightarrow> 'b \<Rightarrow> string option \<Rightarrow> string \<Rightarrow> ('h, 'b) gateway_result" where
  "build_response G status headers body source target =
     bind_r (insert_static G ''x-anymirror-mode'' source
        (append_headers G (ge_headers_iter G headers) (ge_headers_new G))) (\<lambda>response_headers.
     bind_r (insert_target G (Some target) response_headers) (\<lambda>response_headers.
     Ok (Responded \<lparr>hr_status = status, hr_headers = response_headers, hr_body = body\<rparr>)))"

definition build_buffered_response ::
  "('h, 'b, 'j) gateway_env \<Rightarrow> 'h buffered_upstream_response \<Rightarrow> string option \<Rightarrow> string \<Rightarrow> ('h, 'b) gateway_result" where
  "build_buffered_response G buffered source target =
     build_response G (bu_status buffered) (bu_headers buffered) (ge_body_from G (bu_body buffered)) source target"

definition finalize_buffered_plugin_response ::
  "('h, 'b, 'j) gateway_env \<Rightarrow> 'h buffered_upstream_response \<Rightarrow> (plugin_error, plugin_response_plan option) result \<Rightarrow>
     string option \<Rightarrow> string \<Rightarrow> ('h, 'b) gateway_result" where
  "finalize_buffered_plugin_response G response response_plan source target =
     (case apply_plugin_response_patch G (bu_status response) (bu_headers response) response_plan of
        Inl error \<Rightarrow> Ok (JsonError 502 error)
      | Inr (status, headers, body_patch) \<Rightarrow>
          (let response = response\<lparr>bu_status := status, bu_headers := headers\<rparr>;
               response = (case body_patch of
                 Some body \<Rightarrow> response\<lparr>bu_body := body, bu_headers := remove_content_headers G headers\<rparr>
               | None \<Rightarrow> response)
           in build_buffered_response G response source target))"

definition finalize_streaming_plugin_response ::
  "('h, 'b, 'j) gateway_env \<Rightarrow> ('h, 'b) http_response \<Rightarrow> (plugin_error, plugin_response_plan option) result \<Rightarrow>
     string option \<Rightarrow> string \<Rightarrow> ('h, 'b) gateway_result" where
  "finalize_streaming_plugin_response G response response_plan source target =
     (case apply_plugin_response_patch G (hr_status response) (hr_headers response) response_plan of
        Inl error \<Rightarrow> Ok (JsonError 502 error)
      | Inr (status, headers, body_override) \<Rightarrow>
          (case body_override of
             Some body \<Rightarrow> build_buffered_response G \<lparr>bu_status = status, bu_headers = headers, bu_body = body\<rparr> source target
           | None \<Rightarrow> build_response G status headers (hr_body response) source target))"

definition forward_plugin_request ::
  "('h, 'b, 'j) gateway_env \<Rightarrow> ('h, 'j) app_state \<Rightarrow> string \<Rightarrow> 'h \<Rightarrow> 'b \<Rightarrow> url \<Rightarrow> string option \<Rightarrow> string \<Rightarrow>
     ('h, 'b) gateway_result" where
  "forward_plugin_request G st method request_headers body original source plugin_name =
     (let plugins = live_registry_snapshot (as_plugins st);
          response_access = response_body_access plugins plugin_name
      in case collect_plugin_request_body G body (request_body_access plugins plugin_name) of
           Inl error \<Rightarrow> Ok (JsonError 502 error)
         | Inr request_body \<Rightarrow>
       (let initial_request = build_plugin_request_context G (unwrap_or ''explicit'' source) method original
              request_headers (incoming_bytes request_body)
        in case plugin_resolve_request (ge_plugins G) plugins plugin_name
                  (request_stage_context_new (pe_null (ge_plugins G)) initial_request) of
             Inl error \<Rightarrow> if error = PluginPanic then Err PanicPluginMatch
                          else Ok (JsonError 502 (PluginResolutionFailed error))
           | Inr request_plan \<Rightarrow>
         (case prepare_plugin_request G method request_headers request_body initial_request request_plan of
            Inl error \<Rightarrow> Ok (JsonError 502 error)
          | Inr prepared \<Rightarrow>
              (case pp_outcome prepared of
                 OutReject reject \<Rightarrow> reject_response G (rej_status reject) (rej_message reject)
               | _ \<Rightarrow>
                   bind_r (resolve_plugin_upstream G (pp_outcome prepared) (pp_context prepared) source)
                     (\<lambda>(upstream, response_source).
                   case ge_execute G (pp_method prepared) (pp_headers prepared) (url_as_str original) upstream
                          (into_body G (pp_body prepared)) of
                     None \<Rightarrow> Ok (JsonError 502 PluginUpstreamFailed)
                   | Some executed \<Rightarrow>
                       if response_access
                       then (case collect_upstream_response G executed of
                               Inl error \<Rightarrow> Ok (JsonError 502 error)
                             | Inr buffered \<Rightarrow>
                                 finalize_buffered_plugin_response G buffered
                                   (run_plugin_response_stage G plugins plugin_name (pp_context prepared)
                                     (pp_matched prepared) (pp_outcome prepared) (bu_status buffered)
                                     (bu_headers buffered) (Some (bu_body buffered)))
                                   response_source (url_as_str (up_url upstream)))
                       else finalize_streaming_plugin_response G executed
                              (run_plugin_response_stage G plugins plugin_name (pp_context prepared)
                                (pp_matched prepared) (pp_outcome prepared) (hr_status executed)
                                (hr_headers executed) None)
                              response_source (url_as_str (up_url upstream)))))))"

section \<open>Forwarding (forwarding/mod.rs)\<close>

definition forward_request ::
  "('h, 'b, 'j) gateway_env \<Rightarrow> ('h, 'j) app_state \<Rightarrow> string \<Rightarrow> 'h \<Rightarrow> 'b \<Rightarrow> url \<Rightarrow> string option \<Rightarrow>
     ('h, 'b) gateway_result" where
  "forward_request G st method inbound_headers body original source =
     (case resolve (ge_lib G) (live_snapshot (as_rules st)) original of
        Some matched \<Rightarrow>
         (case resolved_reject (mr_action matched) of
            Some reject \<Rightarrow> reject_response G (rej_status reject) (rej_message reject)
          | None \<Rightarrow>
         (case resolved_respond (mr_action matched) of
            Some respond \<Rightarrow> respond_response G respond
          | None \<Rightarrow>
         (case resolved_plugin (mr_action matched) of
            Some plugin_name \<Rightarrow>
              forward_plugin_request G st method inbound_headers body original source plugin_name
          | None \<Rightarrow>
              bind_r (ok_or PanicNoUpstream (resolved_upstream (mr_action matched))) (\<lambda>upstream.
              case ge_execute G method inbound_headers (url_as_str original) upstream body of
                None \<Rightarrow> Ok (JsonError 502 ForwardingFailed)
              | Some executed \<Rightarrow>
                  (case resolved_kind (mr_action matched) of
                     KMirror \<Rightarrow> build_proxy_response G executed matched source
                   | KDirect \<Rightarrow> build_passthrough_response G executed source (url_as_str original)
                   | _ \<Rightarrow> Err PanicUnreachable)))))
      | None \<Rightarrow>
          (case ge_execute G method inbound_headers (url_as_str original) (upstream_direct original) body of
             None \<Rightarrow> Ok (JsonError 502 DirectFailed)
           | Some executed \<Rightarrow>
               build_passthrough_response G executed (opt_or_else source (Some ''explicit-direct''))
                 (url_as_str original)))"

definition forward_intercepted_request ::
  "('h, 'b, 'j) gateway_env \<Rightarrow> ('h, 'j) app_state \<Rightarrow> string \<Rightarrow> 'h \<Rightarrow> 'b \<Rightarrow> url \<Rightarrow> string \<Rightarrow>
     ('h, 'b) gateway_result" where
  "forward_intercepted_request G st method inbound_headers body original source =
     (case resolve (ge_lib G) (live_snapshot (as_rules st)) original of
        Some matched \<Rightarrow>
         (case resolved_reject (mr_action matched) of
            Some reject \<Rightarrow> reject_response G (rej_status reject) (rej_message reject)
          | None \<Rightarrow>
         (case resolved_respond (mr_action matched) of
            Some respond \<Rightarrow> respond_response G respond
          | None \<Rightarrow>
         (case resolved_plugin (mr_action matched) of
            Some plugin_name \<Rightarrow>
              forward_plugin_request G st method inbound_headers body original (Some source) plugin_name
          | None \<Rightarrow>
              bind_r (ok_or PanicNoUpstream (resolved_upstream (mr_action matched))) (\<lambda>upstream.
              case ge_execute G method inbound_headers (url_as_str original) upstream body of
                None \<Rightarrow> Ok (JsonError 502 ForwardingFailed)
              | Some executed \<Rightarrow>
                  (case resolved_kind (mr_action matched) of
                     KMirror \<Rightarrow> build_proxy_response G executed matched (Some source)
                   | KDirect \<Rightarrow> build_passthrough_response G executed (Some source) (url_as_str original)
                   | _ \<Rightarrow> Err PanicUnreachable)))))
      | None \<Rightarrow>
          (case ge_execute G method inbound_headers (url_as_str original) (upstream_direct original) body of
             None \<Rightarrow> Ok (JsonError 502 DirectFailed)
           | Some executed \<Rightarrow> build_passthrough_response G executed (Some source) (url_as_str original)))"

definition forward_transparent_request ::
  "('h, 'b, 'j) gateway_env \<Rightarrow> ('h, 'j) app_state \<Rightarrow> string \<Rightarrow> 'h \<Rightarrow> 'b \<Rightarrow> url \<Rightarrow> ('h, 'b) gateway_result" where
  "forward_transparent_request G st method inbound_headers body original =
     forward_intercepted_request G st method inbound_headers body original ''transparent''"

section \<open>Plugin rules and configured rules\<close>

text \<open>The matcher of a plugin rule as the matcher of a configured rule, as written and as compiled.\<close>

definition as_rule_matcher_schema :: "plugin_matcher_schema \<Rightarrow> rule_matcher_schema" where
  "as_rule_matcher_schema v = \<lparr>ms_exact = pms_exact v, ms_prefix = pms_prefix v, ms_host = pms_host v,
     ms_hosts = pms_hosts v, ms_host_suffix = pms_host_suffix v, ms_ip = None, ms_ip_cidr = None,
     ms_scheme = pms_scheme v, ms_port = pms_port v, ms_path_prefix = pms_path_prefix v\<rparr>"

fun as_host_pattern :: "plugin_host_pattern \<Rightarrow> host_pattern" where
  "as_host_pattern (PhExact h) = HostExact h"
| "as_host_pattern (PhAnyOf hs) = HostAnyOf hs"
| "as_host_pattern (PhSuffix s) = HostSuffix s"

fun as_rule_matcher :: "compiled_plugin_matcher \<Rightarrow> rule_matcher" where
  "as_rule_matcher (PmExactUrl u) = ExactUrl u"
| "as_rule_matcher (PmPrefixUrl u) = PrefixUrl u"
| "as_rule_matcher (PmHost m) = HostM \<lparr>hm_pattern = as_host_pattern (phm_pattern m), hm_scheme = phm_scheme m,
     hm_port = phm_port m, hm_path_prefix = phm_path_prefix m\<rparr>"

lemma result_ok_bind: "result_ok (bind_r r f) = Option.bind (result_ok r) (\<lambda>x. result_ok (f x))"
  by (cases r) simp_all

lemma result_ok_ensure [simp]: "result_ok (ensure_r b e) = (if b then Some () else None)"
  by (simp add: ensure_r_def)

lemma result_ok_ok_or [simp]: "result_ok (ok_or e x) = x"
  by (cases x) simp_all

lemma result_ok_transpose:
  "(\<And>v. result_ok (f v) = result_ok (g v)) \<Longrightarrow> result_ok (transpose_r f x) = result_ok (transpose_r g x)"
  by (cases x) (simp_all add: result_ok_bind)

lemma result_ok_collect:
  "(\<And>v. result_ok (f v) = result_ok (g v)) \<Longrightarrow> result_ok (collect_r f xs) = result_ok (collect_r g xs)"
  by (induction xs) (simp_all add: result_ok_bind)

lemma plugin_normalize_host_ok: "result_ok (plugin_normalize_host v) = result_ok (normalize_host v)"
proof -
  have "plugin_normalize_host v = Inr h \<longleftrightarrow> normalize_host v = Inr h" for h
    by (auto simp: normalize_host_Ok_iff plugin_normalize_host_def Let_def result_simps contains_char_def
        dest: contains_str_char [where c = "CHR ''/''"])
  then show ?thesis by (metis result_ok_Some_iff option.exhaust)
qed

lemma plugin_normalizers_ok:
  "result_ok (plugin_normalize_host_suffix v) = result_ok (normalize_host_suffix v)"
  "result_ok (plugin_normalize_scheme v) = result_ok (normalize_scheme v)"
  "result_ok (plugin_normalize_path_prefix v) = result_ok (normalize_path_prefix v)"
  "plugin_path_has_prefix = path_has_prefix"
  by (simp_all add: plugin_normalize_host_suffix_def normalize_host_suffix_def plugin_normalize_scheme_def
      normalize_scheme_def plugin_normalize_path_prefix_def normalize_path_prefix_def result_ok_bind Let_def
      plugin_path_has_prefix_def path_has_prefix_def fun_eq_iff)

lemma compile_as_rule_matcher:
  assumes "pms_path_suffix v = None"
  shows "result_ok (compile_matcher L (as_rule_matcher_schema v)) =
    map_option as_rule_matcher (result_ok (plugin_matcher_try_from L v))"
proof -
  note oks = result_ok_bind plugin_normalize_host_ok plugin_normalizers_ok
    result_ok_transpose [of plugin_normalize_scheme normalize_scheme, OF plugin_normalizers_ok(2)]
    result_ok_transpose [of plugin_normalize_path_prefix normalize_path_prefix, OF plugin_normalizers_ok(3)]
    result_ok_collect [of plugin_normalize_host normalize_host, OF plugin_normalize_host_ok]
  show ?thesis
    using assms
    by (cases "pms_exact v"; cases "pms_prefix v"; cases "pms_host v"; cases "pms_hosts v"; cases "pms_host_suffix v")
       (auto simp: compile_matcher_def plugin_matcher_try_from_def as_rule_matcher_schema_def count_some_def oks Let_def
          split: bind_splits)
qed

lemma as_rule_matcher_matches:
  assumes "\<forall>h. url_host_str u = Some h \<longrightarrow> normalize_host h = Ok h"
    and "\<And>e. m \<noteq> PmExactUrl e" "\<And>hm. m = PmHost hm \<Longrightarrow> phm_path_suffix hm = None"
  shows "plugin_matcher_matches m (build_plugin_request_context G source method u headers body) \<longleftrightarrow>
    (\<exists>suf. explain_with_lookup L (as_rule_matcher m) u (lookup_from_url u) = Matched suf)"
proof (cases m)
  case (PmPrefixUrl origin)
  then show ?thesis
    by (auto simp: plugin_matcher_matches_def build_plugin_request_context_def explain_with_lookup_def same_origin_def
        plugin_normalizers_ok)
next
  case (PmHost hm)
  have "lc_normalized_host (lookup_from_url u) = url_host_str u"
    using assms(1) by (cases "url_host_str u") (simp_all add: lookup_from_url_def normalize_host_cow_eq)
  then show ?thesis using PmHost assms(3)
    by (cases "phm_pattern hm"; cases "url_host_str u")
       (auto simp: plugin_matcher_matches_def plugin_host_matcher_matches_def build_plugin_request_context_def
          explain_with_lookup_def host_explain_match_def explain_common_lookup_parts_def lookup_from_url_def
          plugin_normalizers_ok Let_def list_ex_iff split: option.splits if_splits)
qed (use assms(2) in simp)

lemma plugin_matcher_shape:
  assumes "plugin_matcher_try_from L v = Ok m" "pms_exact v = None" "pms_path_suffix v = None"
  shows "m \<noteq> PmExactUrl e" "m = PmHost hm \<Longrightarrow> phm_path_suffix hm = None"
  using assms by (auto simp: plugin_matcher_try_from_def result_simps Let_def split: option.splits)

section \<open>Responses are built without panics\<close>

text \<open>
  What the \<^verbatim>\<open>http\<close> crate documents: a status code is a number from 100 to 999, and visible ASCII is a
  header value.
\<close>

definition http_laws :: "('h, 'b, 'j) gateway_env \<Rightarrow> bool" where
  "http_laws G \<longleftrightarrow> (\<forall>s. ge_status_from_u16 G s \<longleftrightarrow> 100 \<le> s \<and> s \<le> 999)
     \<and> (\<forall>v. list_all ascii_graphic v \<longrightarrow> ge_header_value G v = Some v)"

abbreviation graphic :: "string option \<Rightarrow> bool" where
  "graphic s \<equiv> pred_option (list_all ascii_graphic) s"

lemma insert_static_ok: "http_laws G \<Longrightarrow> graphic v \<Longrightarrow> \<exists>h'. insert_static G name v h = Ok h'"
  by (cases v) (simp_all add: insert_static_def http_laws_def)

lemma insert_target_ok: "http_laws G \<Longrightarrow> \<exists>h'. insert_target G t h = Ok h'"
  by (auto simp: insert_target_def http_laws_def ascii_graphic_def split: option.split)

lemma build_upstream_response_ok:
  assumes "http_laws G" "graphic source" "graphic kind"
  obtains r where "build_upstream_response G up source target kind = Ok (Responded r)"
    "hr_status r = hr_status up" "hr_body r = hr_body up"
proof -
  let ?h = "append_headers G (filter (\<lambda>(name, value). is_end_to_end_header name) (ge_headers_iter G (hr_headers up)))
    (ge_headers_new G)"
  obtain h1 where "insert_static G ''x-anymirror-mode'' source ?h = Ok h1" using insert_static_ok [OF assms(1,2)] by blast
  moreover obtain h2 where "insert_target G target h1 = Ok h2" using insert_target_ok [OF assms(1)] by blast
  moreover obtain h3 where "insert_static G ''x-anymirror-rule-kind'' kind h2 = Ok h3"
    using insert_static_ok [OF assms(1,3)] by blast
  ultimately show thesis
    by (intro that [of "\<lparr>hr_status = hr_status up, hr_headers = h3, hr_body = hr_body up\<rparr>"])
       (simp_all add: build_upstream_response_def)
qed

lemma build_response_ok:
  assumes "http_laws G" "graphic source"
  obtains r where "build_response G status headers body source target = Ok (Responded r)"
    "hr_status r = status" "hr_body r = body"
proof -
  let ?h = "append_headers G (ge_headers_iter G headers) (ge_headers_new G)"
  obtain h1 where "insert_static G ''x-anymirror-mode'' source ?h = Ok h1" using insert_static_ok [OF assms] by blast
  moreover obtain h2 where "insert_target G (Some target) h1 = Ok h2" using insert_target_ok [OF assms(1)] by blast
  ultimately show thesis
    by (intro that [of "\<lparr>hr_status = status, hr_headers = h2, hr_body = body\<rparr>"]) (simp_all add: build_response_def)
qed

lemma rule_kind_name_graphic: "list_all ascii_graphic (rule_kind_name m)"
  by (cases "r_kind (mr_rule m)") (simp_all add: rule_kind_name_def ascii_graphic_def)

lemma valid_status_from_u16: "http_laws G \<Longrightarrow> valid_status s \<Longrightarrow> ge_status_from_u16 G s"
  by (auto simp: http_laws_def valid_status_def word_le_nat_alt)

lemma reject_response_ok: "http_laws G \<Longrightarrow> valid_status s \<Longrightarrow> \<exists>r. reject_response G s m = Ok r"
  by (simp add: reject_response_def valid_status_from_u16)

lemma reject_response_Err:
  "http_laws G \<Longrightarrow> reject_response G s m = Err p \<longleftrightarrow> p = PanicRejectStatus s \<and> \<not> (100 \<le> s \<and> s \<le> 999)"
  by (auto simp: reject_response_def http_laws_def bind_r_Err_iff)

lemma respond_response_ok: "http_laws G \<Longrightarrow> valid_status (resp_status a) \<Longrightarrow> \<exists>r. respond_response G a = Ok r"
  using decimal_graphic valid_status_from_u16 [of G "resp_status a"]
  by (auto simp: respond_response_def http_laws_def Let_def split: option.splits)

lemma build_passthrough_ok:
  "http_laws G \<Longrightarrow> graphic source \<Longrightarrow> \<exists>r. build_passthrough_response G up source target = Ok r"
  by (metis build_passthrough_response_def build_upstream_response_ok option.pred_inject(1))

lemma build_proxy_ok:
  assumes "http_laws G" "graphic source" "resolved_upstream (mr_action m) = Some up"
  shows "\<exists>r. build_proxy_response G e m source = Ok r"
  using build_upstream_response_ok [OF assms(1,2), of "Some (rule_kind_name m)" e "Some (url_as_str (up_url up))"]
    rule_kind_name_graphic [of m] assms(3)
  by (auto simp: build_proxy_response_def)

lemma finalize_buffered_ok:
  "http_laws G \<Longrightarrow> graphic source \<Longrightarrow> \<exists>r. finalize_buffered_plugin_response G b plan source target = Ok r"
  unfolding finalize_buffered_plugin_response_def build_buffered_response_def Let_def
  by (auto split: sum.split option.split intro: build_response_ok)

lemma finalize_streaming_ok:
  "http_laws G \<Longrightarrow> graphic source \<Longrightarrow> \<exists>r. finalize_streaming_plugin_response G e plan source target = Ok r"
  unfolding finalize_streaming_plugin_response_def build_buffered_response_def
  by (auto split: sum.split option.split intro: build_response_ok)

section \<open>Which rule a request is forwarded by\<close>

lemma resolve_loop_origin:
  fixes L :: ext_lib and u :: url and entries :: "'h rule list"
  defines "from_rule \<equiv> \<lambda>m :: 'h matched_rule. mr_rule m \<in> set entries
    \<and> (\<exists>suf. mr_action m = resolve_action L (r_action (mr_rule m)) u suf)"
  assumes "\<forall>i \<in> set idxs. i < length entries" "pred_option from_rule pr" "pred_option from_rule pm"
    "resolve_candidates_loop L entries u lc idxs pr act pm = Some m"
  shows "from_rule m"
  using assms(2,3,4,5)
proof (induction idxs arbitrary: pr act pm)
  case Nil
  then show ?case by (auto split: option.splits if_splits)
next
  case (Cons i js)
  have new: "from_rule \<lparr>mr_action = a, mr_rule = entries ! i\<rparr>" if "resolve_with_lookup L (entries ! i) u lc = Some a" for a
    using that Cons.prems(1) by (auto simp: from_rule_def resolve_with_lookup_def split: rule_match_explain.splits)
  have rest: "\<forall>i \<in> set js. i < length entries" using Cons.prems(1) by simp
  have IH: "from_rule m" if "resolve_candidates_loop L entries u lc js p a q = Some m" "pred_option from_rule p"
    "pred_option from_rule q" for p a q using Cons.IH [OF rest that(2,3,1)] .
  show ?case
    using Cons.prems(2-) new
    by (auto simp: Let_def split: if_splits option.splits)
       (erule IH; simp)+
qed

lemma resolve_origin:
  assumes "resolve L (rule_set_new rs) u = Some m"
  shows "mr_rule m \<in> set rs \<and> (\<exists>suf. mr_action m = resolve_action L (r_action (mr_rule m)) u suf)"
proof (rule resolve_loop_origin [of "candidate_order rs (compile rs) u" rs])
  show "\<forall>i \<in> set (candidate_order rs (compile rs) u). i < length rs"
    by (simp add: set_candidate_order collect_bound)
  show "resolve_candidates_loop L rs u (lookup_from_url u) (candidate_order rs (compile rs) u) None None None = Some m"
    using assms by (simp add: resolve_def rule_set_new_def index_resolve_def resolve_candidates_def)
qed simp_all

section \<open>What a plugin can do to a request\<close>

lemma prepare_outcome:
  assumes "prepare_plugin_request G method hs b ctx plan = Ok p" "pp_outcome p = OutReject r"
  shows "\<exists>q. plan = Some q \<and> pqp_outcome q = OutReject r"
  using assms
  by (auto simp: prepare_plugin_request_def result_simps Let_def
      split: option.splits plugin_resolved_outcome.splits prod.splits)

lemma prepare_url:
  assumes "prepare_plugin_request G method hs b ctx plan = Ok p" "url_reparse_law (ge_lib G)"
    "url_parse (ge_lib G) (prq_url ctx) = Some u"
  shows "\<exists>v. url_parse (ge_lib G) (prq_url (pp_context p)) = Some v"
  using assms
  by (auto simp: prepare_plugin_request_def result_simps Let_def url_reparse_law_def
      split: option.splits plugin_resolved_outcome.splits prod.splits)

lemma prepare_body:
  assumes "prepare_plugin_request G method hs b ctx plan = Ok p"
    "\<And>q. plan = Some q \<Longrightarrow> prp_body (pqp_request_patch q) = None"
  shows "pp_body p = b"
  using assms
  by (auto simp: prepare_plugin_request_def result_simps Let_def request_patch_default_def
      split: option.splits plugin_resolved_outcome.splits prod.splits)

lemma resolve_plugin_upstream_ok:
  assumes "graphic source" "url_parse (ge_lib G) (prq_url ctx) = Some v" "\<And>r. out \<noteq> OutReject r"
  obtains up src where "resolve_plugin_upstream G out ctx source = Ok (up, src)" "graphic src"
  using assms
  by (cases out; cases source) (auto simp: resolve_plugin_upstream_def ascii_graphic_def)

text \<open>The only panic of a plugin request is a rejection with a number that is not a status code.\<close>

lemma forward_plugin_request_panic:
  assumes laws: "http_laws G" "url_reparse_law (ge_lib G)" "url_parse (ge_lib G) raw = Some original" "graphic source"
    and reg: "registry_build (ge_plugins G) options rules = Ok (live_registry_snapshot (as_plugins st))"
    and panic: "forward_plugin_request G st method hs body original source name = Err p"
  shows "\<exists>ctx plan reject. plugin_resolve_request (ge_plugins G) (live_registry_snapshot (as_plugins st)) name ctx = Ok (Some plan)
    \<and> pqp_outcome plan = OutReject reject \<and> p = PanicRejectStatus (rej_status reject)
    \<and> \<not> (100 \<le> rej_status reject \<and> rej_status reject \<le> 999)"
proof -
  let ?reg = "live_registry_snapshot (as_plugins st)"
  from panic obtain rb where rb: "collect_plugin_request_body G body (request_body_access ?reg name) = Ok rb"
    by (auto simp: forward_plugin_request_def Let_def split: sum.splits)
  define ctx0 where "ctx0 = build_plugin_request_context G (unwrap_or ''explicit'' source) method original hs (incoming_bytes rb)"
  let ?stage = "request_stage_context_new (pe_null (ge_plugins G)) ctx0"
  have url: "url_parse (ge_lib G) (prq_url ctx0) = Some original"
    using laws(2,3) by (auto simp: ctx0_def build_plugin_request_context_def url_reparse_law_def)
  note unfolded = panic [unfolded forward_plugin_request_def Let_def rb sum.case ctx0_def [symmetric]]
  obtain plan where plan: "plugin_resolve_request (ge_plugins G) ?reg name ?stage = Ok plan"
    using unfolded plugin_resolve_request_no_panic [OF reg laws(2)] by (auto split: sum.splits if_splits)
  obtain prep where prep: "prepare_plugin_request G method hs rb ctx0 plan = Ok prep"
    using unfolded by (auto simp: plan split: sum.splits)
  show ?thesis
  proof (cases "\<exists>reject. pp_outcome prep = OutReject reject")
    case True
    then obtain reject where r: "pp_outcome prep = OutReject reject" ..
    then obtain q where q: "plan = Some q" "pqp_outcome q = OutReject reject" using prepare_outcome [OF prep] by blast
    have "reject_response G (rej_status reject) (rej_message reject) = Err p"
      using unfolded by (simp add: plan prep r)
    then show ?thesis using plan q unfolding reject_response_Err [OF laws(1)] by blast
  next
    case False
    obtain v where "url_parse (ge_lib G) (prq_url (pp_context prep)) = Some v" using prepare_url [OF prep laws(2) url] ..
    then obtain up src where up: "resolve_plugin_upstream G (pp_outcome prep) (pp_context prep) source = Ok (up, src)" "graphic src"
      using False by (auto intro: resolve_plugin_upstream_ok [OF laws(4)])
    have fin: "finalize_buffered_plugin_response G b rp src t \<noteq> Err p" "finalize_streaming_plugin_response G e rp src t \<noteq> Err p"
      for b e rp t using finalize_buffered_ok [OF laws(1) up(2), of b rp t] finalize_streaming_ok [OF laws(1) up(2), of e rp t]
      by auto
    have out: "(case pp_outcome prep of OutReject reject \<Rightarrow> f reject | _ \<Rightarrow> x) = x" for f and x :: "('a, 'b) gateway_result"
      using False by (cases "pp_outcome prep") auto
    from unfolded have False
      unfolding plan sum.case prep out up(1) bind_r_simps prod.case by (simp add: fin split: option.splits if_splits sum.splits)
    then show ?thesis ..
  qed
qed

lemma forward_intercepted_eq:
  "forward_intercepted_request G st method hs body original source =
     forward_request G st method hs body original (Some source)"
  by (simp add: forward_intercepted_request_def forward_request_def cong: option.case_cong)

text \<open>Without the permissions, the bodies pass through as they are.\<close>

lemma no_body_access:
  assumes "registry_build E options rules = Ok reg"
    "\<forall>d \<in> set (pro_definitions options). pd_name d = name \<longrightarrow>
       \<not> pp_on_request_body (pd_permissions d) \<and> \<not> pp_on_response_body (pd_permissions d)"
  shows "\<not> request_body_access reg name" "\<not> response_body_access reg name"
    "plugin_resolve_request E reg name ctx = Ok (Some plan) \<Longrightarrow> prp_body (pqp_request_patch plan) = None"
    "plugin_resolve_response E reg name rctx = Ok (Some rplan) \<Longrightarrow> psp_body (psl_patch rplan) = None"
  using assms(2) registry_build_ok [OF assms(1), of name]
  by (auto simp: request_body_access_def response_body_access_def allows_request_body_def allows_response_body_def
      plugin_ok_def split: option.splits elim!: plugin_resolve_request_permission plugin_resolve_response_permission)

lemma finalize_streaming_body:
  assumes "finalize_streaming_plugin_response G e plan source target = Ok (Responded r)"
    "\<And>q. plan = Ok (Some q) \<Longrightarrow> psp_body (psl_patch q) = None"
  shows "hr_body r = hr_body e"
  using assms
  by (auto simp: finalize_streaming_plugin_response_def apply_plugin_response_patch_def build_response_def result_simps
      split: sum.splits option.splits)

section \<open>Forwarding answers\<close>

text \<open>
  The rule that routes the request names a plugin that rejects it with a number that is not a status code.
\<close>

definition bad_plugin_status :: "('h, 'b, 'j) gateway_env \<Rightarrow> ('h, 'j) app_state \<Rightarrow> url \<Rightarrow> gateway_panic \<Rightarrow> bool" where
  "bad_plugin_status G st original p \<longleftrightarrow>
     (\<exists>matched name ctx plan reject. resolve (ge_lib G) (live_snapshot (as_rules st)) original = Some matched
       \<and> mr_action matched = ResPlugin name
       \<and> plugin_resolve_request (ge_plugins G) (live_registry_snapshot (as_plugins st)) name ctx = Ok (Some plan)
       \<and> pqp_outcome plan = OutReject reject \<and> \<not> (100 \<le> rej_status reject \<and> rej_status reject \<le> 999)
       \<and> p = PanicRejectStatus (rej_status reject))"

text \<open>A handler answers, or it panics for that reason.\<close>

definition answers :: "('h, 'b, 'j) gateway_env \<Rightarrow> ('h, 'j) app_state \<Rightarrow> ('h, 'b) gateway_result \<Rightarrow> bool" where
  "answers G st r = (case r of Inr _ \<Rightarrow> True | Inl p \<Rightarrow> \<exists>original. bad_plugin_status G st original p)"

lemma answers_Ok [simp]: "answers G st (Ok r)" "\<exists>r. x = Ok r \<Longrightarrow> answers G st x"
  by (auto simp: answers_def)

lemma forward_request_answers:
  assumes "http_laws G" "url_reparse_law (ge_lib G)" "url_parse (ge_lib G) raw = Some original" "graphic source"
    and "live_snapshot (as_rules st) = rule_set_new rs" "\<forall>r \<in> set rs. rule_wf r"
    and "registry_build (ge_plugins G) options rules = Ok (live_registry_snapshot (as_plugins st))"
  shows "answers G st (forward_request G st method hs body original source)"
proof -
  have src: "graphic (opt_or_else source (Some ''explicit-direct''))"
    using assms(4) by (cases source) (simp_all add: ascii_graphic_def)
  show ?thesis
  proof (cases "resolve (ge_lib G) (live_snapshot (as_rules st)) original")
    case None
    then show ?thesis using build_passthrough_ok [OF assms(1) src]
      by (simp add: forward_request_def split: option.split)
  next
    case (Some m)
    then obtain suf where m: "mr_rule m \<in> set rs" "mr_action m = resolve_action (ge_lib G) (r_action (mr_rule m)) original suf"
      using resolve_origin assms(5) by metis
    then have wf: "action_wf (r_action (mr_rule m))" using assms(6) by (auto simp: rule_wf_def)
    show ?thesis
    proof (cases "r_action (mr_rule m)")
      case (ActPlugin name)
      then have fwd: "forward_request G st method hs body original source = forward_plugin_request G st method hs body original source name"
        and "mr_action m = ResPlugin name" using Some m by (simp_all add: forward_request_def resolve_action_def)
      then have "bad_plugin_status G st original p" if "forward_plugin_request G st method hs body original source name = Err p" for p
        using forward_plugin_request_panic [OF assms(1,2,3,4,7) that] Some unfolding bad_plugin_status_def by blast
      then show ?thesis unfolding fwd answers_def by (auto split: sum.split)
    qed (use Some m wf build_passthrough_ok [OF assms(1,4)] build_proxy_ok [OF assms(1,4), of m]
          reject_response_ok [OF assms(1)] respond_response_ok [OF assms(1)] in
        \<open>auto simp: forward_request_def resolve_action_def action_wf_def split: option.split\<close>)
  qed
qed

section \<open>A concrete gateway\<close>

text \<open>Header maps carry nothing, bodies are their bytes, the upstream answers every request with its own body.\<close>

definition sample_gateway :: "string plugin_request_output \<Rightarrow> (unit, string, string) gateway_env" where
  "sample_gateway out =
     \<lparr>ge_plugins = sample_plugin_env out, ge_status_from_u16 = (\<lambda>s. 100 \<le> s \<and> s \<le> 999), ge_method_parse = Some,
      ge_header_name = Some, ge_header_value = Some, ge_value_to_str = Some, ge_headers_new = (),
      ge_headers_append = \<lambda>_ _ _. (), ge_headers_insert = \<lambda>_ _ _. (), ge_headers_remove = \<lambda>_ _. (),
      ge_headers_get = \<lambda>_ _. None, ge_headers_iter = \<lambda>_. [], ge_body_from = id, ge_body_collect = Some,
      ge_base64_encode = id, ge_read_file = \<lambda>_. None,
      ge_execute = \<lambda>_ _ _ _ b. Some \<lparr>hr_status = 200, hr_headers = (), hr_body = ''re:'' @ b\<rparr>\<rparr>"

definition sample_state :: "bool \<Rightarrow> (unit, string) app_state" where
  "sample_state body = \<lparr>as_plugins = live_registry_new (sample_registry body), as_rules = live_new (rule_set_new stop_rules)\<rparr>"

lemma sample_gateway_laws:
  "http_laws (sample_gateway out)" "url_reparse_law (ge_lib (sample_gateway out))"
  "url_parse (ge_lib (sample_gateway out)) ''https://a.io/'' = Some (sample_url ''a.io'' ''/'')"
  using sample_lib_reparse
  by (auto simp: http_laws_def sample_gateway_def sample_plugin_env_def sample_lib_def strip_prefix_def)

lemma stop_rules_wf: "\<forall>r \<in> set stop_rules. rule_wf r"
  by (simp add: stop_rules_def sample_rule_def host_is_def rule_wf_def matcher_wf_def common_wf_def action_wf_def
      bare_host_def is_ascii_uppercase_def trim_graphic ascii_graphic_def)

lemma sample_registry_state:
  "registry_build (ge_plugins (sample_gateway out)) (sample_plugin_options b) (rule_set_new []) =
     Ok (live_registry_snapshot (as_plugins (sample_state b)))"
  using sample_registry_built
  by (simp add: sample_gateway_def sample_state_def live_registry_snapshot_def live_registry_new_def)

lemma sample_state_resolve:
  obtains m where "resolve (ge_lib (sample_gateway out)) (live_snapshot (as_rules (sample_state b))) (sample_url ''a.io'' ''/'') = Some m"
    "mr_action m = ResPlugin ''p''"
proof -
  let ?u = "sample_url ''a.io'' ''/''"
  note hyps = sample_lib_contains_law stop_rules_ok
  let ?m = "mk_matched sample_lib stop_rules ?u 0"
  have r: "resolve sample_lib (rule_set_new stop_rules) ?u = Some ?m"
    by (simp add: resolve_new_eq_spec [OF hyps] spec_routed stop_rules_winners)
  moreover have "mr_action ?m = ResPlugin ''p''"
    using resolve_origin [OF r] by (auto simp: mk_matched_def stop_rules_def sample_rule_def resolve_action_def)
  ultimately show thesis
    by (intro that [of ?m]) (simp_all add: sample_state_def sample_gateway_def sample_plugin_env_def live_new_def live_snapshot_def)
qed

text \<open>A plugin that rejects with status zero makes the handler panic.\<close>

abbreviation rejecting_answer :: "string plugin_request_output" where
  "rejecting_answer \<equiv> sample_answer (PaReject (Some 0) None) None"

lemma rejecting_plan:
  "plugin_resolve_request (sample_plugin_env rejecting_answer) (sample_registry b) ''p'' ctx =
     Ok (Some \<lparr>pqp_outcome = OutReject \<lparr>rej_status = 0, rej_message = ''request rejected by plugin''\<rparr>, pqp_matched = None,
       pqp_request_patch = request_patch_default\<rparr>)"
  by (simp add: plugin_resolve_request_def sample_registry_def sample_plugin_env_def sample_answer_def
      plugin_outcome_try_from_def request_patch_try_from_def parse_body_patch_def filter_opt_def
      parse_header_patches_def ensure_body_patch_permission_def request_patch_default_def)

lemma sample_state_registry: "live_registry_snapshot (as_plugins (sample_state b)) = sample_registry b"
  by (simp add: sample_state_def live_registry_snapshot_def live_registry_new_def)

lemma sample_gateway_plugins: "ge_plugins (sample_gateway out) = sample_plugin_env out"
  by (simp add: sample_gateway_def)

lemma rejecting_plugin_panics:
  "forward_request (sample_gateway rejecting_answer) (sample_state False)
     ''GET'' () [] (sample_url ''a.io'' ''/'') None = Err (PanicRejectStatus 0)"
proof -
  let ?G = "sample_gateway rejecting_answer"
  obtain m where "resolve (ge_lib ?G) (live_snapshot (as_rules (sample_state False))) (sample_url ''a.io'' ''/'') = Some m"
    "mr_action m = ResPlugin ''p''" by (rule sample_state_resolve)
  moreover have "\<not> request_body_access (sample_registry False) ''p''"
    by (simp add: request_body_access_def sample_registry_def sample_plugin_def allows_request_body_def)
  moreover have "reject_response ?G 0 msg = Err (PanicRejectStatus 0)" for msg
    by (simp add: reject_response_def sample_gateway_def)
  ultimately show ?thesis
    by (simp add: forward_request_def forward_plugin_request_def sample_state_registry collect_plugin_request_body_def
        sample_gateway_plugins rejecting_plan prepare_plugin_request_def request_patch_default_def Let_def)
qed

section \<open>Properties\<close>

text \<open>
  C21. A plugin rule is written and matches like a configured rule: without the keys only one of the two
  has (\<^verbatim>\<open>path_suffix\<close>, \<^verbatim>\<open>ip\<close>, \<^verbatim>\<open>ip_cidr\<close>) the same matcher is accepted by both compilers, and for a key other
  than \<^verbatim>\<open>exact\<close> both matchers accept the same request URLs whose host is in normal form.
\<close>

theorem plugin_rules_match_like_rules:
  assumes "pms_path_suffix v = None" "pms_exact v = None"
    and "\<forall>h. url_host_str u = Some h \<longrightarrow> normalize_host h = Ok h"
  shows "result_ok (compile_matcher L (as_rule_matcher_schema v)) = map_option as_rule_matcher (result_ok (plugin_matcher_try_from L v))
    \<and> (\<forall>m. plugin_matcher_try_from L v = Ok m \<longrightarrow>
         plugin_matcher_matches m (build_plugin_request_context G source method u headers body) =
         (\<exists>suf. explain_with_lookup L (as_rule_matcher m) u (lookup_from_url u) = Matched suf))"
proof (intro conjI allI impI)
  fix m
  assume m: "plugin_matcher_try_from L v = Ok m"
  show "plugin_matcher_matches m (build_plugin_request_context G source method u headers body) =
    (\<exists>suf. explain_with_lookup L (as_rule_matcher m) u (lookup_from_url u) = Matched suf)"
    by (rule as_rule_matcher_matches [OF assms(3)]) (rule plugin_matcher_shape [OF m assms(2,1)], assumption?)+
qed (rule compile_as_rule_matcher [OF assms(1)])

definition sample_plugin_match :: plugin_matcher_schema where
  "sample_plugin_match = \<lparr>pms_exact = None, pms_prefix = None, pms_host = Some ''a.io'', pms_hosts = None,
     pms_host_suffix = None, pms_scheme = None, pms_port = None, pms_path_prefix = None, pms_path_suffix = None\<rparr>"

theorem plugin_rules_match_like_rules_witness:
  "\<exists>suf. explain_with_lookup sample_lib (HostM \<lparr>hm_pattern = HostExact ''a.io'', hm_scheme = None, hm_port = None, hm_path_prefix = None\<rparr>)
     (sample_url ''a.io'' ''/'') (lookup_from_url (sample_url ''a.io'' ''/'')) = Matched suf"
proof -
  let ?u = "sample_url ''a.io'' ''/''"
  let ?m = "PmHost \<lparr>phm_pattern = PhExact ''a.io'', phm_scheme = None, phm_port = None, phm_path_prefix = None, phm_path_suffix = None\<rparr>"
  have "result_ok (plugin_normalize_host ''a.io'') = Some ''a.io''"
    using sample_host_normal by (simp add: plugin_normalize_host_ok)
  then have m: "plugin_matcher_try_from sample_lib sample_plugin_match = Ok ?m"
    by (simp add: plugin_matcher_try_from_def sample_plugin_match_def count_some_def result_ok_Some_iff)
  have k: "plugin_matcher_matches ?m (build_plugin_request_context G [] [] ?u h None)" for G h
    by (simp add: plugin_matcher_matches_def plugin_host_matcher_matches_def build_plugin_request_context_def sample_url_def)
  have "pms_path_suffix sample_plugin_match = None" "pms_exact sample_plugin_match = None"
    "\<forall>h. url_host_str ?u = Some h \<longrightarrow> normalize_host h = Ok h"
    using sample_host_normal by (simp_all add: sample_plugin_match_def sample_url_def)
  from plugin_rules_match_like_rules [OF this] m k show ?thesis by fastforce
qed

text \<open>
  C22. A plugin without the body permissions sees the bodies pass by: whatever its stages return, a response that reaches
  the client carries the body the upstream sent, and the upstream received the body of the client.
\<close>

theorem plugin_without_permission_keeps_bodies:
  assumes "registry_build (ge_plugins G) options rules = Ok (live_registry_snapshot (as_plugins st))"
    and "\<forall>d \<in> set (pro_definitions options). pd_name d = name \<longrightarrow>
       \<not> pp_on_request_body (pd_permissions d) \<and> \<not> pp_on_response_body (pd_permissions d)"
    and "forward_plugin_request G st method hs body original source name = Ok (Responded r)"
  shows "\<exists>m h upstream executed. ge_execute G m h (url_as_str original) upstream body = Some executed
    \<and> hr_body r = hr_body executed"
proof -
  let ?reg = "live_registry_snapshot (as_plugins st)"
  note access = no_body_access [OF assms(1,2)]
  let ?ctx = "build_plugin_request_context G (unwrap_or ''explicit'' source) method original hs None"
  note fwd = assms(3) [unfolded forward_plugin_request_def Let_def collect_plugin_request_body_def, simplified access(1,2), simplified]
  from fwd obtain plan prep where plan: "plugin_resolve_request (ge_plugins G) ?reg name
      (request_stage_context_new (pe_null (ge_plugins G)) ?ctx) = Ok plan"
    and prep: "prepare_plugin_request G method hs (Streaming body) ?ctx plan = Ok prep"
    by (auto split: sum.splits if_splits)
  have body: "pp_body prep = Streaming body"
    using prepare_body [OF prep] access(3) plan by blast
  have rej: "reject_response G a b \<noteq> Ok (Responded r)" for a b by (auto simp: reject_response_def bind_r_Ok_iff)
  from fwd obtain up src executed where ex: "ge_execute G (pp_method prep) (pp_headers prep) (url_as_str original) up body = Some executed"
    and fin: "finalize_streaming_plugin_response G executed (run_plugin_response_stage G ?reg name (pp_context prep)
        (pp_matched prep) (pp_outcome prep) (hr_status executed) (hr_headers executed) None) src (url_as_str (up_url up)) = Ok (Responded r)"
    by (cases "pp_outcome prep") (auto simp: plan prep body rej bind_r_Ok_iff split: option.splits)
  have "hr_body r = hr_body executed"
    by (rule finalize_streaming_body [OF fin]) (auto simp: run_plugin_response_stage_def intro: access(4))
  with ex show ?thesis by blast
qed

lemma sample_gateway_ops:
  "ge_execute (sample_gateway out) m h u up b = Some \<lparr>hr_status = 200, hr_headers = (), hr_body = ''re:'' @ b\<rparr>"
  "ge_header_value (sample_gateway out) v = Some v"
  by (simp_all add: sample_gateway_def)

lemma direct_plugin_response:
  "forward_plugin_request (sample_gateway (sample_answer PaDirect None)) (sample_state False) ''POST'' () ''hello''
     (sample_url ''a.io'' ''/'') None ''p'' = Ok (Responded \<lparr>hr_status = 200, hr_headers = (), hr_body = ''re:hello''\<rparr>)"
proof -
  let ?E = "sample_plugin_env (sample_answer PaDirect None)"
  have "plugin_resolve_request ?E (sample_registry False) ''p'' ctx =
     Ok (Some \<lparr>pqp_outcome = OutDirect, pqp_matched = None, pqp_request_patch = request_patch_default\<rparr>)" for ctx
    by (simp add: plugin_resolve_request_def sample_registry_def sample_plugin_env_def sample_answer_def
        plugin_outcome_try_from_def request_patch_try_from_def parse_body_patch_def filter_opt_def
        parse_header_patches_def ensure_body_patch_permission_def request_patch_default_def)
  moreover have "plugin_resolve_response ?E (sample_registry False) ''p'' ctx = Ok None" for ctx
    by (simp add: plugin_resolve_response_def sample_registry_def)
  moreover have "\<not> request_body_access (sample_registry False) ''p''" "\<not> response_body_access (sample_registry False) ''p''"
    by (simp_all add: request_body_access_def response_body_access_def sample_registry_def sample_plugin_def allows_request_body_def)
  moreover have "url_parse (ge_lib (sample_gateway (sample_answer PaDirect None))) ''https://a.io/'' = Some (sample_url ''a.io'' ''/'')"
    by (rule sample_gateway_laws)
  ultimately show ?thesis
    by (simp add: forward_plugin_request_def sample_state_registry collect_plugin_request_body_def sample_gateway_plugins
        prepare_plugin_request_def request_patch_default_def Let_def build_plugin_request_context_def sample_url_def
        resolve_plugin_upstream_def run_plugin_response_stage_def finalize_streaming_plugin_response_def
        apply_plugin_response_patch_def build_response_def insert_static_def insert_target_def sample_gateway_ops)
qed

theorem plugin_without_permission_keeps_bodies_witness:
  "\<exists>m h upstream executed. ge_execute (sample_gateway (sample_answer PaDirect None)) m h ''https://a.io/'' upstream ''hello'' = Some executed
     \<and> hr_body executed = ''re:hello''"
  using plugin_without_permission_keeps_bodies [OF sample_registry_state _ direct_plugin_response]
  by (fastforce simp: sample_plugin_options_def sample_plugin_def sample_url_def)

end
