(* ===== verification/Byte_Stream.thy ===== *)
theory Byte_Stream
  imports Net_Types
begin

text \<open>
  Byte streams as the asynchronous readers of the program see them (\<^verbatim>\<open>AsyncRead\<close>, \<^verbatim>\<open>AsyncReadExt\<close>): the sequence
  of the chunks the reads deliver, in which an error may occur. Shared by the CONNECT tunnels of the gateway and the TCP
  streams of the TUN stack.
\<close>

text \<open>A stream: the chunks its reads will deliver, or an I/O error; after the last chunk it is at its end.\<close>

datatype chunk = Data "u8 list" | IoError

type_synonym stream = "chunk list"

definition stream_read :: "nat \<Rightarrow> stream \<Rightarrow> (unit, u8 list \<times> stream) result" where
  "stream_read n s =
     (case s of
        [] \<Rightarrow> Ok ([], [])
      | IoError # rest \<Rightarrow> Err ()
      | Data bs # rest \<Rightarrow>
          if length bs \<le> n then Ok (bs, rest) else Ok (take n bs, Data (drop n bs) # rest))"

fun stream_bytes :: "stream \<Rightarrow> u8 list" where
  "stream_bytes [] = []"
| "stream_bytes (Data bs # s) = bs @ stream_bytes s"
| "stream_bytes (IoError # s) = []"

text \<open>A stream without errors: no read before the end delivers nothing.\<close>

definition stream_ok :: "stream \<Rightarrow> bool" where
  "stream_ok s \<longleftrightarrow> (\<forall>c \<in> set s. \<exists>b bs. c = Data (b # bs))"

lemma stream_read_total:
  assumes "stream_ok s" "0 < n"
  obtains bs s' where "stream_read n s = Ok (bs, s')" "stream_bytes s = bs @ stream_bytes s'" "stream_ok s'"
    "length bs \<le> n" "bs = [] \<longleftrightarrow> stream_bytes s = []"
proof (cases s)
  case Nil
  then show thesis using that [of "[]" "[]"] by (simp add: stream_read_def stream_ok_def)
next
  case (Cons c rest)
  with assms(1) obtain b bs where c: "c = Data (b # bs)" by (auto simp: stream_ok_def)
  show thesis
  proof (cases "length (b # bs) \<le> n")
    case True
    then show thesis using that [of "b # bs" rest] assms(1) Cons c by (simp add: stream_read_def stream_ok_def)
  next
    case False
    then have "drop n (b # bs) \<noteq> []" by simp
    then show thesis
      using that [of "take n (b # bs)" "Data (drop n (b # bs)) # rest"] assms Cons c False
      by (auto simp: stream_read_def stream_ok_def neq_Nil_conv simp del: drop_eq_Nil drop_eq_Nil2)
  qed
qed

section \<open>Exact reads\<close>

text \<open>\<^verbatim>\<open>read_exact\<close>: reads until \<open>n\<close> bytes are there; \<open>None\<close> is an end of the stream before that.\<close>

function read_exact :: "nat \<Rightarrow> stream \<Rightarrow> (unit, (u8 list \<times> stream) option) result" where
  "read_exact n s =
     (if n = 0 then Ok (Some ([], s))
      else case stream_read n s of
             Inl e \<Rightarrow> Err e
           | Inr (bs, s') \<Rightarrow>
               if bs = [] then Ok None
               else bind_r (read_exact (n - length bs) s') (\<lambda>r. Ok (map_option (\<lambda>(rest, s'). (bs @ rest, s')) r)))"
  by pat_completeness auto

termination
  by (relation "measure fst") (auto simp: neq_Nil_conv)

declare read_exact.simps [simp del]

lemma read_exact_total:
  assumes "stream_ok s"
  shows "if n \<le> length (stream_bytes s)
    then \<exists>s'. read_exact n s = Ok (Some (take n (stream_bytes s), s')) \<and> stream_ok s' \<and> stream_bytes s' = drop n (stream_bytes s)
    else read_exact n s = Ok None"
  using assms
proof (induction n s rule: read_exact.induct)
  case (1 n s)
  show ?case
  proof (cases "n = 0")
    case True
    then show ?thesis using "1.prems" by (simp add: read_exact.simps)
  next
    case False
    then obtain bs s' where r: "stream_read n s = Ok (bs, s')" "stream_bytes s = bs @ stream_bytes s'" "stream_ok s'"
      "length bs \<le> n" "bs = [] \<longleftrightarrow> stream_bytes s = []" using stream_read_total [OF "1.prems"] by blast
    show ?thesis
    proof (cases "bs = []")
      case True
      then have "read_exact n s = Ok None" using False r(1) by (subst read_exact.simps) simp
      then show ?thesis using True False r(5) by simp
    next
      case ne: False
      note IH = "1.IH" [OF False r(1) refl ne r(3)]
      have step: "read_exact n s = bind_r (read_exact (n - length bs) s') (\<lambda>r. Ok (map_option (\<lambda>(rest, s'). (bs @ rest, s')) r))"
        using False ne by (subst read_exact.simps) (simp add: r(1))
      show ?thesis
      proof (cases "n \<le> length (stream_bytes s)")
        case True
        then have "n - length bs \<le> length (stream_bytes s')" using r(2) by simp
        with IH True show ?thesis using r(2,4) by (auto simp: step)
      next
        case short: False
        then have "\<not> n - length bs \<le> length (stream_bytes s')" using r(2,4) by simp
        with IH short show ?thesis by (simp add: step)
      qed
    qed
  qed
qed

end
