(* ===== verification/Gateway.thy ===== *)
theory Gateway
  imports Forwarding Byte_Stream Packet
begin

text \<open>
  The entry points of the gateway: \<^verbatim>\<open>src/src/gateway/http/request_parser.rs\<close> and
  \<^verbatim>\<open>src/src/gateway/handlers/\<close>. A request is its method, URI, headers and body; a URI is what the code reads of
  \<^verbatim>\<open>http::Uri\<close>, its text and its path and query. The parser of \<^verbatim>\<open>http::uri::Authority\<close> is a field of
  \<open>entry_env\<close>. Spans and log lines are left out. The byte stream of a CONNECT tunnel is the sequence of the
  chunks its reads deliver, in which an error may occur.
\<close>

section \<open>Request targets (request_parser.rs)\<close>

record authority =
  au_as_str :: string
  au_host :: string
  au_port_u16 :: "u16 option"

record uri =
  uri_to_string :: string
  uri_path_and_query :: "string option"

record ('h, 'b, 'j) entry_env =
  ee_gateway :: "('h, 'b, 'j) gateway_env"
  ee_authority_parse :: "string \<Rightarrow> authority option"

type_synonym 'a parsed = "(u16 \<times> gateway_message, 'a) result"

definition ORIGINAL_URL_HEADER :: string where "ORIGINAL_URL_HEADER = ''x-anymirror-original-url''"
definition ORIGINAL_SCHEME_HEADER :: string where "ORIGINAL_SCHEME_HEADER = ''x-anymirror-original-scheme''"
definition HOST :: string where "HOST = ''host''"

record connect_authority =
  ca_authority :: string
  ca_host :: string
  ca_port :: u16

definition format_authority_host :: "string \<Rightarrow> string" where
  "format_authority_host host =
     (if contains_char host CHR '':'' \<and> \<not> starts_with host ''['' then ''['' @ host @ '']'' else host)"

definition format_url_authority :: "string \<Rightarrow> u16 \<Rightarrow> string" where
  "format_url_authority host port =
     (if port = 443 then format_authority_host host
      else format_authority_host host @ '':'' @ decimal (unat port))"

definition host_header :: "connect_authority \<Rightarrow> string" where
  "host_header t =
     (if ca_port t = 443 then format_authority_host (ca_host t) else format_url_authority (ca_host t) (ca_port t))"

definition https_authority :: "connect_authority \<Rightarrow> string" where
  "https_authority t = format_url_authority (ca_host t) (ca_port t)"

definition parse_request_url :: "ext_lib \<Rightarrow> string \<Rightarrow> url parsed" where
  "parse_request_url L raw = ok_or (400, InvalidUrl raw) (url_parse L raw)"

definition parse_absolute_url :: "ext_lib \<Rightarrow> string \<Rightarrow> url parsed" where
  "parse_absolute_url L raw_uri =
     (if \<not> (starts_with raw_uri ''http://'' \<or> starts_with raw_uri ''https://'') then Err (404, UnknownRoute)
      else ok_or (400, InvalidUrl raw_uri) (url_parse L raw_uri))"

definition parse_connect_authority :: "('h, 'b, 'j) entry_env \<Rightarrow> string \<Rightarrow> connect_authority parsed" where
  "parse_connect_authority N raw_uri =
     bind_r (ok_or (400, InvalidAuthority raw_uri) (ee_authority_parse N raw_uri)) (\<lambda>a.
     case au_port_u16 a of
       None \<Rightarrow> Err (400, MissingConnectPort raw_uri)
     | Some port \<Rightarrow>
         Ok \<lparr>ca_authority = au_as_str a,
             ca_host = trim_end_matches CHR '']'' (trim_start_matches CHR ''['' (au_host a)), ca_port = port\<rparr>)"

definition validate_connect_target_url :: "connect_authority \<Rightarrow> url \<Rightarrow> unit parsed" where
  "validate_connect_target_url connect_target u =
     bind_r (ensure_r (url_scheme u = ''https'') (400, ConnectNotHttps u)) (\<lambda>_.
     bind_r (ok_or (400, ConnectMissingHost u) (url_host_str u)) (\<lambda>host.
     bind_r (ok_or (400, ConnectMissingPort u) (url_port_or_known_default u)) (\<lambda>port.
     if host \<noteq> ca_host connect_target \<or> port \<noteq> ca_port connect_target
     then Err (400, ConnectMismatch u (ca_authority connect_target)) else Ok ())))"

definition resolve_explicit_https_target :: "ext_lib \<Rightarrow> connect_authority \<Rightarrow> uri \<Rightarrow> url parsed" where
  "resolve_explicit_https_target L connect_target uri =
     (case parse_absolute_url L (uri_to_string uri) of
        Inr u \<Rightarrow> bind_r (validate_connect_target_url connect_target u) (\<lambda>_. Ok u)
      | Inl _ \<Rightarrow>
          parse_request_url L (''https://'' @ https_authority connect_target
            @ unwrap_or ''/'' (uri_path_and_query uri)))"

definition read_optional_header :: "('h, 'b, 'j) gateway_env \<Rightarrow> 'h \<Rightarrow> string \<Rightarrow> string option parsed" where
  "read_optional_header G headers name =
     (case ge_headers_get G headers name of
        None \<Rightarrow> Ok None
      | Some value \<Rightarrow> bind_r (ok_or (400, InvalidHeaderValue name) (ge_value_to_str G value)) (\<lambda>v. Ok (Some v)))"

definition read_required_host :: "('h, 'b, 'j) gateway_env \<Rightarrow> 'h \<Rightarrow> string parsed" where
  "read_required_host G headers =
     bind_r (read_optional_header G headers HOST) (\<lambda>host.
     case host of Some host \<Rightarrow> Ok host | None \<Rightarrow> Err (400, HostHeaderRequired))"

definition normalize_original_scheme :: "string \<Rightarrow> string parsed" where
  "normalize_original_scheme raw =
     (if raw = ''http'' \<or> raw = ''https'' then Ok raw else Err (400, UnsupportedScheme raw))"

definition resolve_transparent_target :: "('h, 'b, 'j) gateway_env \<Rightarrow> 'h \<Rightarrow> uri \<Rightarrow> url parsed" where
  "resolve_transparent_target G headers uri =
     bind_r (read_optional_header G headers ORIGINAL_URL_HEADER) (\<lambda>original_url.
     case original_url of
       Some original_url \<Rightarrow> parse_request_url (ge_lib G) original_url
     | None \<Rightarrow>
        (case parse_absolute_url (ge_lib G) (uri_to_string uri) of
           Inr u \<Rightarrow> Ok u
         | Inl _ \<Rightarrow>
             bind_r (read_required_host G headers) (\<lambda>host.
             bind_r (read_optional_header G headers ORIGINAL_SCHEME_HEADER) (\<lambda>scheme.
             bind_r (case scheme of Some scheme \<Rightarrow> normalize_original_scheme scheme | None \<Rightarrow> Ok ''http'') (\<lambda>scheme.
             parse_request_url (ge_lib G) (scheme @ ''://'' @ host @ unwrap_or ''/'' (uri_path_and_query uri)))))))"

section \<open>Handlers\<close>

record ('h, 'b) request =
  rq_method :: string
  rq_uri :: uri
  rq_headers :: 'h
  rq_body :: 'b
  rq_tls_intercepted :: bool

text \<open>What an entry point does: answer, or accept a CONNECT with an empty 200 response and spawn its tunnel.\<close>

datatype ('h, 'b) entry_result =
    Answered "('h, 'b) gateway_result"
  | Tunnelled connect_authority

definition json_err :: "u16 \<times> gateway_message \<Rightarrow> ('h, 'b) gateway_result" where
  "json_err e = Ok (JsonError (fst e) (snd e))"

definition reject_connect_request :: "('h, 'b) request \<Rightarrow> string \<Rightarrow> (u16 \<times> gateway_message) option" where
  "reject_connect_request request message =
     (if rq_method request = ''CONNECT'' then Some (501, ConnectUnsupported message) else None)"

definition forward_standard_request ::
  "('h, 'b, 'j) gateway_env \<Rightarrow> ('h, 'j) app_state \<Rightarrow> ('h, 'b) request \<Rightarrow> url \<Rightarrow> string \<Rightarrow> ('h, 'b) gateway_result" where
  "forward_standard_request G st request original source =
     forward_request G st (rq_method request) (rq_headers request) (rq_body request) original (Some source)"

definition forward_explicit_request ::
  "('h, 'b, 'j) gateway_env \<Rightarrow> ('h, 'j) app_state \<Rightarrow> ('h, 'b) request \<Rightarrow> string \<Rightarrow> (('h, 'b) request \<Rightarrow> url parsed) \<Rightarrow>
     ('h, 'b) gateway_result" where
  "forward_explicit_request G st request source parse_original =
     (case parse_original request of
        Inl response \<Rightarrow> json_err response
      | Inr original \<Rightarrow> forward_standard_request G st request original source)"

definition fetch_url ::
  "('h, 'b, 'j) gateway_env \<Rightarrow> ('h, 'j) app_state \<Rightarrow> string \<Rightarrow> ('h, 'b) request \<Rightarrow> ('h, 'b) gateway_result" where
  "fetch_url G st query_url request =
     (case parse_request_url (ge_lib G) query_url of
        Inl response \<Rightarrow> json_err response
      | Inr original \<Rightarrow> forward_standard_request G st request original ''fetch'')"

record rewrite_response =
  rw_original :: string
  rw_rewritten :: "string option"
  rw_action :: string
  rw_kind :: string

definition rewrite_url :: "('h, 'b, 'j) gateway_env \<Rightarrow> ('h, 'j) app_state \<Rightarrow> string \<Rightarrow> rewrite_response parsed" where
  "rewrite_url G st query_url =
     bind_r (parse_request_url (ge_lib G) query_url) (\<lambda>original.
     case resolve (ge_lib G) (live_snapshot (as_rules st)) original of
       Some matched \<Rightarrow>
         Ok \<lparr>rw_original = url_as_str original,
             rw_rewritten = map_option (\<lambda>up. url_as_str (up_url up)) (resolved_upstream (mr_action matched)),
             rw_action = rule_action_name matched, rw_kind = rule_kind_name matched\<rparr>
     | None \<Rightarrow> Err (404, NoMatchingRule))"

record rule_explain_response =
  rx_original :: string
  rx_priority_groups :: "rule_explain_priority_group list"
  rx_final_match :: "rule_explain_winner option"

definition explain_rules :: "('h, 'b, 'j) gateway_env \<Rightarrow> ('h, 'j) app_state \<Rightarrow> string \<Rightarrow> rule_explain_response parsed" where
  "explain_rules G st query_url =
     bind_r (parse_request_url (ge_lib G) query_url) (\<lambda>original.
     let explanation = explain (ge_lib G) (live_snapshot (as_rules st)) original
     in if ret_priority_groups explanation = [] then Err (404, NoCandidateRules)
        else Ok \<lparr>rx_original = url_as_str original, rx_priority_groups = ret_priority_groups explanation,
                 rx_final_match = ret_final_match explanation\<rparr>)"

definition transparent_entry ::
  "('h, 'b, 'j) gateway_env \<Rightarrow> ('h, 'j) app_state \<Rightarrow> ('h, 'b) request \<Rightarrow> ('h, 'b) gateway_result" where
  "transparent_entry G st request =
     (case reject_connect_request request ''transparent HTTPS interception is not enabled in this build'' of
        Some response \<Rightarrow> json_err response
      | None \<Rightarrow>
          (let scheme = (if rq_tls_intercepted request then ''https'' else ''http'');
               headers = (if ge_headers_get G (rq_headers request) ORIGINAL_SCHEME_HEADER = None
                          then ge_headers_insert G ORIGINAL_SCHEME_HEADER scheme (rq_headers request)
                          else rq_headers request)
           in case resolve_transparent_target G headers (rq_uri request) of
                Inl response \<Rightarrow> json_err response
              | Inr original \<Rightarrow>
                  forward_transparent_request G st (rq_method request) headers (rq_body request) original))"

definition handle_explicit_connect_https_request ::
  "('h, 'b, 'j) gateway_env \<Rightarrow> ('h, 'j) app_state \<Rightarrow> connect_authority \<Rightarrow> ('h, 'b) request \<Rightarrow> ('h, 'b) gateway_result" where
  "handle_explicit_connect_https_request G st connect_target request =
     (case resolve_explicit_https_target (ge_lib G) connect_target (rq_uri request) of
        Inl response \<Rightarrow> json_err response
      | Inr original \<Rightarrow>
          bind_r (ok_or (PanicHeaderValue (host_header connect_target)) (ge_header_value G (host_header connect_target))) (\<lambda>host.
          forward_intercepted_request G st (rq_method request) (ge_headers_insert G HOST host (rq_headers request))
            (rq_body request) original ''explicit-https''))"

definition handle_connect :: "('h, 'b, 'j) entry_env \<Rightarrow> ('h, 'b) request \<Rightarrow> ('h, 'b) entry_result" where
  "handle_connect N request =
     (case parse_connect_authority N (uri_to_string (rq_uri request)) of
        Inl response \<Rightarrow> Answered (json_err response)
      | Inr connect_target \<Rightarrow> Tunnelled connect_target)"

definition proxy_entry ::
  "('h, 'b, 'j) entry_env \<Rightarrow> ('h, 'j) app_state \<Rightarrow> ('h, 'b) request \<Rightarrow> ('h, 'b) entry_result" where
  "proxy_entry N st request =
     (if rq_method request = ''CONNECT'' then handle_connect N request
      else Answered (forward_explicit_request (ee_gateway N) st request ''proxy''
             (\<lambda>request. parse_absolute_url (ge_lib (ee_gateway N)) (uri_to_string (rq_uri request)))))"

section \<open>CONNECT tunnels (handlers/proxy_entry.rs)\<close>

definition TLS_HANDSHAKE_RECORD_TYPE :: u8 where "TLS_HANDSHAKE_RECORD_TYPE = 0x16"
definition TLS_LEGACY_VERSION_MAJOR :: u8 where "TLS_LEGACY_VERSION_MAJOR = 0x03"
definition CONNECT_PEEK_BYTES :: nat where "CONNECT_PEEK_BYTES = 2"

definition looks_like_tls_client_hello :: "u8 list \<Rightarrow> bool" where
  "looks_like_tls_client_hello pre =
     (case pre of
        [] \<Rightarrow> False
      | [a] \<Rightarrow> a = TLS_HANDSHAKE_RECORD_TYPE
      | a # b # _ \<Rightarrow> a = TLS_HANDSHAKE_RECORD_TYPE \<and> b = TLS_LEGACY_VERSION_MAJOR)"

text \<open>The loop of \<^verbatim>\<open>sniff_connect_stream\<close>; the buffer up to \<^verbatim>\<open>bytes_read\<close> is the list of the bytes read.\<close>

function sniff_loop :: "u8 list \<Rightarrow> stream \<Rightarrow> (unit, u8 list \<times> stream) result" where
  "sniff_loop buf s =
     (if length buf < CONNECT_PEEK_BYTES
      then (case stream_read (CONNECT_PEEK_BYTES - length buf) s of
              Inl e \<Rightarrow> Err e
            | Inr (bs, s') \<Rightarrow> if bs = [] then Ok (buf, s') else sniff_loop (buf @ bs) s')
      else Ok (buf, s))"
  by pat_completeness auto

termination
  by (relation "measure (\<lambda>(buf, _). CONNECT_PEEK_BYTES - length buf)") (auto simp: neq_Nil_conv)

declare sniff_loop.simps [simp del]

definition sniff_connect_stream :: "stream \<Rightarrow> (unit, stream \<times> u8 list \<times> bool) result" where
  "sniff_connect_stream s =
     bind_r (sniff_loop [] s) (\<lambda>(pre, s). Ok (s, pre, looks_like_tls_client_hello pre))"

record prefixed_io =
  pio_inner :: stream
  pio_prefix :: "u8 list"
  pio_offset :: nat

definition prefixed_io_new :: "stream \<Rightarrow> u8 list \<Rightarrow> prefixed_io" where
  "prefixed_io_new inner pre = \<lparr>pio_inner = inner, pio_prefix = pre, pio_offset = 0\<rparr>"

definition prefixed_poll_read :: "nat \<Rightarrow> prefixed_io \<Rightarrow> (unit, u8 list \<times> prefixed_io) result" where
  "prefixed_poll_read remaining p =
     (if pio_offset p < length (pio_prefix p) \<and> remaining > 0
      then (let rest = drop (pio_offset p) (pio_prefix p);
                to_copy = min (length rest) remaining
            in Ok (take to_copy rest, p\<lparr>pio_offset := pio_offset p + to_copy\<rparr>))
      else bind_r (stream_read remaining (pio_inner p)) (\<lambda>(bs, s). Ok (bs, p\<lparr>pio_inner := s\<rparr>)))"

text \<open>Where an upgraded connection goes: into the TLS interception for a host, or to its target as it is.\<close>

datatype connect_route =
    InterceptTls prefixed_io string
  | PlainTunnel string "u8 list" stream

definition handle_upgraded_connect :: "connect_authority \<Rightarrow> stream \<Rightarrow> (unit, connect_route) result" where
  "handle_upgraded_connect connect_target upgraded =
     bind_r (sniff_connect_stream upgraded) (\<lambda>(upgraded, pre, is_tls).
     if is_tls then Ok (InterceptTls (prefixed_io_new upgraded pre) (ca_host connect_target))
     else Ok (PlainTunnel (ca_authority connect_target) pre upgraded))"

section \<open>Entry points answer\<close>

text \<open>What a running gateway rests on: compiled rules and a registry that was built.\<close>

definition gateway_started :: "('h, 'b, 'j) gateway_env \<Rightarrow> ('h, 'j) app_state \<Rightarrow> bool" where
  "gateway_started G st \<longleftrightarrow>
     (\<exists>rs. live_snapshot (as_rules st) = rule_set_new rs \<and> (\<forall>r \<in> set rs. rule_wf r))
     \<and> (\<exists>options (rules :: 'h rule_set). registry_build (ge_plugins G) options rules = Ok (live_registry_snapshot (as_plugins st)))"

lemma forward_answers:
  assumes "http_laws G" "url_reparse_law (ge_lib G)" "gateway_started G st" "\<exists>raw. url_parse (ge_lib G) raw = Some original" "graphic source"
  shows "answers G st (forward_request G st method hs body original source)"
  using assms unfolding gateway_started_def by (metis forward_request_answers)

lemma json_err_answers [simp]: "answers G st (json_err e)"
  by (simp add: json_err_def)

lemma parsed_url:
  "parse_request_url L raw = Ok u \<Longrightarrow> \<exists>raw. url_parse L raw = Some u"
  "parse_absolute_url L raw = Ok u \<Longrightarrow> \<exists>raw. url_parse L raw = Some u"
  "resolve_transparent_target G hs uri = Ok u \<Longrightarrow> \<exists>raw. url_parse (ge_lib G) raw = Some u"
  by (auto simp: parse_request_url_def parse_absolute_url_def resolve_transparent_target_def result_simps
      split: if_splits option.splits sum.splits)

lemma source_graphic: "graphic (Some ''proxy'')" "graphic (Some ''fetch'')" "graphic (Some ''transparent'')"
  by (simp_all add: ascii_graphic_def)

lemma entries_answer:
  assumes "http_laws G" "url_reparse_law (ge_lib G)" "gateway_started G st"
  shows "answers G st (transparent_entry G st request)" "answers G st (fetch_url G st query request)"
    "answers G st (forward_explicit_request G st request ''proxy'' (\<lambda>r. parse_absolute_url (ge_lib G) (uri_to_string (rq_uri r))))"
proof -
  note fwd = forward_answers [OF assms _ source_graphic(1)] forward_answers [OF assms _ source_graphic(2)] forward_answers [OF assms _ source_graphic(3)]
  show "answers G st (transparent_entry G st request)"
    by (auto simp: transparent_entry_def Let_def forward_transparent_request_def forward_intercepted_eq
        split: option.split sum.split intro!: fwd(3) dest: parsed_url(3))
  show "answers G st (fetch_url G st query request)"
    by (auto simp: fetch_url_def forward_standard_request_def split: sum.split intro!: fwd(2) dest: parsed_url(1))
  show "answers G st (forward_explicit_request G st request ''proxy'' (\<lambda>r. parse_absolute_url (ge_lib G) (uri_to_string (rq_uri r))))"
    by (auto simp: forward_explicit_request_def forward_standard_request_def split: sum.split intro!: fwd(1) dest: parsed_url(2))
qed

section \<open>Tunnels lose nothing\<close>

lemma sniff_loop_total:
  assumes "stream_ok s" "length buf \<le> CONNECT_PEEK_BYTES"
  obtains s' where "sniff_loop buf s = Ok (take CONNECT_PEEK_BYTES (buf @ stream_bytes s), s')"
    "stream_ok s'" "take CONNECT_PEEK_BYTES (buf @ stream_bytes s) @ stream_bytes s' = buf @ stream_bytes s"
  using assms
proof (induction buf s arbitrary: thesis rule: sniff_loop.induct)
  case (1 buf s)
  show ?case
  proof (cases "length buf < CONNECT_PEEK_BYTES")
    case True
    obtain bs s' where r: "stream_read (CONNECT_PEEK_BYTES - length buf) s = Ok (bs, s')" "stream_bytes s = bs @ stream_bytes s'"
      "stream_ok s'" "length bs \<le> CONNECT_PEEK_BYTES - length buf" "bs = [] \<longleftrightarrow> stream_bytes s = []"
      using stream_read_total [OF "1.prems"(2), of "CONNECT_PEEK_BYTES - length buf"] True by auto
    show ?thesis
    proof (cases "bs = []")
      case True
      then have "stream_bytes s = []" using r(5) by blast
      moreover from this have "stream_bytes s' = []" unfolding r(2) append_is_Nil_conv ..
      ultimately have e: "stream_bytes s = []" "stream_bytes s' = []" .
      have "sniff_loop buf s = Ok (buf, s')"
        by (subst sniff_loop.simps) (simp add: r(1) True \<open>length buf < CONNECT_PEEK_BYTES\<close>)
      then show ?thesis using "1.prems"(1) [of s'] r(3) "1.prems"(3) by (simp add: e)
    next
      case False
      have "length (buf @ bs) \<le> CONNECT_PEEK_BYTES" using r(4) True by simp
      from "1.IH" [OF True r(1) refl False _ r(3) this] obtain s'' where s'':
        "sniff_loop (buf @ bs) s' = Ok (take CONNECT_PEEK_BYTES ((buf @ bs) @ stream_bytes s'), s'')" "stream_ok s''"
        "take CONNECT_PEEK_BYTES ((buf @ bs) @ stream_bytes s') @ stream_bytes s'' = (buf @ bs) @ stream_bytes s'" by metis
      have "sniff_loop buf s = sniff_loop (buf @ bs) s'" by (subst sniff_loop.simps) (simp add: r(1) True False)
      with s'' show ?thesis using "1.prems"(1) [of s''] r(2) by simp
    qed
  next
    case False
    then have "sniff_loop buf s = Ok (buf, s)" by (subst sniff_loop.simps) simp
    then show ?thesis using "1.prems" False by simp
  qed
qed

text \<open>What is still to be read through the prefix, and a run of reads with the given buffer sizes.\<close>

definition prefixed_bytes :: "prefixed_io \<Rightarrow> u8 list" where
  "prefixed_bytes p = drop (pio_offset p) (pio_prefix p) @ stream_bytes (pio_inner p)"

fun prefixed_reads :: "nat list \<Rightarrow> prefixed_io \<Rightarrow> (unit, u8 list \<times> prefixed_io) result" where
  "prefixed_reads [] p = Ok ([], p)"
| "prefixed_reads (n # ns) p =
     bind_r (prefixed_poll_read n p) (\<lambda>(bs, p). bind_r (prefixed_reads ns p) (\<lambda>(rest, p). Ok (bs @ rest, p)))"

lemma prefixed_read_total:
  assumes "stream_ok (pio_inner p)" "0 < n"
  obtains bs p' where "prefixed_poll_read n p = Ok (bs, p')" "prefixed_bytes p = bs @ prefixed_bytes p'"
    "stream_ok (pio_inner p')" "bs = [] \<longleftrightarrow> prefixed_bytes p = []"
proof (cases "pio_offset p < length (pio_prefix p)")
  case True
  let ?rest = "drop (pio_offset p) (pio_prefix p)"
  let ?k = "min (length ?rest) n"
  have "take ?k ?rest @ drop (pio_offset p + ?k) (pio_prefix p) = ?rest"
    using append_take_drop_id [of ?k ?rest] by (simp add: add.commute)
  then show thesis
    using that [of "take ?k ?rest" "p\<lparr>pio_offset := pio_offset p + ?k\<rparr>"] True assms
    by (simp add: prefixed_poll_read_def prefixed_bytes_def Let_def)
next
  case False
  obtain bs s' where "stream_read n (pio_inner p) = Ok (bs, s')" "stream_bytes (pio_inner p) = bs @ stream_bytes s'"
    "stream_ok s'" "bs = [] \<longleftrightarrow> stream_bytes (pio_inner p) = []" using stream_read_total [OF assms] by metis
  then show thesis using that [of bs "p\<lparr>pio_inner := s'\<rparr>"] False
    by (simp add: prefixed_poll_read_def prefixed_bytes_def)
qed

lemma prefixed_reads_all:
  assumes "stream_ok (pio_inner p)" "list_all (\<lambda>n. 0 < n) ns" "length (prefixed_bytes p) \<le> length ns"
  shows "\<exists>p'. prefixed_reads ns p = Ok (prefixed_bytes p, p')"
  using assms
proof (induction ns arbitrary: p)
  case (Cons n ns)
  obtain bs q where q: "prefixed_poll_read n p = Ok (bs, q)" "prefixed_bytes p = bs @ prefixed_bytes q"
    "stream_ok (pio_inner q)" "bs = [] \<longleftrightarrow> prefixed_bytes p = []"
    using prefixed_read_total [OF Cons.prems(1), of n] Cons.prems(2) by auto
  have "length (prefixed_bytes q) \<le> length ns"
    using Cons.prems(3) q(2,4) by (cases bs) auto
  then obtain p' where "prefixed_reads ns q = Ok (prefixed_bytes q, p')" using Cons.IH [OF q(3)] Cons.prems(2) by auto
  then show ?case using q by simp
qed simp

section \<open>Properties\<close>



text \<open>
  The host of a CONNECT target has no brackets, the host of an IPv6 URL has them: an absolute request URI for an
  IPv6 host inside a tunnel is rejected as not matching the target, whatever the target.
\<close>

lemma ipv6_absolute_uri_rejected:
  assumes "parse_connect_authority N raw = Ok t" "url_scheme u = ''https''" "url_host_str u = Some (CHR ''['' # h)"
    "url_port_or_known_default u = Some port"
  shows "validate_connect_target_url t u = Err (400, ConnectMismatch u (ca_authority t))"
proof -
  from assms(1) obtain a where t: "ca_host t = trim_end_matches CHR '']'' (trim_start_matches CHR ''['' a)"
    by (auto simp: parse_connect_authority_def bind_r_Ok_iff split: option.splits)
  have "ca_host t \<noteq> CHR ''['' # h"
    using prefix_trim_end_matches [of "CHR '']''" "trim_start_matches CHR ''['' a"] trim_start_matches_hd [of "CHR ''[''" a]
    unfolding t by (auto simp: prefix_def)
  then show ?thesis using assms by (auto simp: validate_connect_target_url_def)
qed

end
