(* ===== verification/Reload.thy ===== *)
theory Reload
  imports Config
begin

text \<open>
  Hot reload: the config watch of \<^verbatim>\<open>src/src/watch.rs\<close> and the runtime loops of
  \<^verbatim>\<open>src/src/gateway/runtime.rs\<close> with the supervisors of \<^verbatim>\<open>src/src/supervisors/\<close>. A component
  handle is what the component was started with; whether a start succeeds (binding sockets, opening
  devices, building plugins) is a function of what is started. Ports are 16 bit wide and wrap as in a release build.
  Observability events and snapshots are added in \<open>Server\<close>; log lines are left out.
\<close>

section \<open>The config watch (watch.rs)\<close>

definition CONFIG_WATCH_STABLE_WINDOW :: duration where "CONFIG_WATCH_STABLE_WINDOW = secs 1"

definition U64_MAX :: nat where "U64_MAX = 2 ^ 64 - 1"

record 'j static_config_snapshot =
  sc_listen_addr :: socket_addr
  sc_tls_port :: "u16 option"
  sc_backend :: backend_options
  sc_plugins :: "'j plugin_runtime_options"

record ('h, 'j) config_reload_request =
  crr_generation :: nat
  crr_config :: "('h, 'j) app_config"

definition from_config :: "('h, 'j) app_config \<Rightarrow> 'j static_config_snapshot" where
  "from_config config = \<lparr>sc_listen_addr = ac_listen_addr config, sc_tls_port = ac_tls_port config,
     sc_backend = ac_backend config, sc_plugins = ac_plugins config\<rparr>"

datatype runtime_change = ListenChanged | TlsPortChanged | BackendChanged | PluginsChanged

definition describe_non_reloadable_changes ::
  "'j static_config_snapshot \<Rightarrow> ('h, 'j) app_config \<Rightarrow> runtime_change list" where
  "describe_non_reloadable_changes s config =
     (if ac_listen_addr config \<noteq> sc_listen_addr s then [ListenChanged] else [])
     @ (if ac_tls_port config \<noteq> sc_tls_port s then [TlsPortChanged] else [])
     @ (if ac_backend config \<noteq> sc_backend s then [BackendChanged] else [])
     @ (if ac_plugins config \<noteq> sc_plugins s then [PluginsChanged] else [])"

definition modified_time_is_stable :: "system_time \<Rightarrow> system_time \<Rightarrow> duration \<Rightarrow> bool" where
  "modified_time_is_stable now modified_time stable_window \<longleftrightarrow>
     modified_time \<le> now \<and> now - modified_time \<ge> stable_window"

text \<open>The variables of the watch task, with the live rules it replaces and the requests waiting in the channel.\<close>

record ('h, 'j) watch_state =
  ws_static_config :: "'j static_config_snapshot"
  ws_next_generation :: nat
  ws_last_processed_modified :: "system_time option"
  ws_pending_modified :: "system_time option"
  ws_live_rules :: "'h live_rule_set"
  ws_channel :: "('h, 'j) config_reload_request list"

definition spawn_config_watch ::
  "('h, 'j) app_config \<Rightarrow> 'h live_rule_set \<Rightarrow> system_time option \<Rightarrow> ('h, 'j) watch_state" where
  "spawn_config_watch active_config live_rules stat =
     \<lparr>ws_static_config = from_config active_config, ws_next_generation = 1, ws_last_processed_modified = stat,
      ws_pending_modified = None, ws_live_rules = live_rules, ws_channel = []\<rparr>"

text \<open>
  What a reloaded configuration changes: the live rules, and, when there is a channel with a
  receiver (\<open>receiving\<close>), the channel and the generation.
\<close>

definition watch_apply ::
  "bool \<Rightarrow> ('h, 'j) app_config \<Rightarrow> ('h, 'j) watch_state \<Rightarrow> ('h, 'j) watch_state" where
  "watch_apply receiving reloaded_config w =
     (let w = w\<lparr>ws_live_rules := snd (live_replace (ac_rules reloaded_config) (ws_live_rules w))\<rparr>
      in if receiving
         then w\<lparr>ws_channel := ws_channel w @ [\<lparr>crr_generation = ws_next_generation w, crr_config = reloaded_config\<rparr>],
                ws_static_config := from_config reloaded_config,
                ws_next_generation := min U64_MAX (ws_next_generation w + 1)\<rparr>
         else w)"

text \<open>One tick: the result of \<^verbatim>\<open>stat\<close>, the time and what loading the file would give are arguments.\<close>

definition watch_tick ::
  "bool \<Rightarrow> system_time option \<Rightarrow> system_time \<Rightarrow> (config_error, ('h, 'j) app_config) result \<Rightarrow>
     ('h, 'j) watch_state \<Rightarrow> ('h, 'j) watch_state" where
  "watch_tick receiving stat now loaded w =
     (case stat of
        None \<Rightarrow> w
      | Some modified_time \<Rightarrow>
          if (case ws_last_processed_modified w of Some previous \<Rightarrow> modified_time \<le> previous | None \<Rightarrow> False) then w
          else if ws_pending_modified w \<noteq> Some modified_time then w\<lparr>ws_pending_modified := Some modified_time\<rparr>
          else if \<not> modified_time_is_stable now modified_time CONFIG_WATCH_STABLE_WINDOW then w
          else (case loaded of Inr config \<Rightarrow> watch_apply receiving config w | Inl _ \<Rightarrow> w)
                 \<lparr>ws_last_processed_modified := Some modified_time, ws_pending_modified := None\<rparr>)"

section \<open>Components and the reload plan (runtime.rs)\<close>

record fake_dns_instance =
  fdi_options :: fake_dns_options
  fdi_runtime :: bool

record intercept_backend_runtime_config =
  ibc_listen_addr :: socket_addr
  ibc_tls_port :: "u16 option"
  ibc_backend :: backend_options
  ibc_fake_dns :: fake_dns_options

record ('h, 'j) supervisors =
  su_http :: "socket_addr \<Rightarrow> bool"
  su_tls :: "u16 \<Rightarrow> bool"
  su_dns_server :: "fake_dns_options \<Rightarrow> bool"
  su_dns_runtime :: "fake_dns_options \<Rightarrow> bool"
  su_intercept :: "intercept_backend_runtime_config \<Rightarrow> bool"
  su_plugins :: "'j plugin_runtime_options \<Rightarrow> 'h rule_set \<Rightarrow> bool"

datatype runtime_error = HttpFailed | TlsFailed | DnsFailed | InterceptFailed | PluginsFailed | DnsMissing

definition effective_tls_port :: "('h, 'j) app_config \<Rightarrow> u16" where
  "effective_tls_port config = unwrap_or (sock_port (ac_listen_addr config) + 1) (ac_tls_port config)"

definition should_start_fake_dns_runtime :: "backend_options \<Rightarrow> bool" where
  "should_start_fake_dns_runtime backend \<longleftrightarrow> \<not> (bo_kind backend = TunKind \<and> tbo_stack (bo_tun backend) = SmoltcpStack)"

text \<open>\<^verbatim>\<open>FakeDnsSupervisor::build\<close> and \<^verbatim>\<open>FakeDnsSupervisor::start\<close>.\<close>

definition dns_build :: "('h, 'j) supervisors \<Rightarrow> fake_dns_options \<Rightarrow> (runtime_error, fake_dns_instance) result" where
  "dns_build S options = bind_r (ensure_r (su_dns_server S options) DnsFailed) (\<lambda>_. Ok \<lparr>fdi_options = options, fdi_runtime = False\<rparr>)"

definition dns_start :: "('h, 'j) supervisors \<Rightarrow> fake_dns_options \<Rightarrow> (runtime_error, fake_dns_instance) result" where
  "dns_start S options =
     bind_r (ensure_r (su_dns_server S options) DnsFailed) (\<lambda>_.
     bind_r (ensure_r (su_dns_runtime S options) DnsFailed) (\<lambda>_. Ok \<lparr>fdi_options = options, fdi_runtime = True\<rparr>))"

definition start_fake_dns_instance ::
  "('h, 'j) supervisors \<Rightarrow> backend_options \<Rightarrow> (runtime_error, fake_dns_instance) result" where
  "start_fake_dns_instance S backend =
     (if should_start_fake_dns_runtime backend then dns_start S (bo_dns backend) else dns_build S (bo_dns backend))"

definition start_http :: "('h, 'j) supervisors \<Rightarrow> socket_addr \<Rightarrow> (runtime_error, socket_addr) result" where
  "start_http S addr = bind_r (ensure_r (su_http S addr) HttpFailed) (\<lambda>_. Ok addr)"

definition start_tls :: "('h, 'j) supervisors \<Rightarrow> u16 \<Rightarrow> (runtime_error, u16) result" where
  "start_tls S port = bind_r (ensure_r (su_tls S port) TlsFailed) (\<lambda>_. Ok port)"

definition start_intercept ::
  "('h, 'j) supervisors \<Rightarrow> ('h, 'j) app_config \<Rightarrow> fake_dns_options \<Rightarrow> (runtime_error, intercept_backend_runtime_config) result" where
  "start_intercept S config dns =
     (let c = \<lparr>ibc_listen_addr = ac_listen_addr config, ibc_tls_port = ac_tls_port config,
               ibc_backend = ac_backend config, ibc_fake_dns = dns\<rparr>
      in bind_r (ensure_r (su_intercept S c) InterceptFailed) (\<lambda>_. Ok c))"

record ('h, 'j) transparent_runtime_handles =
  tr_config :: "('h, 'j) app_config"
  tr_http :: "socket_addr option"
  tr_tls :: "u16 option"
  tr_dns :: "fake_dns_instance option"
  tr_intercept :: "intercept_backend_runtime_config option"

definition start_transparent_components ::
  "('h, 'j) supervisors \<Rightarrow> ('h, 'j) app_config \<Rightarrow> (runtime_error, ('h, 'j) transparent_runtime_handles) result" where
  "start_transparent_components S config =
     bind_r (start_fake_dns_instance S (ac_backend config)) (\<lambda>dns.
     bind_r (start_http S (ac_listen_addr config)) (\<lambda>http.
     let tls_port = effective_tls_port config
     in bind_r (start_tls S tls_port) (\<lambda>tls.
        bind_r (start_intercept S config (fdi_options dns)) (\<lambda>intercept.
        Ok \<lparr>tr_config = config, tr_http = Some http, tr_tls = Some tls, tr_dns = Some dns, tr_intercept = Some intercept\<rparr>))))"

record transparent_reload_plan =
  rp_restart_http :: bool
  rp_restart_tls :: bool
  rp_restart_dns :: bool
  rp_restart_intercept :: bool

definition from_configs :: "('h, 'j) app_config \<Rightarrow> ('h, 'j) app_config \<Rightarrow> transparent_reload_plan" where
  "from_configs current nxt =
     (let restart_http = (ac_listen_addr current \<noteq> ac_listen_addr nxt);
          current_tls_port = effective_tls_port current;
          next_tls_port = effective_tls_port nxt;
          restart_tls = (current_tls_port \<noteq> next_tls_port);
          restart_dns = (bo_dns (ac_backend current) \<noteq> bo_dns (ac_backend nxt));
          restart_intercept = (restart_dns \<or> ac_backend current \<noteq> ac_backend nxt
            \<or> ac_listen_addr current \<noteq> ac_listen_addr nxt \<or> current_tls_port \<noteq> next_tls_port)
      in \<lparr>rp_restart_http = restart_http, rp_restart_tls = restart_tls, rp_restart_dns = restart_dns,
          rp_restart_intercept = restart_intercept\<rparr>)"

text \<open>
  \<^verbatim>\<open>reload\<close> changes the handles as it goes and returns early on a failure. \<open>then_do\<close> is the
  question mark: it goes on only after success.
\<close>

type_synonym ('h, 'j) reloading = "(runtime_error, unit) result \<times> ('h, 'j) transparent_runtime_handles"

definition then_do ::
  "('h, 'j) reloading \<Rightarrow> (('h, 'j) transparent_runtime_handles \<Rightarrow> ('h, 'j) reloading) \<Rightarrow> ('h, 'j) reloading" where
  "then_do r f = (case r of (Inl e, rt) \<Rightarrow> (Inl e, rt) | (Inr _, rt) \<Rightarrow> f rt)"

definition reload_dns :: "('h, 'j) supervisors \<Rightarrow> ('h, 'j) app_config \<Rightarrow> ('h, 'j) transparent_runtime_handles \<Rightarrow> ('h, 'j) reloading" where
  "reload_dns S next_config rt =
     (case start_fake_dns_instance S (ac_backend next_config) of
        Inl e \<Rightarrow> (Err e, rt\<lparr>tr_dns := None\<rparr>)
      | Inr dns \<Rightarrow> (Ok (), rt\<lparr>tr_dns := Some dns\<rparr>))"

definition reload_http :: "('h, 'j) supervisors \<Rightarrow> ('h, 'j) app_config \<Rightarrow> ('h, 'j) transparent_runtime_handles \<Rightarrow> ('h, 'j) reloading" where
  "reload_http S next_config rt =
     (case start_http S (ac_listen_addr next_config) of
        Inl e \<Rightarrow> (Err e, rt\<lparr>tr_http := None\<rparr>)
      | Inr http \<Rightarrow> (Ok (), rt\<lparr>tr_http := Some http\<rparr>))"

definition reload_tls :: "('h, 'j) supervisors \<Rightarrow> ('h, 'j) app_config \<Rightarrow> ('h, 'j) transparent_runtime_handles \<Rightarrow> ('h, 'j) reloading" where
  "reload_tls S next_config rt =
     (case start_tls S (effective_tls_port next_config) of
        Inl e \<Rightarrow> (Err e, rt\<lparr>tr_tls := None\<rparr>)
      | Inr tls \<Rightarrow> (Ok (), rt\<lparr>tr_tls := Some tls\<rparr>))"

definition reload_intercept :: "('h, 'j) supervisors \<Rightarrow> ('h, 'j) app_config \<Rightarrow> ('h, 'j) transparent_runtime_handles \<Rightarrow> ('h, 'j) reloading" where
  "reload_intercept S next_config rt =
     (case tr_dns rt of
        None \<Rightarrow> (Err DnsMissing, rt)
      | Some dns \<Rightarrow>
          (case start_intercept S next_config (fdi_options dns) of
             Inl e \<Rightarrow> (Err e, rt)
           | Inr intercept \<Rightarrow> (Ok (), rt\<lparr>tr_intercept := Some intercept\<rparr>)))"

definition reload :: "('h, 'j) supervisors \<Rightarrow> ('h, 'j) app_config \<Rightarrow> ('h, 'j) transparent_runtime_handles \<Rightarrow> ('h, 'j) reloading" where
  "reload S next_config rt =
     (let plan = from_configs (tr_config rt) next_config;
          rt = (if rp_restart_intercept plan then rt\<lparr>tr_intercept := None\<rparr> else rt)
      in then_do (if rp_restart_dns plan then reload_dns S next_config rt else (Ok (), rt)) (\<lambda>rt.
         then_do (if rp_restart_http plan then reload_http S next_config rt else (Ok (), rt)) (\<lambda>rt.
         then_do (if rp_restart_tls plan then reload_tls S next_config rt else (Ok (), rt)) (\<lambda>rt.
         then_do (if rp_restart_intercept plan then reload_intercept S next_config rt else (Ok (), rt)) (\<lambda>rt.
         (Ok (), rt\<lparr>tr_config := next_config\<rparr>))))))"

text \<open>Everything is taken out of the handles and stopped.\<close>

definition shutdown :: "('h, 'j) transparent_runtime_handles \<Rightarrow> ('h, 'j) transparent_runtime_handles" where
  "shutdown rt = rt\<lparr>tr_intercept := None, tr_dns := None, tr_http := None, tr_tls := None\<rparr>"

fun take_latest_reload_request ::
  "('h, 'j) config_reload_request \<Rightarrow> ('h, 'j) config_reload_request list \<Rightarrow> nat \<Rightarrow> ('h, 'j) config_reload_request \<times> nat" where
  "take_latest_reload_request latest [] skipped = (latest, skipped)"
| "take_latest_reload_request latest (r # rs) skipped = take_latest_reload_request r rs (skipped + 1)"

section \<open>The runtime loops\<close>

text \<open>The state of \<^verbatim>\<open>serve_transparent\<close> beside the watch: its variables and what the plugin registry was built from.\<close>

record ('h, 'j) serve_state =
  se_runtime :: "('h, 'j) transparent_runtime_handles"
  se_active_generation :: nat
  se_active_config :: "('h, 'j) app_config"
  se_plugins :: "'j plugin_runtime_options \<times> 'h rule_set"
  se_exit :: "(runtime_error, unit) result option"

definition serve_transparent_start ::
  "('h, 'j) supervisors \<Rightarrow> ('h, 'j) app_config \<Rightarrow> (runtime_error, ('h, 'j) serve_state) result" where
  "serve_transparent_start S config =
     bind_r (ensure_r (su_plugins S (ac_plugins config) (ac_rules config)) PluginsFailed) (\<lambda>_.
     bind_r (start_transparent_components S config) (\<lambda>runtime.
     Ok \<lparr>se_runtime = runtime, se_active_generation = 0, se_active_config = config,
         se_plugins = (ac_plugins config, ac_rules config), se_exit = None\<rparr>))"

text \<open>The branch of the loop that receives a request; \<open>channel\<close> is not empty and is drained.\<close>

definition serve_transparent_reload ::
  "('h, 'j) supervisors \<Rightarrow> 'h live_rule_set \<Rightarrow> ('h, 'j) config_reload_request \<Rightarrow> ('h, 'j) config_reload_request list \<Rightarrow>
     ('h, 'j) serve_state \<Rightarrow> ('h, 'j) serve_state" where
  "serve_transparent_reload S live first channel s =
     (let (request, skipped) = take_latest_reload_request first channel 0
      in if crr_generation request \<le> se_active_generation s then s
         else
           (let generation = crr_generation request;
                reloaded_config = crr_config request
            in if \<not> su_plugins S (ac_plugins reloaded_config) (live_snapshot live)
               then s\<lparr>se_exit := Some (Err PluginsFailed)\<rparr>
               else
                 (let s = s\<lparr>se_plugins := (ac_plugins reloaded_config, live_snapshot live)\<rparr>
                  in case reload S reloaded_config (se_runtime s) of
                       (Inl e, rt) \<Rightarrow> s\<lparr>se_runtime := rt, se_exit := Some (Err e)\<rparr>
                     | (Inr _, rt) \<Rightarrow> s\<lparr>se_runtime := rt, se_active_generation := generation,
                                       se_active_config := reloaded_config\<rparr>)))"

definition serve_transparent_shutdown :: "('h, 'j) serve_state \<Rightarrow> ('h, 'j) serve_state" where
  "serve_transparent_shutdown s = s\<lparr>se_runtime := shutdown (se_runtime s), se_exit := Some (Ok ())\<rparr>"

text \<open>\<^verbatim>\<open>serve_explicit\<close> has only the HTTP listener: its address is the state beside the loop variables.\<close>

record ('h, 'j) explicit_state =
  ex_http :: "socket_addr option"
  ex_active_generation :: nat
  ex_active_config :: "('h, 'j) app_config"
  ex_plugins :: "'j plugin_runtime_options \<times> 'h rule_set"
  ex_exit :: "(runtime_error, unit) result option"

definition serve_explicit_start ::
  "('h, 'j) supervisors \<Rightarrow> ('h, 'j) app_config \<Rightarrow> (runtime_error, ('h, 'j) explicit_state) result" where
  "serve_explicit_start S config =
     bind_r (ensure_r (su_plugins S (ac_plugins config) (ac_rules config)) PluginsFailed) (\<lambda>_.
     bind_r (start_http S (ac_listen_addr config)) (\<lambda>http.
     Ok \<lparr>ex_http = Some http, ex_active_generation = 0, ex_active_config = config,
         ex_plugins = (ac_plugins config, ac_rules config), ex_exit = None\<rparr>))"

definition serve_explicit_reload ::
  "('h, 'j) supervisors \<Rightarrow> 'h live_rule_set \<Rightarrow> ('h, 'j) config_reload_request \<Rightarrow> ('h, 'j) config_reload_request list \<Rightarrow>
     ('h, 'j) explicit_state \<Rightarrow> ('h, 'j) explicit_state" where
  "serve_explicit_reload S live first channel s =
     (let (request, skipped) = take_latest_reload_request first channel 0
      in if crr_generation request \<le> ex_active_generation s then s
         else
           (let generation = crr_generation request;
                reloaded_config = crr_config request
            in if \<not> su_plugins S (ac_plugins reloaded_config) (live_snapshot live)
               then s\<lparr>ex_exit := Some (Err PluginsFailed)\<rparr>
               else
                 (let s = s\<lparr>ex_plugins := (ac_plugins reloaded_config, live_snapshot live)\<rparr>
                  in if ac_listen_addr reloaded_config \<noteq> ac_listen_addr (ex_active_config s)
                     then (case start_http S (ac_listen_addr reloaded_config) of
                             Inl e \<Rightarrow> s\<lparr>ex_http := None, ex_exit := Some (Err e)\<rparr>
                           | Inr http \<Rightarrow> s\<lparr>ex_http := Some http, ex_active_generation := generation,
                                           ex_active_config := reloaded_config\<rparr>)
                     else s\<lparr>ex_active_generation := generation, ex_active_config := reloaded_config\<rparr>)))"

section \<open>The watch and a runtime loop together\<close>

text \<open>
  The two tasks interleave: at any time the watch ticks, or the loop receives what is in the channel. The
  relation is indexed by the receiving branch of the loop and by whether the loop still runs.
\<close>

inductive reload_run ::
  "('h live_rule_set \<Rightarrow> ('h, 'j) config_reload_request \<Rightarrow> ('h, 'j) config_reload_request list \<Rightarrow> 's \<Rightarrow> 's) \<Rightarrow> ('s \<Rightarrow> bool) \<Rightarrow>
     ('h, 'j) watch_state \<times> 's \<Rightarrow> ('h, 'j) watch_state \<times> 's \<Rightarrow> bool" for recv running start where
  begin_run: "reload_run recv running start start"
| tick: "reload_run recv running start (w, s) \<Longrightarrow> running s \<Longrightarrow>
     reload_run recv running start (watch_tick True stat now loaded w, s)"
| receive: "reload_run recv running start (w, s) \<Longrightarrow> running s \<Longrightarrow> ws_channel w = r # rs \<Longrightarrow>
     reload_run recv running start (w\<lparr>ws_channel := []\<rparr>, recv (ws_live_rules w) r rs s)"

lemma take_latest: "take_latest_reload_request r rs n = (last (r # rs), n + length rs)"
  by (induction rs arbitrary: r n) simp_all

lemma watch_tick_cases:
  obtains (idle) "watch_tick True stat now loaded w = w"
  | (noted) m where "watch_tick True stat now loaded w = w\<lparr>ws_pending_modified := Some m\<rparr>"
  | (failed) m where "watch_tick True stat now loaded w = w\<lparr>ws_last_processed_modified := Some m, ws_pending_modified := None\<rparr>"
  | (applied) m config where "stat = Some m" "ws_pending_modified w = Some m" "loaded = Ok config"
     "m + CONFIG_WATCH_STABLE_WINDOW \<le> now"
     "watch_tick True stat now loaded w =
        (watch_apply True config w)\<lparr>ws_last_processed_modified := Some m, ws_pending_modified := None\<rparr>"
proof (cases stat)
  case None
  then show ?thesis using idle by (simp add: watch_tick_def)
next
  case (Some m)
  show ?thesis
  proof (cases "watch_tick True stat now loaded w = w \<or> watch_tick True stat now loaded w = w\<lparr>ws_pending_modified := Some m\<rparr>")
    case True
    then show ?thesis using idle noted by blast
  next
    case False
    then have "ws_pending_modified w = Some m" "modified_time_is_stable now m CONFIG_WATCH_STABLE_WINDOW"
      and t: "watch_tick True stat now loaded w = (case loaded of Inr config \<Rightarrow> watch_apply True config w | Inl _ \<Rightarrow> w)
                 \<lparr>ws_last_processed_modified := Some m, ws_pending_modified := None\<rparr>"
      using Some by (auto simp: watch_tick_def split: if_splits option.splits)
    then show ?thesis using failed applied Some by (cases loaded) (auto simp: modified_time_is_stable_def)
  qed
qed

text \<open>What a loop promises: it takes the newest request, ignores it when it is not newer than what it runs, and
  otherwise stops or runs it.\<close>

locale reload_loop =
  fixes recv :: "'h live_rule_set \<Rightarrow> ('h, 'j) config_reload_request \<Rightarrow> ('h, 'j) config_reload_request list \<Rightarrow> 's \<Rightarrow> 's"
    and running :: "'s \<Rightarrow> bool"
    and gen :: "'s \<Rightarrow> nat"
    and cfg :: "'s \<Rightarrow> ('h, 'j) app_config"
    and good :: "'s \<Rightarrow> bool"
  assumes recv_stale: "crr_generation (last (r # rs)) \<le> gen s \<Longrightarrow> recv live r rs s = s"
    and recv_newer: "gen s < crr_generation (last (r # rs)) \<Longrightarrow> good s \<Longrightarrow> running (recv live r rs s) \<Longrightarrow>
      gen (recv live r rs s) = crr_generation (last (r # rs)) \<and> cfg (recv live r rs s) = crr_config (last (r # rs))
      \<and> good (recv live r rs s)"
begin

text \<open>The configuration that will run once the channel is drained.\<close>

definition target :: "('h, 'j) watch_state \<Rightarrow> 's \<Rightarrow> ('h, 'j) app_config" where
  "target w s = (if ws_channel w = [] then cfg s else crr_config (last (ws_channel w)))"

definition generations_ok :: "('h, 'j) watch_state \<Rightarrow> 's \<Rightarrow> bool" where
  "generations_ok w s \<longleftrightarrow> sorted_wrt (<) (gen s # map crr_generation (ws_channel w) @ [ws_next_generation w])"

definition loop_inv :: "('h, 'j) watch_state \<Rightarrow> 's \<Rightarrow> bool" where
  "loop_inv w s \<longleftrightarrow> good s \<and> generations_ok w s \<and> ws_static_config w = from_config (target w s)
     \<and> live_snapshot (ws_live_rules w) = ac_rules (target w s)"

lemma inv_start:
  assumes "good s" "gen s = 0" "live_snapshot live = ac_rules (cfg s)"
  shows "loop_inv (spawn_config_watch (cfg s) live stat) s"
  using assms by (simp add: loop_inv_def spawn_config_watch_def target_def generations_ok_def)

lemma inv_apply:
  assumes "loop_inv w s" "ws_next_generation w < U64_MAX"
  shows "loop_inv (watch_apply True config w) s"
  using assms
  by (auto simp: loop_inv_def watch_apply_def target_def generations_ok_def live_replace_def live_snapshot_def
      sorted_wrt_append Let_def)

lemma inv_frame [simp]:
  "loop_inv (w\<lparr>ws_pending_modified := a\<rparr>) s = loop_inv w s"
  "loop_inv (w\<lparr>ws_last_processed_modified := b\<rparr>) s = loop_inv w s"
  by (simp_all add: loop_inv_def target_def generations_ok_def)

lemma inv_tick:
  assumes "loop_inv w s" "ws_next_generation w < U64_MAX"
  shows "loop_inv (watch_tick True stat now loaded w) s"
  by (cases rule: watch_tick_cases [of stat now loaded w]) (use assms inv_apply in auto)

lemma inv_receive:
  assumes "loop_inv w s" "ws_channel w = r # rs" "running (recv (ws_live_rules w) r rs s)"
  shows "loop_inv (w\<lparr>ws_channel := []\<rparr>) (recv (ws_live_rules w) r rs s)"
proof -
  let ?q = "last (r # rs)"
  have q: "?q \<in> set (ws_channel w)" using assms(2) by simp
  with assms(1) have "gen s < crr_generation ?q" "crr_generation ?q < ws_next_generation w"
    by (auto simp: loop_inv_def generations_ok_def sorted_wrt_append)
  moreover note recv_newer [OF this(1) _ assms(3)]
  ultimately show ?thesis using assms(1,2) by (auto simp: loop_inv_def target_def generations_ok_def)
qed

lemma next_mono:
  "ws_next_generation w \<le> U64_MAX \<Longrightarrow> ws_next_generation w \<le> ws_next_generation (watch_tick True stat now loaded w)
     \<and> ws_next_generation (watch_tick True stat now loaded w) \<le> U64_MAX"
  by (cases rule: watch_tick_cases [of stat now loaded w]) (auto simp: watch_apply_def Let_def)

lemma run_inv:
  assumes "reload_run recv running (spawn_config_watch (cfg s0) live stat0, s0) (w, s)"
    and "good s0" "gen s0 = 0" "live_snapshot live = ac_rules (cfg s0)"
    and "running s" "ws_next_generation w < U64_MAX"
  shows "loop_inv w s"
proof -
  have "ws_next_generation w' \<le> U64_MAX \<and> (running s' \<longrightarrow> ws_next_generation w' < U64_MAX \<longrightarrow> loop_inv w' s')"
    if "reload_run recv running (spawn_config_watch (cfg s0) live stat0, s0) c" "c = (w', s')" for c w' s'
    using that
  proof (induction arbitrary: w' s')
    case begin_run
    then show ?case using inv_start [OF assms(2-4)] by (auto simp: spawn_config_watch_def U64_MAX_def)
  next
    case (tick w s stat now loaded)
    then show ?case using next_mono [of w stat now loaded] inv_tick [of w s stat now loaded] by auto
  next
    case (receive w s r rs)
    then show ?case using inv_receive [of w s r rs] by auto
  qed
  with assms(1,5,6) show ?thesis by blast
qed

lemma run_quiescent:
  assumes "reload_run recv running (spawn_config_watch (cfg s0) live stat0, s0) (w, s)"
    and "good s0" "gen s0 = 0" "live_snapshot live = ac_rules (cfg s0)"
    and "running s" "ws_next_generation w < U64_MAX" "ws_channel w = []"
  shows "good s \<and> ws_static_config w = from_config (cfg s) \<and> live_snapshot (ws_live_rules w) = ac_rules (cfg s)"
  using run_inv [OF assms(1-6)] assms(7) by (simp add: loop_inv_def target_def)

end

section \<open>Running components match the configuration\<close>

definition component_match :: "('h, 'j) app_config \<Rightarrow> ('h, 'j) transparent_runtime_handles \<Rightarrow> bool" where
  "component_match config rt \<longleftrightarrow>
     tr_http rt = Some (ac_listen_addr config) \<and> tr_tls rt = Some (effective_tls_port config)
   \<and> map_option fdi_options (tr_dns rt) = Some (bo_dns (ac_backend config))
   \<and> (\<exists>c. tr_intercept rt = Some c \<and> ibc_listen_addr c = ac_listen_addr config
        \<and> unwrap_or (sock_port (ibc_listen_addr c) + 1) (ibc_tls_port c) = effective_tls_port config
        \<and> ibc_backend c = ac_backend config \<and> ibc_fake_dns c = bo_dns (ac_backend config))"

lemma start_Ok_simps [result_simps]:
  "start_http S a = Ok h \<longleftrightarrow> su_http S a \<and> h = a"
  "start_tls S p = Ok t \<longleftrightarrow> su_tls S p \<and> t = p"
  "start_fake_dns_instance S b = Ok i \<Longrightarrow> fdi_options i = bo_dns b"
  by (auto simp: start_http_def start_tls_def start_fake_dns_instance_def dns_start_def dns_build_def ensure_r_def
      bind_r_Ok_iff split: if_splits)

lemma start_intercept_Ok:
  "start_intercept S config dns = Ok c \<Longrightarrow> c = \<lparr>ibc_listen_addr = ac_listen_addr config, ibc_tls_port = ac_tls_port config,
     ibc_backend = ac_backend config, ibc_fake_dns = dns\<rparr>"
  by (auto simp: start_intercept_def ensure_r_def Let_def bind_r_Ok_iff split: if_splits)

lemma start_components_match:
  assumes "start_transparent_components S config = Ok rt"
  shows "component_match config rt \<and> tr_config rt = config"
  using assms
  by (auto simp: start_transparent_components_def bind_r_Ok_iff start_Ok_simps component_match_def Let_def
      effective_tls_port_def dest!: start_intercept_Ok start_Ok_simps(3))

lemma then_do_Ok: "then_do r f = (Ok (), rt') \<longleftrightarrow> (\<exists>rt. r = (Ok (), rt) \<and> f rt = (Ok (), rt'))"
  by (auto simp: then_do_def split: prod.splits sum.splits)

text \<open>What each phase leaves behind when it succeeds, whether or not it was due.\<close>

lemma reload_phases_Ok:
  "(if b then reload_dns S nxt rt else (Ok (), rt)) = (Ok (), rt') \<Longrightarrow>
     \<exists>d. rt' = rt\<lparr>tr_dns := d\<rparr> \<and> (if b then map_option fdi_options d = Some (bo_dns (ac_backend nxt)) else d = tr_dns rt)"
  "(if b then reload_http S nxt rt else (Ok (), rt)) = (Ok (), rt') \<Longrightarrow>
     rt' = rt\<lparr>tr_http := (if b then Some (ac_listen_addr nxt) else tr_http rt)\<rparr>"
  "(if b then reload_tls S nxt rt else (Ok (), rt)) = (Ok (), rt') \<Longrightarrow>
     rt' = rt\<lparr>tr_tls := (if b then Some (effective_tls_port nxt) else tr_tls rt)\<rparr>"
  "(if b then reload_intercept S nxt rt else (Ok (), rt)) = (Ok (), rt') \<Longrightarrow>
     \<exists>i. rt' = rt\<lparr>tr_intercept := i\<rparr> \<and> (if b then \<exists>dns. tr_dns rt = Some dns \<and> i = Some \<lparr>ibc_listen_addr = ac_listen_addr nxt,
        ibc_tls_port = ac_tls_port nxt, ibc_backend = ac_backend nxt, ibc_fake_dns = fdi_options dns\<rparr>
       else i = tr_intercept rt)"
proof -
  show "(if b then reload_dns S nxt rt else (Ok (), rt)) = (Ok (), rt') \<Longrightarrow>
     \<exists>d. rt' = rt\<lparr>tr_dns := d\<rparr> \<and> (if b then map_option fdi_options d = Some (bo_dns (ac_backend nxt)) else d = tr_dns rt)"
    by (cases b) (auto simp: reload_dns_def split: sum.splits dest!: start_Ok_simps(3) intro: exI [of _ "tr_dns rt"])
  show "(if b then reload_intercept S nxt rt else (Ok (), rt)) = (Ok (), rt') \<Longrightarrow>
     \<exists>i. rt' = rt\<lparr>tr_intercept := i\<rparr> \<and> (if b then \<exists>dns. tr_dns rt = Some dns \<and> i = Some \<lparr>ibc_listen_addr = ac_listen_addr nxt,
        ibc_tls_port = ac_tls_port nxt, ibc_backend = ac_backend nxt, ibc_fake_dns = fdi_options dns\<rparr>
       else i = tr_intercept rt)"
    by (cases b) (auto simp: reload_intercept_def split: sum.splits option.splits dest!: start_intercept_Ok
        intro: exI [of _ "tr_intercept rt"])
qed (auto simp: reload_http_def reload_tls_def start_Ok_simps split: sum.splits)

lemma reload_Ok:
  assumes "reload S nxt rt = (Ok (), rt')"
  defines "plan \<equiv> from_configs (tr_config rt) nxt"
  obtains dns intercept where
    "rt' = rt\<lparr>tr_config := nxt,
        tr_http := (if rp_restart_http plan then Some (ac_listen_addr nxt) else tr_http rt),
        tr_tls := (if rp_restart_tls plan then Some (effective_tls_port nxt) else tr_tls rt),
        tr_dns := dns, tr_intercept := intercept\<rparr>"
    "if rp_restart_dns plan then map_option fdi_options dns = Some (bo_dns (ac_backend nxt)) else dns = tr_dns rt"
    "if rp_restart_intercept plan then \<exists>i. dns = Some i \<and> intercept = Some \<lparr>ibc_listen_addr = ac_listen_addr nxt,
        ibc_tls_port = ac_tls_port nxt, ibc_backend = ac_backend nxt, ibc_fake_dns = fdi_options i\<rparr>
     else intercept = tr_intercept rt"
proof -
  let ?rt = "if rp_restart_intercept plan then rt\<lparr>tr_intercept := None\<rparr> else rt"
  from assms(1) obtain a b c d where
    ph: "(if rp_restart_dns plan then reload_dns S nxt ?rt else (Ok (), ?rt)) = (Ok (), a)"
    "(if rp_restart_http plan then reload_http S nxt a else (Ok (), a)) = (Ok (), b)"
    "(if rp_restart_tls plan then reload_tls S nxt b else (Ok (), b)) = (Ok (), c)"
    "(if rp_restart_intercept plan then reload_intercept S nxt c else (Ok (), c)) = (Ok (), d)"
    and rt': "rt' = d\<lparr>tr_config := nxt\<rparr>"
    unfolding reload_def plan_def [symmetric] Let_def then_do_Ok by blast
  obtain dns where dns: "a = ?rt\<lparr>tr_dns := dns\<rparr>"
    "if rp_restart_dns plan then map_option fdi_options dns = Some (bo_dns (ac_backend nxt)) else dns = tr_dns ?rt"
    using reload_phases_Ok(1) [OF ph(1)] by blast
  note bc = reload_phases_Ok(2) [OF ph(2)] reload_phases_Ok(3) [OF ph(3)]
  obtain i where i: "d = c\<lparr>tr_intercept := i\<rparr>" "if rp_restart_intercept plan then \<exists>dns. tr_dns c = Some dns
      \<and> i = Some \<lparr>ibc_listen_addr = ac_listen_addr nxt, ibc_tls_port = ac_tls_port nxt, ibc_backend = ac_backend nxt,
         ibc_fake_dns = fdi_options dns\<rparr> else i = tr_intercept c"
    using reload_phases_Ok(4) [OF ph(4)] by blast
  show ?thesis
    by (rule that [where dns = dns and intercept = i]) (use rt' dns bc i in \<open>simp_all split: if_splits\<close>)
qed

lemma reload_match:
  assumes "component_match (tr_config rt) rt" "reload S nxt rt = (Ok (), rt')"
  shows "component_match nxt rt' \<and> tr_config rt' = nxt"
  using assms(1)
  by (rule_tac reload_Ok [OF assms(2)])
     (auto simp: component_match_def from_configs_def Let_def effective_tls_port_def split: if_splits)

section \<open>Both loops keep their promise\<close>

definition transparent_good :: "('h, 'j) serve_state \<Rightarrow> bool" where
  "transparent_good s \<longleftrightarrow> component_match (se_active_config s) (se_runtime s) \<and> tr_config (se_runtime s) = se_active_config s
     \<and> fst (se_plugins s) = ac_plugins (se_active_config s)"

definition explicit_good :: "('h, 'j) explicit_state \<Rightarrow> bool" where
  "explicit_good s \<longleftrightarrow> ex_http s = Some (ac_listen_addr (ex_active_config s))
     \<and> fst (ex_plugins s) = ac_plugins (ex_active_config s)"

interpretation transparent: reload_loop "serve_transparent_reload S" "\<lambda>s. se_exit s = None" se_active_generation
  se_active_config transparent_good for S :: "('h, 'j) supervisors"
proof
  fix r :: "('h, 'j) config_reload_request" and rs live and s :: "('h, 'j) serve_state"
  assume "crr_generation (last (r # rs)) \<le> se_active_generation s"
  then show "serve_transparent_reload S live r rs s = s"
    by (simp add: serve_transparent_reload_def take_latest)
next
  fix r :: "('h, 'j) config_reload_request" and rs live and s :: "('h, 'j) serve_state"
  let ?q = "last (r # rs)" and ?s = "serve_transparent_reload S live r rs s"
  assume *: "se_active_generation s < crr_generation ?q" "transparent_good s" "se_exit ?s = None"
  then obtain rt where rt: "reload S (crr_config ?q) (se_runtime s) = (Ok (), rt)"
    "?s = s\<lparr>se_plugins := (ac_plugins (crr_config ?q), live_snapshot live), se_runtime := rt,
      se_active_generation := crr_generation ?q, se_active_config := crr_config ?q\<rparr>"
    by (auto simp: serve_transparent_reload_def take_latest Let_def split: if_splits prod.splits sum.splits)
  from reload_match [OF _ rt(1)] *(2) rt(2)
  show "se_active_generation ?s = crr_generation ?q \<and> se_active_config ?s = crr_config ?q \<and> transparent_good ?s"
    by (simp add: transparent_good_def)
qed

interpretation explicit: reload_loop "serve_explicit_reload S" "\<lambda>s. ex_exit s = None" ex_active_generation
  ex_active_config explicit_good for S :: "('h, 'j) supervisors"
proof
  fix r :: "('h, 'j) config_reload_request" and rs live and s :: "('h, 'j) explicit_state"
  let ?q = "last (r # rs)" and ?s = "serve_explicit_reload S live r rs s"
  show "crr_generation ?q \<le> ex_active_generation s \<Longrightarrow> ?s = s"
    by (simp add: serve_explicit_reload_def take_latest)
  show "ex_active_generation s < crr_generation ?q \<Longrightarrow> explicit_good s \<Longrightarrow> ex_exit ?s = None \<Longrightarrow>
      ex_active_generation ?s = crr_generation ?q \<and> ex_active_config ?s = crr_config ?q \<and> explicit_good ?s"
    by (auto simp: serve_explicit_reload_def take_latest Let_def explicit_good_def start_http_def ensure_r_def
        split: if_splits sum.splits)
qed

section \<open>Properties\<close>

definition sample_backend :: "transparent_backend_kind \<Rightarrow> backend_options" where
  "sample_backend kind = \<lparr>bo_kind = kind, bo_dns = fds_options sample_dns_state, bo_windivert = \<lparr>wbo_layer = NetworkLayer\<rparr>,
     bo_tun = \<lparr>tbo_name = ''tun0'', tbo_mtu = 1500, tbo_stack = SmoltcpStack, tbo_platform_dns = ManualDns,
       tbo_dns_hijack = []\<rparr>\<rparr>"

definition sample_app :: "u16 \<Rightarrow> transparent_backend_kind \<Rightarrow> (unit, unit) app_config" where
  "sample_app port kind = \<lparr>ac_listen_addr = \<lparr>sock_ip = V4 0x7F000001, sock_port = port, sock_scope_id = 0\<rparr>, ac_tls_port = None,
     ac_backend = sample_backend kind, ac_observability = \<lparr>oo_enabled = False, oo_telemetry =
       \<lparr>to_service_name = ''a'', to_otlp_endpoint = ''b''\<rparr>\<rparr>,
     ac_plugins = \<lparr>pro_enabled = False, pro_workers = 1, pro_definitions = []\<rparr>, ac_rules = rule_set_new stop_rules\<rparr>"

definition sample_supervisors :: "(unit, unit) supervisors" where
  "sample_supervisors = \<lparr>su_http = \<lambda>_. True, su_tls = \<lambda>_. True, su_dns_server = \<lambda>_. True, su_dns_runtime = \<lambda>_. True,
     su_intercept = \<lambda>_. True, su_plugins = \<lambda>_ _. True\<rparr>"

definition sample_serve :: "(unit, unit) serve_state" where
  "sample_serve = \<lparr>se_runtime = \<lparr>tr_config = sample_app 8787 TunKind, tr_http = Some (ac_listen_addr (sample_app 8787 TunKind)),
       tr_tls = Some 8788, tr_dns = Some \<lparr>fdi_options = fds_options sample_dns_state, fdi_runtime = False\<rparr>,
       tr_intercept = Some \<lparr>ibc_listen_addr = ac_listen_addr (sample_app 8787 TunKind), ibc_tls_port = None,
         ibc_backend = sample_backend TunKind, ibc_fake_dns = fds_options sample_dns_state\<rparr>\<rparr>,
     se_active_generation = 0, se_active_config = sample_app 8787 TunKind,
     se_plugins = (ac_plugins (sample_app 8787 TunKind), ac_rules (sample_app 8787 TunKind)), se_exit = None\<rparr>"

lemma sample_serve_starts: "serve_transparent_start sample_supervisors (sample_app 8787 TunKind) = Ok sample_serve"
  by (simp add: serve_transparent_start_def sample_supervisors_def start_transparent_components_def start_fake_dns_instance_def
      should_start_fake_dns_runtime_def sample_app_def sample_backend_def dns_build_def start_http_def start_tls_def
      start_intercept_def effective_tls_port_def sample_serve_def Let_def)



text \<open>
  The same in explicit mode: when the channel is empty, the HTTP listener is bound to the address of the last
  configuration that loaded, with its plugins and its rules.
\<close>

theorem explicit_runs_last_config:
  assumes "serve_explicit_start S config = Ok s0" "live_snapshot live = ac_rules config"
    and "reload_run (serve_explicit_reload S) (\<lambda>s. ex_exit s = None) (spawn_config_watch config live stat0, s0) (w, s)"
    and "ex_exit s = None" "ws_next_generation w < U64_MAX" "ws_channel w = []"
  shows "ws_static_config w = from_config (ex_active_config s) \<and> live_snapshot (ws_live_rules w) = ac_rules (ex_active_config s)
    \<and> ex_http s = Some (ac_listen_addr (ex_active_config s)) \<and> fst (ex_plugins s) = ac_plugins (ex_active_config s)"
proof -
  have s0: "explicit_good s0" "ex_active_generation s0 = 0" "ex_active_config s0 = config"
    using assms(1) by (auto simp: serve_explicit_start_def bind_r_Ok_iff explicit_good_def start_Ok_simps)
  show ?thesis
    using explicit.run_quiescent [OF assms(3) [folded s0(3)] s0(1,2)] assms(2,4-6) s0(3)
    by (simp add: explicit_good_def)
qed

theorem explicit_runs_last_config_witness:
  "\<exists>s0. serve_explicit_start sample_supervisors (sample_app 8787 TunKind) = Ok s0
     \<and> ex_http s0 = Some (ac_listen_addr (sample_app 8787 TunKind))"
proof -
  let ?cfg = "sample_app 8787 TunKind"
  obtain s0 where s0: "serve_explicit_start sample_supervisors ?cfg = Ok s0" "ex_exit s0 = None" "ex_active_config s0 = ?cfg"
    by (simp add: serve_explicit_start_def sample_supervisors_def start_http_def)
  have "live_snapshot (live_new (ac_rules ?cfg)) = ac_rules ?cfg" by (simp add: live_snapshot_def live_new_def)
  from explicit_runs_last_config [OF s0(1) this reload_run.begin_run, of None] s0 show ?thesis
    by (simp add: spawn_config_watch_def U64_MAX_def)
qed

text \<open>
  C18. The watch is debounced and idempotent: it acts on a file only on the second tick in a row that sees the same
  modification time, when that time is at least the stable window ago and later than what was processed
  before, and then records it as processed, so that no later tick acts on it again.
\<close>

theorem watch_acts_once_when_stable:
  assumes "ws_live_rules (watch_tick True stat now loaded w) \<noteq> ws_live_rules w
    \<or> ws_channel (watch_tick True stat now loaded w) \<noteq> ws_channel w"
  shows "\<exists>m. stat = Some m \<and> ws_pending_modified w = Some m \<and> m + CONFIG_WATCH_STABLE_WINDOW \<le> now
    \<and> (\<forall>p. ws_last_processed_modified w = Some p \<longrightarrow> p < m)
    \<and> watch_tick True (Some m) now' loaded' (watch_tick True stat now loaded w) = watch_tick True stat now loaded w"
  using assms
proof (cases rule: watch_tick_cases [of stat now loaded w])
  case (applied m config)
  have "\<forall>p. ws_last_processed_modified w = Some p \<longrightarrow> p < m"
  proof (rule ccontr)
    assume "\<not> ?thesis"
    then have "watch_tick True stat now loaded w = w" using applied(1) by (auto simp: watch_tick_def)
    with assms show False by simp
  qed
  then show ?thesis using applied by (simp add: watch_tick_def)
qed auto

theorem watch_acts_once_when_stable_witness:
  "ws_channel (watch_tick True (Some 7) (secs 1 + 7) (Ok (sample_app 9000 TunKind))
      ((spawn_config_watch (sample_app 8787 TunKind) (live_new (rule_set_new stop_rules)) (Some 5))
        \<lparr>ws_pending_modified := Some 7\<rparr>)) \<noteq> []
   \<and> 7 + CONFIG_WATCH_STABLE_WINDOW \<le> secs 1 + 7"
proof -
  let ?w = "(spawn_config_watch (sample_app 8787 TunKind) (live_new (rule_set_new stop_rules)) (Some 5))
        \<lparr>ws_pending_modified := Some 7\<rparr>"
  have c: "ws_channel (watch_tick True (Some 7) (secs 1 + 7) (Ok (sample_app 9000 TunKind)) ?w) \<noteq> ws_channel ?w"
    by (simp add: watch_tick_def spawn_config_watch_def watch_apply_def modified_time_is_stable_def
        CONFIG_WATCH_STABLE_WINDOW_def Let_def)
  from watch_acts_once_when_stable [OF disjI2, OF c] c show ?thesis by (auto simp: spawn_config_watch_def)
qed

text \<open>
  A reload leaves the DNS server alone when the DNS settings are the same, also when the backend changes
  between one that needs the local DNS listener and one that does not: after a switch from the TUN backend the
  listener that WinDivert redirects queries to is not running.
\<close>

theorem reload_keeps_dns_listener:
  assumes "reload S nxt rt = (Ok (), rt')" "bo_dns (ac_backend nxt) = bo_dns (ac_backend (tr_config rt))"
  shows "tr_dns rt' = tr_dns rt"
  by (rule reload_Ok [OF assms(1)]) (use assms(2) in \<open>simp add: from_configs_def Let_def\<close>)

theorem reload_keeps_dns_listener_witness:
  "\<exists>rt'. reload sample_supervisors (sample_app 8787 WinDivertKind) (se_runtime sample_serve) = (Ok (), rt')
     \<and> should_start_fake_dns_runtime (ac_backend (sample_app 8787 WinDivertKind))
     \<and> map_option fdi_runtime (tr_dns rt') = Some False"
proof -
  have "\<exists>rt'. reload sample_supervisors (sample_app 8787 WinDivertKind) (se_runtime sample_serve) = (Ok (), rt')"
    by (simp add: reload_def from_configs_def Let_def sample_serve_def sample_app_def sample_backend_def effective_tls_port_def
        then_do_def reload_intercept_def start_intercept_def sample_supervisors_def)
  then obtain rt' where rt': "reload sample_supervisors (sample_app 8787 WinDivertKind) (se_runtime sample_serve) = (Ok (), rt')" ..
  then have "tr_dns rt' = tr_dns (se_runtime sample_serve)"
    by (rule reload_keeps_dns_listener) (simp add: sample_serve_def sample_app_def sample_backend_def)
  with rt' show ?thesis
    by (simp add: sample_serve_def should_start_fake_dns_runtime_def sample_app_def sample_backend_def)
qed

text \<open>
  Without a configured TLS port the TLS listener is one above the listen port, except that the highest
  listen port wraps it to port zero.
\<close>

theorem default_tls_port_wraps:
  assumes "ac_tls_port config = None"
  shows "unat (effective_tls_port config) =
    (if sock_port (ac_listen_addr config) = 65535 then 0 else unat (sock_port (ac_listen_addr config)) + 1)"
proof -
  let ?p = "sock_port (ac_listen_addr config)"
  have "(- 1 :: u16) = 65535" by simp
  then have "1 + ?p = 0 \<longleftrightarrow> ?p = 65535" using eq_neg_iff_add_eq_0 [of ?p 1] by (metis add.commute)
  then have "unat (1 + ?p) = (if ?p = 65535 then 0 else unat ?p + 1)" using unatSuc [of ?p] by auto
  with assms show ?thesis by (simp add: effective_tls_port_def add.commute)
qed

theorem default_tls_port_wraps_witness:
  "unat (effective_tls_port (sample_app 65535 TunKind)) = 0 \<and> unat (effective_tls_port (sample_app 8787 TunKind)) = 8788"
  using default_tls_port_wraps [of "sample_app 65535 TunKind"] default_tls_port_wraps [of "sample_app 8787 TunKind"]
  by (simp add: sample_app_def)

end
