(* ===== verification/Observability.thy ===== *)
theory Observability
  imports Reload
begin

text \<open>
  Observability and the worker registry: \<^verbatim>\<open>src/src/observability/{events,snapshot,runtime}.rs\<close>, the two handlers that
  serve them (\<^verbatim>\<open>src/src/gateway/handlers/observability.rs\<close>) and \<^verbatim>\<open>src/src/workers/\<close>. A \<^verbatim>\<open>VecDeque\<close> is a list with
  its front first, the registry is an association list with unique keys. Log lines are left out.
\<close>

section \<open>Recent events (events.rs)\<close>

datatype observability_event_level = EvDebug | EvInfo | EvWarn | EvError

record observability_event =
  oe_timestamp :: system_time
  oe_level :: observability_event_level
  oe_kind :: string
  oe_message :: string

definition observability_event_new ::
  "system_time \<Rightarrow> observability_event_level \<Rightarrow> string \<Rightarrow> string \<Rightarrow> observability_event" where
  "observability_event_new now level kind message =
     \<lparr>oe_timestamp = now, oe_level = level, oe_kind = kind, oe_message = message\<rparr>"

record recent_event_store =
  es_capacity :: nat
  es_inner :: "observability_event list mutex"

datatype store_error = StoreLockPoisoned

definition recent_event_store_new :: "nat \<Rightarrow> recent_event_store" where
  "recent_event_store_new capacity = \<lparr>es_capacity = capacity, es_inner = mutex_new []\<rparr>"

fun pop_front_while :: "nat \<Rightarrow> 'a list \<Rightarrow> 'a list" where
  "pop_front_while capacity [] = []"
| "pop_front_while capacity (x # xs) =
     (if length (x # xs) > capacity then pop_front_while capacity xs else x # xs)"

definition store_record ::
  "observability_event \<Rightarrow> recent_event_store \<Rightarrow> (store_error, unit) result \<times> recent_event_store" where
  "store_record event store =
     (if mx_poisoned (es_inner store) then (Err StoreLockPoisoned, store)
      else (Ok (), store\<lparr>es_inner := (es_inner store)
              \<lparr>mx_value := pop_front_while (es_capacity store) (mx_value (es_inner store) @ [event])\<rparr>\<rparr>))"

definition store_snapshot :: "recent_event_store \<Rightarrow> (store_error, observability_event list) result" where
  "store_snapshot store =
     (if mx_poisoned (es_inner store) then Err StoreLockPoisoned else Ok (mx_value (es_inner store)))"

section \<open>Runtime snapshots (snapshot.rs)\<close>

record runtime_snapshot =
  sn_listen_addr :: "socket_addr option"
  sn_tls_listen_addr :: "socket_addr option"
  sn_fake_dns_listen_addr :: "socket_addr option"
  sn_active_rule_count :: nat
  sn_active_plugin_count :: nat
  sn_reload_generation :: "64 word"

definition runtime_snapshot_default :: runtime_snapshot where
  "runtime_snapshot_default =
     \<lparr>sn_listen_addr = None, sn_tls_listen_addr = None, sn_fake_dns_listen_addr = None, sn_active_rule_count = 0,
      sn_active_plugin_count = 0, sn_reload_generation = 0\<rparr>"

type_synonym runtime_snapshot_store = "runtime_snapshot mutex"

definition snapshot_store_replace ::
  "runtime_snapshot \<Rightarrow> runtime_snapshot_store \<Rightarrow> (store_error, unit) result \<times> runtime_snapshot_store" where
  "snapshot_store_replace nxt store =
     (if mx_poisoned store then (Err StoreLockPoisoned, store) else (Ok (), store\<lparr>mx_value := nxt\<rparr>))"

definition snapshot_store_snapshot :: "runtime_snapshot_store \<Rightarrow> (store_error, runtime_snapshot) result" where
  "snapshot_store_snapshot store = (if mx_poisoned store then Err StoreLockPoisoned else Ok (mx_value store))"

section \<open>The runtime (runtime.rs, handlers/observability.rs)\<close>

definition DEFAULT_RECENT_EVENT_CAPACITY :: nat where "DEFAULT_RECENT_EVENT_CAPACITY = 512"

record observability_runtime =
  or_events :: "recent_event_store option"
  or_snapshots :: "runtime_snapshot_store option"

definition observability_runtime_new :: "observability_options \<Rightarrow> observability_runtime" where
  "observability_runtime_new config =
     (if \<not> oo_enabled config then \<lparr>or_events = None, or_snapshots = None\<rparr>
      else \<lparr>or_events = Some (recent_event_store_new DEFAULT_RECENT_EVENT_CAPACITY),
            or_snapshots = Some (mutex_new runtime_snapshot_default)\<rparr>)"

definition observability_enabled :: "observability_runtime \<Rightarrow> bool" where
  "observability_enabled rt \<longleftrightarrow> or_events rt \<noteq> None \<or> or_snapshots rt \<noteq> None"

definition record_event :: "observability_event \<Rightarrow> observability_runtime \<Rightarrow> observability_runtime" where
  "record_event event rt = rt\<lparr>or_events := map_option (\<lambda>store. snd (store_record event store)) (or_events rt)\<rparr>"

definition replace_snapshot :: "runtime_snapshot \<Rightarrow> observability_runtime \<Rightarrow> observability_runtime" where
  "replace_snapshot nxt rt = rt\<lparr>or_snapshots := map_option (\<lambda>store. snd (snapshot_store_replace nxt store)) (or_snapshots rt)\<rparr>"

definition runtime_snapshot_of :: "observability_runtime \<Rightarrow> runtime_snapshot option" where
  "runtime_snapshot_of rt = Option.bind (or_snapshots rt) (\<lambda>store. result_ok (snapshot_store_snapshot store))"

definition recent_events_of :: "observability_runtime \<Rightarrow> observability_event list option" where
  "recent_events_of rt = Option.bind (or_events rt) (\<lambda>store. result_ok (store_snapshot store))"

record runtime_state_response =
  rsr_enabled :: bool
  rsr_snapshot :: "runtime_snapshot option"

record recent_events_response =
  rer_enabled :: bool
  rer_events :: "observability_event list"

definition runtime_state :: "observability_runtime \<Rightarrow> runtime_state_response" where
  "runtime_state rt = \<lparr>rsr_enabled = observability_enabled rt, rsr_snapshot = runtime_snapshot_of rt\<rparr>"

definition recent_events :: "observability_runtime \<Rightarrow> recent_events_response" where
  "recent_events rt = \<lparr>rer_enabled = observability_enabled rt, rer_events = unwrap_or [] (recent_events_of rt)\<rparr>"

section \<open>Workers (workers/registry.rs, workers/supervisor.rs, workers/types.rs)\<close>

datatype worker_kind = AsyncWorker | BlockingWorker

datatype worker_state = WorkerRunning | WorkerFinished | WorkerPanicked

record worker_snapshot =
  ws_kind :: worker_kind
  ws_state :: worker_state
  ws_started_at :: instant

type_synonym workers = "(string \<times> worker_snapshot) list mutex"

definition workers_new :: workers where
  "workers_new = mutex_new []"

definition worker_kind_label :: "worker_kind \<Rightarrow> string" where
  "worker_kind_label k = (case k of AsyncWorker \<Rightarrow> ''async'' | BlockingWorker \<Rightarrow> ''blocking'')"

definition running_count :: "workers \<Rightarrow> nat" where
  "running_count w =
     (if mx_poisoned w then 0 else length (filter (\<lambda>(_, snapshot). ws_state snapshot = WorkerRunning) (mx_value w)))"

definition mark_running :: "instant \<Rightarrow> string \<Rightarrow> worker_kind \<Rightarrow> workers \<Rightarrow> workers" where
  "mark_running now name kind w =
     (if mx_poisoned w then w
      else w\<lparr>mx_value := AList.update name \<lparr>ws_kind = kind, ws_state = WorkerRunning, ws_started_at = now\<rparr> (mx_value w)\<rparr>)"

definition mark_finished ::
  "instant \<Rightarrow> string \<Rightarrow> worker_state \<Rightarrow> workers \<Rightarrow> (worker_kind \<times> duration) option \<times> workers" where
  "mark_finished now name state w =
     (if mx_poisoned w then (None, w)
      else case map_of (mx_value w) name of
             None \<Rightarrow> (None, w)
           | Some snapshot \<Rightarrow>
               (Some (ws_kind snapshot, now - ws_started_at snapshot),
                w\<lparr>mx_value := AList.update name (snapshot\<lparr>ws_state := state\<rparr>) (mx_value w)\<rparr>))"

text \<open>What the supervisor does to the registry: a tracked worker starts, and its completion is recorded by how it ended.\<close>

datatype worker_event =
    WorkerStarted instant string worker_kind
  | WorkerEnded instant string bool

definition track_worker :: "instant \<Rightarrow> string \<Rightarrow> worker_kind \<Rightarrow> workers \<Rightarrow> workers" where
  "track_worker now name kind w = mark_running now name kind w"

definition worker_completion :: "instant \<Rightarrow> string \<Rightarrow> worker_kind \<Rightarrow> bool \<Rightarrow> workers \<Rightarrow> duration \<times> workers" where
  "worker_completion now name kind panicked w =
     (case mark_finished now name (if panicked then WorkerPanicked else WorkerFinished) w of
        (r, w) \<Rightarrow> (snd (unwrap_or (kind, 0) r), w))"

definition worker_event_apply :: "worker_event \<Rightarrow> workers \<Rightarrow> workers" where
  "worker_event_apply e w =
     (case e of
        WorkerStarted now name kind \<Rightarrow> track_worker now name kind w
      | WorkerEnded now name panicked \<Rightarrow> snd (worker_completion now name AsyncWorker panicked w))"

section \<open>What is kept\<close>

datatype observability_op = RecordEvent observability_event | ReplaceSnapshot runtime_snapshot

definition observability_apply :: "observability_op \<Rightarrow> observability_runtime \<Rightarrow> observability_runtime" where
  "observability_apply op rt = (case op of RecordEvent e \<Rightarrow> record_event e rt | ReplaceSnapshot s \<Rightarrow> replace_snapshot s rt)"

definition recorded :: "observability_op list \<Rightarrow> observability_event list" where
  "recorded ops = List.map_filter (\<lambda>op. case op of RecordEvent e \<Rightarrow> Some e | ReplaceSnapshot _ \<Rightarrow> None) ops"

definition replaced :: "observability_op list \<Rightarrow> runtime_snapshot list" where
  "replaced ops = List.map_filter (\<lambda>op. case op of ReplaceSnapshot s \<Rightarrow> Some s | RecordEvent _ \<Rightarrow> None) ops"

lemma pop_front_while_drop: "pop_front_while capacity xs = drop (length xs - capacity) xs"
  by (induction xs) (auto simp: Suc_diff_le)

lemma keep_last: "pop_front_while c (drop (length xs - c) xs @ [x]) = drop (length xs + 1 - c) (xs @ [x])"
  by (cases "length xs < c"; cases c) (auto simp: pop_front_while_drop Suc_diff_le Suc_diff_Suc not_less)

lemma recorded_snoc [simp]:
  "recorded (ops @ [RecordEvent e]) = recorded ops @ [e]" "recorded (ops @ [ReplaceSnapshot s]) = recorded ops"
  "replaced (ops @ [RecordEvent e]) = replaced ops" "replaced (ops @ [ReplaceSnapshot s]) = replaced ops @ [s]"
  by (simp_all add: recorded_def replaced_def List.map_filter_def)

lemma runtime_after:
  "fold observability_apply ops (observability_runtime_new config) =
     (if \<not> oo_enabled config then \<lparr>or_events = None, or_snapshots = None\<rparr>
      else \<lparr>or_events = Some \<lparr>es_capacity = DEFAULT_RECENT_EVENT_CAPACITY,
              es_inner = mutex_new (drop (length (recorded ops) - DEFAULT_RECENT_EVENT_CAPACITY) (recorded ops))\<rparr>,
            or_snapshots = Some (mutex_new (last (runtime_snapshot_default # replaced ops)))\<rparr>)"
proof (induction ops rule: rev_induct)
  case Nil
  then show ?case by (simp add: observability_runtime_new_def recent_event_store_new_def recorded_def replaced_def List.map_filter_def)
next
  case (snoc op ops)
  then show ?case
    by (cases op) (simp_all add: observability_apply_def record_event_def replace_snapshot_def store_record_def
        snapshot_store_replace_def mutex_new_def keep_last)
qed

text \<open>The names whose last event is a start.\<close>

definition last_started :: "worker_event list \<Rightarrow> string \<Rightarrow> bool" where
  "last_started es name =
     fold (\<lambda>e b. case e of WorkerStarted _ n _ \<Rightarrow> if n = name then True else b
                         | WorkerEnded _ n _ \<Rightarrow> if n = name then False else b) es False"

lemma worker_event_effect:
  assumes "\<not> mx_poisoned w"
  shows "\<not> mx_poisoned (worker_event_apply e w)"
    and "distinct (map fst (mx_value w)) \<Longrightarrow> distinct (map fst (mx_value (worker_event_apply e w)))"
    and "map_of (mx_value (worker_event_apply e w)) =
      (case e of
         WorkerStarted t n k \<Rightarrow> (map_of (mx_value w))(n \<mapsto> \<lparr>ws_kind = k, ws_state = WorkerRunning, ws_started_at = t\<rparr>)
       | WorkerEnded t n p \<Rightarrow>
           (case map_of (mx_value w) n of
              None \<Rightarrow> map_of (mx_value w)
            | Some s \<Rightarrow> (map_of (mx_value w))(n \<mapsto> s\<lparr>ws_state := if p then WorkerPanicked else WorkerFinished\<rparr>)))"
  using assms
  by (cases e; simp add: worker_event_apply_def track_worker_def mark_running_def worker_completion_def mark_finished_def
      AList.distinct_update AList.update_conv' split: option.split)+

lemma last_started_snoc:
  "last_started (es @ [e]) name =
     (case e of WorkerStarted _ n _ \<Rightarrow> if n = name then True else last_started es name
              | WorkerEnded _ n _ \<Rightarrow> if n = name then False else last_started es name)"
  by (cases e) (simp_all add: last_started_def)

lemma registry_tracks:
  fixes es :: "worker_event list"
  defines "w \<equiv> fold worker_event_apply es workers_new"
  shows "\<not> mx_poisoned w" "distinct (map fst (mx_value w))"
    and "last_started es n \<longleftrightarrow> map_option ws_state (map_of (mx_value w) n) = Some WorkerRunning"
proof -
  have "\<not> mx_poisoned (fold worker_event_apply es workers_new) \<and> distinct (map fst (mx_value (fold worker_event_apply es workers_new)))
    \<and> (\<forall>n. last_started es n \<longleftrightarrow> map_option ws_state (map_of (mx_value (fold worker_event_apply es workers_new)) n) = Some WorkerRunning)"
  proof (induction es rule: rev_induct)
    case Nil
    then show ?case by (simp add: workers_new_def mutex_new_def last_started_def)
  next
    case (snoc e es)
    let ?w = "fold worker_event_apply es workers_new"
    have n: "\<not> mx_poisoned ?w" using snoc by blast
    have "last_started (es @ [e]) n \<longleftrightarrow>
        map_option ws_state (map_of (mx_value (worker_event_apply e ?w)) n) = Some WorkerRunning" for n
    proof -
      have "last_started es n \<longleftrightarrow> map_option ws_state (map_of (mx_value ?w) n) = Some WorkerRunning" using snoc by blast
      then show ?thesis
        unfolding worker_event_effect(3) [OF n] last_started_snoc by (auto split: worker_event.splits option.splits)
    qed
    then show ?case using worker_event_effect(1,2) [OF n] snoc by simp
  qed
  then show "\<not> mx_poisoned w" "distinct (map fst (mx_value w))"
    "last_started es n \<longleftrightarrow> map_option ws_state (map_of (mx_value w) n) = Some WorkerRunning"
    by (simp_all add: w_def)
qed

section \<open>Properties\<close>

text \<open>
  The observability endpoints report what happened last. After any recorded events and replaced snapshots the
  events endpoint answers with the latest 512 events in the order they were recorded and the state endpoint with the latest snapshot;
  when observability is off both say so and nothing is kept.
\<close>

theorem observability_reports_latest:
  "recent_events (fold observability_apply ops (observability_runtime_new config)) =
     (if oo_enabled config
      then \<lparr>rer_enabled = True, rer_events = drop (length (recorded ops) - 512) (recorded ops)\<rparr>
      else \<lparr>rer_enabled = False, rer_events = []\<rparr>)
   \<and> runtime_state (fold observability_apply ops (observability_runtime_new config)) =
     (if oo_enabled config
      then \<lparr>rsr_enabled = True, rsr_snapshot = Some (last (runtime_snapshot_default # replaced ops))\<rparr>
      else \<lparr>rsr_enabled = False, rsr_snapshot = None\<rparr>)"
  by (simp add: runtime_after recent_events_def runtime_state_def observability_enabled_def recent_events_of_def
      runtime_snapshot_of_def store_snapshot_def snapshot_store_snapshot_def mutex_new_def DEFAULT_RECENT_EVENT_CAPACITY_def)

text \<open>
  The registry counts names, not workers: the number of running workers it reports is the number of names whose
  last event is a start. Two workers of one name count once, and the end of either hides the other.
\<close>

lemma running_count_counts_names:
  "running_count (fold worker_event_apply es workers_new) = card {n. last_started es n}"
proof -
  let ?w = "fold worker_event_apply es workers_new"
  note t = registry_tracks(1,2) [of es] registry_tracks(3) [of es]
  let ?run = "filter (\<lambda>(_, s). ws_state s = WorkerRunning) (mx_value ?w)"
  have "distinct (map fst ?run)" using t by (auto simp: distinct_map inj_on_def)
  then have "length ?run = card (set (map fst ?run))" by (metis distinct_card length_map)
  also have "set (map fst ?run) = {n. last_started es n}" using t by (force simp: map_of_eq_Some_iff)
  finally show ?thesis using t by (simp add: running_count_def)
qed

lemma shared_name_hides_worker:
  "running_count (fold worker_event_apply [WorkerStarted t1 n k, WorkerStarted t2 n k, WorkerEnded t3 n p] workers_new) = 0"
proof -
  have "\<not> last_started [WorkerStarted t1 n k, WorkerStarted t2 n k, WorkerEnded t3 n p] m" for m by (simp add: last_started_def)
  then have "{m. last_started [WorkerStarted t1 n k, WorkerStarted t2 n k, WorkerEnded t3 n p] m} = {}" by blast
  then show ?thesis by (subst running_count_counts_names) (simp only: card.empty)
qed

end
