(* ===== verification/Routers.thy ===== *)
theory Routers
  imports Gateway Observability
begin

text \<open>
  The route tables of \<^verbatim>\<open>src/src/gateway/routers/\<close> and the application that \<^verbatim>\<open>serve_explicit\<close> and \<^verbatim>\<open>serve_transparent\<close>
  of \<^verbatim>\<open>src/src/gateway/runtime.rs\<close> build from them. The router of axum is a parameter: its builder functions, the
  dispatch of a request and the extractors; \<open>axum_laws\<close> states what its documentation says of static routes.
\<close>

section \<open>Handlers and the router library\<close>

datatype handler =
    Healthz | RecentEvents | RuntimeState | ExplainRules | RewriteUrl | FetchUrl
  | ProxyEntry | TransparentEntry

text \<open>A \<^verbatim>\<open>MethodRouter\<close>: the handlers given with \<^verbatim>\<open>get\<close> and \<^verbatim>\<open>head\<close>.\<close>

record method_router =
  mh_get :: "handler option"
  mh_head :: "handler option"

definition route_get :: "handler \<Rightarrow> method_router" where
  "route_get h = \<lparr>mh_get = Some h, mh_head = None\<rparr>"

definition with_head :: "handler \<Rightarrow> method_router \<Rightarrow> method_router" where
  "with_head h m = m\<lparr>mh_head := Some h\<rparr>"

datatype dispatch = ToHandler handler | MethodNotAllowed | NoRoute

record 'r axum =
  ax_new :: 'r
  ax_route :: "'r \<Rightarrow> string \<Rightarrow> method_router \<Rightarrow> 'r"
  ax_merge :: "'r \<Rightarrow> 'r \<Rightarrow> 'r"
  ax_layer :: "'r \<Rightarrow> 'r"
  ax_fallback :: "'r \<Rightarrow> handler \<Rightarrow> 'r"
  ax_dispatch :: "'r \<Rightarrow> string \<Rightarrow> string \<Rightarrow> dispatch"
  ax_path :: "uri \<Rightarrow> string"
  ax_query_url :: "uri \<Rightarrow> string option"

section \<open>The route tables (routers/*.rs)\<close>

definition common_router :: "'r axum \<Rightarrow> 'r" where
  "common_router A = ax_route A (ax_new A) ''/healthz'' (route_get Healthz)"

definition observability_router :: "'r axum \<Rightarrow> 'r" where
  "observability_router A =
     ax_route A
       (ax_route A (ax_new A) ''/observability/events'' (route_get RecentEvents))
       ''/observability/state'' (route_get RuntimeState)"

definition rules_router :: "'r axum \<Rightarrow> 'r" where
  "rules_router A = ax_route A (ax_new A) ''/rules/explain'' (route_get ExplainRules)"

definition tools_router :: "'r axum \<Rightarrow> 'r" where
  "tools_router A =
     ax_route A
       (ax_route A (ax_new A) ''/tools/rewrite'' (route_get RewriteUrl))
       ''/tools/fetch'' (with_head FetchUrl (route_get FetchUrl))"

definition build_common_router :: "'r axum \<Rightarrow> 'r" where
  "build_common_router A =
     ax_layer A
       (ax_merge A
         (ax_merge A
           (ax_merge A
             (ax_merge A (ax_new A) (common_router A))
             (observability_router A))
           (rules_router A))
         (tools_router A))"

text \<open>The applications of the two modes.\<close>

definition explicit_app :: "'r axum \<Rightarrow> 'r" where
  "explicit_app A = ax_fallback A (build_common_router A) ProxyEntry"

definition transparent_app :: "'r axum \<Rightarrow> 'r" where
  "transparent_app A = ax_fallback A (build_common_router A) TransparentEntry"

section \<open>Requests\<close>

definition healthz :: string where
  "healthz = ''ok''"

datatype ('h, 'b) app_answer =
    PlainText string
  | EventsJson recent_events_response
  | StateJson runtime_state_response
  | ExplainJson rule_explain_response
  | RewriteJson rewrite_response
  | GatewayAnswer "('h, 'b) gateway_result"
  | TunnelOpened connect_authority
  | StatusOnly u16

text \<open>
  The call of a handler with its extractors: a \<^verbatim>\<open>Query\<close> that does not deserialise answers 400 before the
  handler runs.
\<close>

definition with_query :: "string option \<Rightarrow> (string \<Rightarrow> ('h, 'b) app_answer) \<Rightarrow> ('h, 'b) app_answer" where
  "with_query q f = (case q of None \<Rightarrow> StatusOnly 400 | Some url \<Rightarrow> f url)"

definition call_handler ::
  "'r axum \<Rightarrow> ('h, 'b, 'j) entry_env \<Rightarrow> observability_runtime \<Rightarrow> ('h, 'j) app_state \<Rightarrow> ('h, 'b) request \<Rightarrow> handler \<Rightarrow>
     ('h, 'b) app_answer" where
  "call_handler A N obs st request h =
     (let G = ee_gateway N; query = ax_query_url A (rq_uri request)
      in case h of
           Healthz \<Rightarrow> PlainText healthz
         | RecentEvents \<Rightarrow> EventsJson (recent_events obs)
         | RuntimeState \<Rightarrow> StateJson (runtime_state obs)
         | ExplainRules \<Rightarrow> with_query query (\<lambda>url.
             case explain_rules G st url of Inl e \<Rightarrow> GatewayAnswer (json_err e) | Inr r \<Rightarrow> ExplainJson r)
         | RewriteUrl \<Rightarrow> with_query query (\<lambda>url.
             case rewrite_url G st url of Inl e \<Rightarrow> GatewayAnswer (json_err e) | Inr r \<Rightarrow> RewriteJson r)
         | FetchUrl \<Rightarrow> with_query query (\<lambda>url. GatewayAnswer (fetch_url G st url request))
         | TransparentEntry \<Rightarrow> GatewayAnswer (transparent_entry G st request)
         | ProxyEntry \<Rightarrow>
             (case proxy_entry N st request of Answered r \<Rightarrow> GatewayAnswer r | Tunnelled t \<Rightarrow> TunnelOpened t))"

definition serve_app ::
  "'r axum \<Rightarrow> 'r \<Rightarrow> ('h, 'b, 'j) entry_env \<Rightarrow> observability_runtime \<Rightarrow> ('h, 'j) app_state \<Rightarrow> ('h, 'b) request \<Rightarrow>
     ('h, 'b) app_answer" where
  "serve_app A app N obs st request =
     (case ax_dispatch A app (rq_method request) (ax_path A (rq_uri request)) of
        ToHandler h \<Rightarrow> call_handler A N obs st request h
      | MethodNotAllowed \<Rightarrow> StatusOnly 405
      | NoRoute \<Rightarrow> StatusOnly 404)"

section \<open>What the router library promises\<close>

definition dispatch_method :: "method_router \<Rightarrow> string \<Rightarrow> dispatch" where
  "dispatch_method m verb =
     (case (if verb = ''GET'' then mh_get m
            else if verb = ''HEAD'' then (case mh_head m of Some h \<Rightarrow> Some h | None \<Rightarrow> mh_get m)
            else None) of
        Some h \<Rightarrow> ToHandler h
      | None \<Rightarrow> MethodNotAllowed)"

definition static_path :: "string \<Rightarrow> bool" where
  "static_path p \<longleftrightarrow> hd p = CHR ''/'' \<and> list_all (\<lambda>c. c \<notin> {CHR ''{'', CHR ''}'', CHR '':'', CHR ''*''}) p"

definition vacant :: "'r axum \<Rightarrow> 'r \<Rightarrow> string \<Rightarrow> bool" where
  "vacant A r p \<longleftrightarrow> (\<forall>verb. ax_dispatch A r verb p = NoRoute)"

definition axum_laws :: "'r axum \<Rightarrow> bool" where
  "axum_laws A \<longleftrightarrow>
     (\<forall>p. vacant A (ax_new A) p)
   \<and> (\<forall>r at m verb p. static_path at \<longrightarrow> vacant A r at \<longrightarrow>
        ax_dispatch A (ax_route A r at m) verb p = (if p = at then dispatch_method m verb else ax_dispatch A r verb p))
   \<and> (\<forall>a b verb p. (\<forall>q. vacant A a q \<or> vacant A b q) \<longrightarrow>
        ax_dispatch A (ax_merge A a b) verb p = (if vacant A a p then ax_dispatch A b verb p else ax_dispatch A a verb p))
   \<and> (\<forall>r verb p. ax_dispatch A (ax_layer A r) verb p = ax_dispatch A r verb p)
   \<and> (\<forall>r h verb p. ax_dispatch A (ax_fallback A r h) verb p =
        (case ax_dispatch A r verb p of NoRoute \<Rightarrow> ToHandler h | d \<Rightarrow> d))"

text \<open>A table of routes that a router stands for; \<open>routes_as\<close> is the contract the four routers and the merged one satisfy.\<close>

type_synonym route_table = "(string \<times> method_router) list"

definition routes_as :: "'r axum \<Rightarrow> 'r \<Rightarrow> route_table \<Rightarrow> bool" where
  "routes_as A r table \<longleftrightarrow>
     (\<forall>verb p. ax_dispatch A r verb p = (case map_of table p of Some m \<Rightarrow> dispatch_method m verb | None \<Rightarrow> NoRoute))"

definition gateway_routes :: route_table where
  "gateway_routes =
     [(''/healthz'', route_get Healthz),
      (''/observability/state'', route_get RuntimeState), (''/observability/events'', route_get RecentEvents),
      (''/rules/explain'', route_get ExplainRules),
      (''/tools/fetch'', with_head FetchUrl (route_get FetchUrl)), (''/tools/rewrite'', route_get RewriteUrl)]"

lemma dispatch_method_routed: "dispatch_method m verb \<noteq> NoRoute"
  by (simp add: dispatch_method_def split: option.split)

lemma vacant_routes: "routes_as A r table \<Longrightarrow> vacant A r p \<longleftrightarrow> map_of table p = None"
  by (cases "map_of table p") (simp_all add: routes_as_def vacant_def dispatch_method_routed)

lemma routes_new: "axum_laws A \<Longrightarrow> routes_as A (ax_new A) []"
  by (simp add: axum_laws_def routes_as_def vacant_def)

lemma routes_route:
  assumes "axum_laws A" "routes_as A r table" "static_path at" "at \<notin> fst ` set table"
  shows "routes_as A (ax_route A r at m) ((at, m) # table)"
proof -
  have "vacant A r at" using assms(2,4) by (simp add: vacant_routes map_of_eq_None_iff)
  then have "ax_dispatch A (ax_route A r at m) verb p = (if p = at then dispatch_method m verb else ax_dispatch A r verb p)" for verb p
    using assms(1,3) unfolding axum_laws_def by blast
  then show ?thesis using assms(2) by (auto simp: routes_as_def)
qed

lemma routes_merge:
  assumes "axum_laws A" "routes_as A a t" "routes_as A b u" "fst ` set t \<inter> fst ` set u = {}"
  shows "routes_as A (ax_merge A a b) (t @ u)"
proof -
  have "vacant A a q \<or> vacant A b q" for q
    using assms(4) by (auto simp: vacant_routes [OF assms(2)] vacant_routes [OF assms(3)] map_of_eq_None_iff)
  then have d: "ax_dispatch A (ax_merge A a b) verb p = (if vacant A a p then ax_dispatch A b verb p else ax_dispatch A a verb p)" for verb p
    using assms(1) unfolding axum_laws_def by blast
  have u: "map_of u p = None" if "map_of t p = Some m" for p m
    using that assms(4) by (metis disjoint_iff domI domIff dom_map_of_conv_image_fst)
  show ?thesis
    unfolding routes_as_def
  proof (intro allI)
    fix verb p
    show "ax_dispatch A (ax_merge A a b) verb p = (case map_of (t @ u) p of Some m \<Rightarrow> dispatch_method m verb | None \<Rightarrow> NoRoute)"
      using assms(2,3) u [of p] by (cases "map_of t p") (simp_all add: d routes_as_def vacant_routes [OF assms(2)] map_add_def)
  qed
qed

lemma routes_layer: "axum_laws A \<Longrightarrow> routes_as A r t \<Longrightarrow> routes_as A (ax_layer A r) t"
  by (simp add: axum_laws_def routes_as_def)

lemma static_paths [simp]:
  "static_path ''/healthz''" "static_path ''/observability/events''" "static_path ''/observability/state''"
  "static_path ''/rules/explain''" "static_path ''/tools/rewrite''" "static_path ''/tools/fetch''"
  by (simp_all add: static_path_def)

lemma common_routes:
  assumes "axum_laws A"
  shows "routes_as A (build_common_router A) gateway_routes"
proof -
  note step = routes_route [OF assms] and merge = routes_merge [OF assms] and new = routes_new [OF assms]
  have c: "routes_as A (common_router A) [(''/healthz'', route_get Healthz)]"
    unfolding common_router_def by (rule step [OF new]) simp_all
  have o: "routes_as A (observability_router A)
      [(''/observability/state'', route_get RuntimeState), (''/observability/events'', route_get RecentEvents)]"
    unfolding observability_router_def by (rule step [OF step [OF new]]) simp_all
  have r: "routes_as A (rules_router A) [(''/rules/explain'', route_get ExplainRules)]"
    unfolding rules_router_def by (rule step [OF new]) simp_all
  have t: "routes_as A (tools_router A)
      [(''/tools/fetch'', with_head FetchUrl (route_get FetchUrl)), (''/tools/rewrite'', route_get RewriteUrl)]"
    unfolding tools_router_def by (rule step [OF step [OF new]]) simp_all
  have "routes_as A (build_common_router A)
      (((([] @ [(''/healthz'', route_get Healthz)])
        @ [(''/observability/state'', route_get RuntimeState), (''/observability/events'', route_get RecentEvents)])
        @ [(''/rules/explain'', route_get ExplainRules)])
        @ [(''/tools/fetch'', with_head FetchUrl (route_get FetchUrl)), (''/tools/rewrite'', route_get RewriteUrl)])"
    unfolding build_common_router_def
    by (rule routes_layer [OF assms, OF merge [OF merge [OF merge [OF merge [OF new c] o] r] t]]) simp_all
  then show ?thesis by (simp add: gateway_routes_def)
qed

lemma app_dispatch:
  assumes "axum_laws A"
  shows "ax_dispatch A (ax_fallback A (build_common_router A) h) verb p =
    (case map_of gateway_routes p of Some m \<Rightarrow> dispatch_method m verb | None \<Rightarrow> ToHandler h)"
proof -
  have "ax_dispatch A (ax_fallback A r h) verb p = (case ax_dispatch A r verb p of NoRoute \<Rightarrow> ToHandler h | d \<Rightarrow> d)" for r
    using assms unfolding axum_laws_def by blast
  with common_routes [OF assms] show ?thesis
    by (auto simp: routes_as_def dispatch_method_routed split: option.split dispatch.split)
qed

text \<open>What the application answers, for a gateway whose entry points answer.\<close>

definition app_answers :: "'r axum \<Rightarrow> ('h, 'b, 'j) entry_env \<Rightarrow> ('h, 'j) app_state \<Rightarrow> ('h, 'b) request \<Rightarrow> ('h, 'b) app_answer \<Rightarrow> bool" where
  "app_answers A N st request a =
     (case a of
        GatewayAnswer r \<Rightarrow> answers (ee_gateway N) st r
      | TunnelOpened t \<Rightarrow> rq_method request = ''CONNECT''
      | StatusOnly code \<Rightarrow> code \<in> {400, 405} \<and> ax_path A (rq_uri request) \<in> fst ` set gateway_routes
      | _ \<Rightarrow> True)"

lemma call_handler_answers:
  assumes "http_laws (ee_gateway N)" "url_reparse_law (ge_lib (ee_gateway N))" "gateway_started (ee_gateway N) st"
    and "h \<in> {ProxyEntry, TransparentEntry} \<or> ax_path A (rq_uri request) \<in> fst ` set gateway_routes"
  shows "app_answers A N st request (call_handler A N obs st request h)"
  using entries_answer [OF assms(1-3)] assms(4)
  by (cases h) (auto simp: app_answers_def call_handler_def with_query_def Let_def proxy_entry_def handle_connect_def
      split: option.split sum.splits)

lemma serve_app_answers:
  assumes "axum_laws A" "http_laws (ee_gateway N)" "url_reparse_law (ge_lib (ee_gateway N))" "gateway_started (ee_gateway N) st"
    and "app \<in> {transparent_app A, explicit_app A}"
  shows "app_answers A N st request (serve_app A app N obs st request)"
proof (cases "map_of gateway_routes (ax_path A (rq_uri request))")
  case None
  then show ?thesis
    using assms(5)
    by (auto simp: serve_app_def transparent_app_def explicit_app_def app_dispatch [OF assms(1)]
        intro!: call_handler_answers [OF assms(2-4)])
next
  case (Some m)
  then have own: "ax_path A (rq_uri request) \<in> fst ` set gateway_routes"
    by (metis domI dom_map_of_conv_image_fst)
  have "app_answers A N st request (StatusOnly 405)" using own by (simp add: app_answers_def)
  then show ?thesis
    using assms(5) Some dispatch_method_routed [of m "rq_method request"] call_handler_answers [OF assms(2-4) disjI2, OF own]
    by (auto simp: serve_app_def transparent_app_def explicit_app_def app_dispatch [OF assms(1)] split: dispatch.split)
qed

text \<open>A router as the function it dispatches with satisfies the laws.\<close>

definition sample_axum :: "(string \<Rightarrow> string \<Rightarrow> dispatch) axum" where
  "sample_axum = \<lparr>ax_new = \<lambda>_ _. NoRoute,
     ax_route = \<lambda>r at m verb p. if p = at then dispatch_method m verb else r verb p,
     ax_merge = \<lambda>a b verb p. if a verb p = NoRoute then b verb p else a verb p,
     ax_layer = \<lambda>r. r,
     ax_fallback = \<lambda>r h verb p. case r verb p of NoRoute \<Rightarrow> ToHandler h | d \<Rightarrow> d,
     ax_dispatch = \<lambda>r. r, ax_path = \<lambda>u. takeWhile (\<lambda>c. c \<noteq> CHR ''?'') (unwrap_or [] (uri_path_and_query u)),
     ax_query_url = \<lambda>_. None\<rparr>"

lemma sample_axum_laws: "axum_laws sample_axum"
proof -
  have *: "(if a verb p = NoRoute then b verb p else a verb p) = (if \<forall>v. a v p = NoRoute then b verb p else a verb p)"
    if "\<forall>q. (\<forall>v. a v q = NoRoute) \<or> (\<forall>v. b v q = NoRoute)" for a b :: "string \<Rightarrow> string \<Rightarrow> dispatch" and verb p
    using that by metis
  show ?thesis
    unfolding axum_laws_def vacant_def
    by (intro conjI allI impI) (simp_all add: sample_axum_def *)
qed

section \<open>Properties\<close>

text \<open>
  C26. The application serves its own routes and hands every other path to the entry point of the mode: a GET of one of the six
  routes reaches its handler, HEAD is served like GET, another method on them is answered 405 and not forwarded, and for a path
  that is not one of them the entry point runs, whatever the method.
\<close>

theorem app_serves_declared_routes:
  assumes "axum_laws A" "app = (if transparent then transparent_app A else explicit_app A)"
  shows "serve_app A app N obs st request =
    (case map_of gateway_routes (ax_path A (rq_uri request)) of
       None \<Rightarrow> call_handler A N obs st request (if transparent then TransparentEntry else ProxyEntry)
     | Some m \<Rightarrow>
         if rq_method request = ''GET'' \<or> rq_method request = ''HEAD''
         then call_handler A N obs st request (the (mh_get m))
         else StatusOnly 405)"
proof -
  have m: "dispatch_method m verb = (if verb = ''GET'' \<or> verb = ''HEAD'' then ToHandler (the (mh_get m)) else MethodNotAllowed)"
    if "map_of gateway_routes p = Some m" for p m verb
    using that
    by (auto simp: gateway_routes_def dispatch_method_def route_get_def with_head_def split: if_splits)
  show ?thesis
    using app_dispatch [OF assms(1)] assms(2)
    by (auto simp: serve_app_def transparent_app_def explicit_app_def m split: option.split)
qed

theorem app_serves_declared_routes_witness:
  "\<forall>N obs st hs b. serve_app sample_axum (transparent_app sample_axum) N obs st
     \<lparr>rq_method = ''POST'', rq_uri = \<lparr>uri_to_string = ''/tools/fetch?url=x'', uri_path_and_query = Some ''/tools/fetch?url=x''\<rparr>,
      rq_headers = hs, rq_body = b, rq_tls_intercepted = False\<rparr> = StatusOnly 405"
proof -
  have "ax_path sample_axum \<lparr>uri_to_string = u, uri_path_and_query = Some ''/tools/fetch?url=x''\<rparr> = ''/tools/fetch''" for u
    by (simp add: sample_axum_def)
  then show ?thesis
    by (simp add: app_serves_declared_routes [OF sample_axum_laws, of "transparent_app sample_axum" True] gateway_routes_def)
qed

text \<open>
  The routes of the gateway shadow those of the hosts it proxies: whatever host an intercepted or proxied request names, in its
  headers or in an absolute URI, a GET of \<^verbatim>\<open>/healthz\<close> is answered by the gateway itself and never reaches a rule or the host.
\<close>

lemma own_routes_shadow_hosts:
  assumes "axum_laws A" "ax_path A (rq_uri request) = ''/healthz''" "rq_method request = ''GET''"
  shows "serve_app A (transparent_app A) N obs st request = PlainText ''ok''"
    and "serve_app A (explicit_app A) N obs st request = PlainText ''ok''"
  using app_dispatch [OF assms(1)] assms(2,3)
  by (simp_all add: serve_app_def transparent_app_def explicit_app_def gateway_routes_def dispatch_method_def route_get_def
      call_handler_def healthz_def)

end
