(* ===== verification/Upstream.thy ===== *)
theory Upstream
  imports Forwarding Fake_Ip
begin

text \<open>
  The upstream executor: \<^verbatim>\<open>src/src/gateway/upstream/executors/hyper.rs\<close> and
  \<^verbatim>\<open>src/src/gateway/upstream/resolver.rs\<close>. The executor keeps three caches behind mutexes: pooled clients by
  transport identity, resolvers by resolver identity, and DNS answers with an expiry. The crates it drives
  (\<^verbatim>\<open>hickory_resolver\<close>, \<^verbatim>\<open>hyper_util\<close>, \<^verbatim>\<open>rustls\<close>, \<^verbatim>\<open>http::Uri\<close>) and the sockets are the fields of
  \<open>upstream_env\<close>; what the network answers depends on the instant of the call. A name server group is the call
  that builds it. An operation that reads the clock takes the instants it reads.
\<close>

section \<open>DNS resolvers (resolver.rs)\<close>

datatype name_server_group =
    FromIpsClear "ip_addr list" u16
  | FromIpsTls "ip_addr list" u16 string
  | FromIpsHttps "ip_addr list" u16 string

record http_uri =
  hu_text :: string
  hu_scheme :: "string option"
  hu_authority :: "string option"

datatype transport_scheme = TransportHttp | TransportHttps

datatype transport_dns_identity = TdUdp string | TdDot string | TdDoh string

datatype resolver_identity = RiSystem | RiUdp string | RiDot string | RiDoh string

record dns_lookup_key =
  dk_resolver :: resolver_identity
  dk_hostname :: string

record cached_dns_lookup =
  cd_ip :: ip_addr
  cd_expires_at :: instant

record transport_identity =
  ti_scheme :: transport_scheme
  ti_connect_host :: string
  ti_request_authority :: string
  ti_port :: u16
  ti_host_header :: string
  ti_sni :: "string option"
  ti_connect_ip :: "ip_addr option"
  ti_dns :: "transport_dns_identity option"

record pooled_http1_client =
  pc_transport :: transport_identity
  pc_pool_idle_timeout :: duration
  pc_pool_max_idle_per_host :: nat
  pc_set_host :: bool

record ('h, 'b) upstream_request =
  uq_method :: string
  uq_uri :: http_uri
  uq_headers :: 'h
  uq_body :: 'b

datatype upstream_error =
    SystemResolverFailed
  | RequiresServer string
  | InvalidDnsServer string
  | InvalidDotServer string
  | InvalidDohUrl string
  | NoDohHost
  | BootstrapFailed string string
  | NoBootstrapIps string string
  | DnsFailed string
  | NoDnsRecords string
  | NoTargetHost
  | UnknownTargetPort
  | UnsupportedUpstreamScheme string
  | ClientCachePoisoned
  | DnsCachePoisoned
  | ResolverCachePoisoned
  | ResolverIdentityMissing
  | UriBuildFailed string
  | UriMissingScheme http_uri
  | UriMissingAuthority http_uri
  | UriMismatch http_uri string string
  | NoMutableHeaders
  | InvalidOriginalUrlHeader string
  | TcpConnectFailed socket_addr
  | InvalidServerName string
  | TlsHandshakeFailed
  | UpstreamRequestFailed

record ('h, 'b, 'j, 'r, 't, 's) upstream_env =
  ue_gateway :: "('h, 'b, 'j) gateway_env"
  ue_system_resolver :: "'r option"
  ue_build_resolver :: "name_server_group \<Rightarrow> 'r"
  ue_lookup_ip :: "instant \<Rightarrow> 'r \<Rightarrow> string \<Rightarrow> ip_addr list option"
  ue_uri_build :: "string \<Rightarrow> string \<Rightarrow> string \<Rightarrow> http_uri option"
  ue_uri_parse :: "string \<Rightarrow> http_uri option"
  ue_tcp_connect :: "instant \<Rightarrow> socket_addr \<Rightarrow> 't option"
  ue_server_name :: "string \<Rightarrow> string option"
  ue_tls_connect :: "instant \<Rightarrow> string list \<Rightarrow> string \<Rightarrow> 't \<Rightarrow> 's option"
  ue_alpn_protocol :: "'s \<Rightarrow> string option"
  ue_client_request :: "pooled_http1_client \<Rightarrow> ('h, 'b) upstream_request \<Rightarrow> ('h, 'b) http_response option"

definition resolver_system :: "('h, 'b, 'j, 'r, 't, 's) upstream_env \<Rightarrow> (upstream_error, 'r) result" where
  "resolver_system E = ok_or SystemResolverFailed (ue_system_resolver E)"

definition require_server :: "dns_plan \<Rightarrow> string \<Rightarrow> (upstream_error, string) result" where
  "require_server plan mode_name = ok_or (RequiresServer mode_name) (dp_server plan)"

definition parse_dns_server_addr :: "string \<Rightarrow> u16 \<Rightarrow> (upstream_error, socket_addr) result" where
  "parse_dns_server_addr server default_port =
     (let candidate = (if contains_char server CHR '':'' then server else server @ '':'' @ decimal (unat default_port))
      in ok_or (InvalidDnsServer server) (parse_socket_addr candidate))"

definition resolve_bootstrap_ips ::
  "('h, 'b, 'j, 'r, 't, 's) upstream_env \<Rightarrow> instant \<Rightarrow> string \<Rightarrow> string \<Rightarrow> (upstream_error, ip_addr list) result" where
  "resolve_bootstrap_ips E t host protocol =
     bind_r (ok_or SystemResolverFailed (ue_system_resolver E)) (\<lambda>system_resolver.
     bind_r (ok_or (BootstrapFailed protocol host) (ue_lookup_ip E t system_resolver host)) (\<lambda>ips.
     if ips = [] then Err (NoBootstrapIps protocol host) else Ok ips))"

definition trim_dot_server :: "string \<Rightarrow> string" where
  "trim_dot_server server = trim_end_matches CHR ''/'' (trim_by [''tls://''] (trim server))"

record dot_server =
  dot_server_name :: string
  dot_bootstrap_host :: string
  dot_port :: u16

definition rsplit_once :: "char \<Rightarrow> string \<Rightarrow> (string \<times> string) option" where
  "rsplit_once c s =
     (if c \<in> set s then Some (rev (tl (dropWhile (\<lambda>d. d \<noteq> c) (rev s))), rev (takeWhile (\<lambda>d. d \<noteq> c) (rev s))) else None)"

definition parse_dot_server :: "string \<Rightarrow> (upstream_error, dot_server) result" where
  "parse_dot_server server =
     (let trimmed = trim_dot_server server;
          host = hd (split_on CHR '':'' trimmed)
      in if host = [] then Err (InvalidDotServer server)
         else Ok \<lparr>dot_server_name = host, dot_bootstrap_host = host,
                  dot_port = unwrap_or 853 (Option.bind (rsplit_once CHR '':'' trimmed) (\<lambda>(_, port). parse_u16 port))\<rparr>)"

definition resolver_udp :: "('h, 'b, 'j, 'r, 't, 's) upstream_env \<Rightarrow> string \<Rightarrow> (upstream_error, 'r) result" where
  "resolver_udp E server =
     bind_r (parse_dns_server_addr server 53) (\<lambda>addr.
     Ok (ue_build_resolver E (FromIpsClear [sock_ip addr] (sock_port addr))))"

definition resolver_dot :: "('h, 'b, 'j, 'r, 't, 's) upstream_env \<Rightarrow> instant \<Rightarrow> string \<Rightarrow> (upstream_error, 'r) result" where
  "resolver_dot E t server =
     bind_r (parse_dot_server server) (\<lambda>config.
     bind_r (resolve_bootstrap_ips E t (dot_bootstrap_host config) ''DoT'') (\<lambda>ips.
     Ok (ue_build_resolver E (FromIpsTls ips (dot_port config) (dot_server_name config)))))"

definition resolver_doh :: "('h, 'b, 'j, 'r, 't, 's) upstream_env \<Rightarrow> instant \<Rightarrow> string \<Rightarrow> (upstream_error, 'r) result" where
  "resolver_doh E t server =
     (let server_url = (if starts_with server ''http'' then server else ''https://'' @ server @ ''/dns-query'')
      in bind_r (ok_or (InvalidDohUrl server) (url_parse (ge_lib (ue_gateway E)) server_url)) (\<lambda>u.
         bind_r (ok_or NoDohHost (url_host_str u)) (\<lambda>host.
         let port = unwrap_or 443 (url_port_or_known_default u)
         in bind_r (resolve_bootstrap_ips E t host ''DoH'') (\<lambda>ips.
            Ok (ue_build_resolver E (FromIpsHttps ips port host))))))"

definition from_plan :: "('h, 'b, 'j, 'r, 't, 's) upstream_env \<Rightarrow> instant \<Rightarrow> dns_plan \<Rightarrow> (upstream_error, 'r) result" where
  "from_plan E t plan =
     (case dp_mode plan of
        DnsSystem \<Rightarrow> resolver_system E
      | DnsUdp \<Rightarrow> bind_r (require_server plan ''UDP DNS mode'') (resolver_udp E)
      | DnsDot \<Rightarrow> bind_r (require_server plan ''DoT mode'') (resolver_dot E t)
      | DnsDoh \<Rightarrow> bind_r (require_server plan ''DoH mode'') (resolver_doh E t))"

definition resolver_resolve ::
  "('h, 'b, 'j, 'r, 't, 's) upstream_env \<Rightarrow> instant \<Rightarrow> 'r \<Rightarrow> string \<Rightarrow> (upstream_error, ip_addr) result" where
  "resolver_resolve E t resolver hostname =
     (case parse_ip_addr hostname of
        Some ip \<Rightarrow> Ok ip
      | None \<Rightarrow>
          bind_r (ok_or (DnsFailed hostname) (ue_lookup_ip E t resolver hostname)) (\<lambda>lookup.
          case lookup of ip # _ \<Rightarrow> Ok ip | [] \<Rightarrow> Err (NoDnsRecords hostname)))"

section \<open>The executor (hyper.rs)\<close>

definition POOLED_HTTP1_IDLE_TIMEOUT :: duration where "POOLED_HTTP1_IDLE_TIMEOUT = 90 * 10 ^ 9"
definition POOLED_HTTP1_MAX_IDLE_PER_HOST :: nat where "POOLED_HTTP1_MAX_IDLE_PER_HOST = 8"
definition DNS_RESULT_CACHE_TTL :: duration where "DNS_RESULT_CACHE_TTL = 10 * 10 ^ 9"
definition POOLED_HTTP_ALPN_PROTOCOLS :: "string list" where "POOLED_HTTP_ALPN_PROTOCOLS = [''h2'', ''http/1.1'']"

record 'r hyper_executor =
  he_pooled_http1_clients :: "(transport_identity \<rightharpoonup> pooled_http1_client) mutex"
  he_resolver_cache :: "(resolver_identity \<rightharpoonup> 'r) mutex"
  he_dns_result_cache :: "(dns_lookup_key \<rightharpoonup> cached_dns_lookup) mutex"

definition hyper_executor_new :: "'r hyper_executor" where
  "hyper_executor_new = \<lparr>he_pooled_http1_clients = mutex_new Map.empty, he_resolver_cache = mutex_new Map.empty,
     he_dns_result_cache = mutex_new Map.empty\<rparr>"

definition scheme_label :: "transport_scheme \<Rightarrow> string" where
  "scheme_label s = (case s of TransportHttp \<Rightarrow> ''http'' | TransportHttps \<Rightarrow> ''https'')"

definition build_pooled_http1_client :: "transport_identity \<Rightarrow> pooled_http1_client" where
  "build_pooled_http1_client transport =
     \<lparr>pc_transport = transport, pc_pool_idle_timeout = POOLED_HTTP1_IDLE_TIMEOUT,
      pc_pool_max_idle_per_host = POOLED_HTTP1_MAX_IDLE_PER_HOST, pc_set_host = False\<rparr>"

definition get_or_create_pooled_http1_client ::
  "transport_identity \<Rightarrow> 'r hyper_executor \<Rightarrow> (upstream_error, pooled_http1_client) result \<times> 'r hyper_executor" where
  "get_or_create_pooled_http1_client transport x =
     (let m = he_pooled_http1_clients x in
      if mx_poisoned m then (Err ClientCachePoisoned, x)
      else case mx_value m transport of
             Some client \<Rightarrow> (Ok client, x)
           | None \<Rightarrow>
               (let client = build_pooled_http1_client transport
                in (Ok client, x\<lparr>he_pooled_http1_clients := m\<lparr>mx_value := (mx_value m)(transport \<mapsto> client)\<rparr>\<rparr>)))"

definition normalize_authority :: "string \<Rightarrow> u16 option \<Rightarrow> string" where
  "normalize_authority host port =
     (if contains_char host CHR '':'' \<and> \<not> starts_with host ''[''
      then (case port of Some port \<Rightarrow> ''['' @ host @ '']:'' @ decimal (unat port) | None \<Rightarrow> ''['' @ host @ '']'')
      else (case port of Some port \<Rightarrow> host @ '':'' @ decimal (unat port) | None \<Rightarrow> host))"

definition build_host_header :: "upstream_plan \<Rightarrow> (upstream_error, string) result" where
  "build_host_header upstream =
     (case up_host upstream of
        Some host \<Rightarrow> Ok host
      | None \<Rightarrow> ok_or NoTargetHost (url_host_str (up_url upstream)))"

definition build_request_authority :: "upstream_plan \<Rightarrow> (upstream_error, string) result" where
  "build_request_authority upstream =
     (case up_host upstream of
        Some host \<Rightarrow> Ok host
      | None \<Rightarrow>
          bind_r (ok_or NoTargetHost (url_host_str (up_url upstream))) (\<lambda>host.
          Ok (normalize_authority host (url_port (up_url upstream)))))"

definition normalize_dns_identity :: "dns_plan option \<Rightarrow> transport_dns_identity option" where
  "normalize_dns_identity dns =
     Option.bind dns (\<lambda>dns.
     case dp_mode dns of
       DnsSystem \<Rightarrow> None
     | DnsUdp \<Rightarrow> map_option TdUdp (dp_server dns)
     | DnsDot \<Rightarrow> map_option TdDot (dp_server dns)
     | DnsDoh \<Rightarrow> map_option TdDoh (dp_server dns))"

definition build_transport_identity :: "upstream_plan \<Rightarrow> (upstream_error, transport_identity) result" where
  "build_transport_identity upstream =
     bind_r (ok_or NoTargetHost (opt_or_else (up_connect_host upstream) (url_host_str (up_url upstream)))) (\<lambda>connect_host.
     bind_r (build_host_header upstream) (\<lambda>host_header.
     bind_r (build_request_authority upstream) (\<lambda>request_authority.
     bind_r (ok_or UnknownTargetPort (url_port_or_known_default (up_url upstream))) (\<lambda>port.
     bind_r (if url_scheme (up_url upstream) = ''http'' then Ok TransportHttp
             else if url_scheme (up_url upstream) = ''https'' then Ok TransportHttps
             else Err (UnsupportedUpstreamScheme (url_scheme (up_url upstream)))) (\<lambda>scheme.
     Ok \<lparr>ti_scheme = scheme, ti_connect_host = connect_host, ti_request_authority = request_authority, ti_port = port,
         ti_host_header = host_header, ti_sni = up_sni upstream, ti_connect_ip = up_connect_ip upstream,
         ti_dns = normalize_dns_identity (up_dns upstream)\<rparr>)))))"

definition build_resolver_identity :: "transport_identity \<Rightarrow> resolver_identity option" where
  "build_resolver_identity transport =
     (if ti_connect_ip transport \<noteq> None then None
      else case ti_dns transport of
             None \<Rightarrow> Some RiSystem
           | Some (TdUdp server) \<Rightarrow> Some (RiUdp server)
           | Some (TdDot server) \<Rightarrow> Some (RiDot server)
           | Some (TdDoh server) \<Rightarrow> Some (RiDoh server))"

definition build_path_and_query :: "upstream_plan \<Rightarrow> string" where
  "build_path_and_query upstream =
     (case url_query (up_url upstream) of
        Some query \<Rightarrow> url_path (up_url upstream) @ ''?'' @ query
      | None \<Rightarrow> url_path (up_url upstream))"

record prepared_execution =
  pe_scheme :: string
  pe_path_and_query :: string
  pe_transport :: transport_identity

definition prepare_execution :: "upstream_plan \<Rightarrow> (upstream_error, prepared_execution) result" where
  "prepare_execution upstream =
     bind_r (ok_or UnknownTargetPort (url_port_or_known_default (up_url upstream))) (\<lambda>port.
     bind_r (build_transport_identity upstream) (\<lambda>transport.
     Ok \<lparr>pe_scheme = url_scheme (up_url upstream), pe_path_and_query = build_path_and_query upstream, pe_transport = transport\<rparr>))"

definition build_pooled_request_uri ::
  "('h, 'b, 'j, 'r, 't, 's) upstream_env \<Rightarrow> transport_identity \<Rightarrow> upstream_plan \<Rightarrow> (upstream_error, http_uri) result" where
  "build_pooled_request_uri E transport upstream =
     ok_or (UriBuildFailed (ti_request_authority transport))
       (ue_uri_build E (scheme_label (ti_scheme transport)) (ti_request_authority transport) (build_path_and_query upstream))"

definition validate_pooled_request_uri :: "http_uri \<Rightarrow> transport_identity \<Rightarrow> (upstream_error, unit) result" where
  "validate_pooled_request_uri dst transport =
     bind_r (ok_or (UriMissingScheme dst) (hu_scheme dst)) (\<lambda>scheme.
     bind_r (ok_or (UriMissingAuthority dst) (hu_authority dst)) (\<lambda>authority.
     if scheme \<noteq> scheme_label (ti_scheme transport) \<or> authority \<noteq> ti_request_authority transport
     then Err (UriMismatch dst (scheme_label (ti_scheme transport)) (ti_request_authority transport)) else Ok ()))"

definition insert_end_to_end :: "('h, 'b, 'j) gateway_env \<Rightarrow> 'h \<Rightarrow> 'h \<Rightarrow> 'h" where
  "insert_end_to_end G inbound request_headers =
     fold (\<lambda>(name, value) hs. if is_end_to_end_header name then ge_headers_insert G name value hs else hs)
       (ge_headers_iter G inbound) request_headers"

definition build_request ::
  "('h, 'b, 'j, 'r, 't, 's) upstream_env \<Rightarrow> string \<Rightarrow> string \<Rightarrow> 'h \<Rightarrow> string \<Rightarrow> upstream_plan \<Rightarrow> 'b \<Rightarrow>
     (upstream_error, ('h, 'b) upstream_request) result" where
  "build_request E method request_uri inbound_headers original_url upstream body =
     (let G = ue_gateway E
      in bind_r (ok_or NoMutableHeaders (ue_uri_parse E request_uri)) (\<lambda>uri.
         let headers = insert_end_to_end G inbound_headers (ge_headers_new G)
         in bind_r (if url_as_str (up_url upstream) \<noteq> original_url
                    then bind_r (ok_or (InvalidOriginalUrlHeader original_url) (ge_header_value G original_url)) (\<lambda>v.
                         Ok (ge_headers_insert G ''x-anymirror-original-url'' v headers))
                    else Ok headers) (\<lambda>headers.
            Ok \<lparr>uq_method = method, uq_uri = uri, uq_headers = headers, uq_body = body\<rparr>)))"

definition execute_with_pooled_http ::
  "('h, 'b, 'j, 'r, 't, 's) upstream_env \<Rightarrow> string \<Rightarrow> 'h \<Rightarrow> string \<Rightarrow> upstream_plan \<Rightarrow> 'b \<Rightarrow> prepared_execution \<Rightarrow>
     'r hyper_executor \<Rightarrow> (upstream_error, ('h, 'b) http_response) result \<times> 'r hyper_executor" where
  "execute_with_pooled_http E method headers original_url upstream body prepared x =
     (case get_or_create_pooled_http1_client (pe_transport prepared) x of
        (Inl e, x) \<Rightarrow> (Err e, x)
      | (Inr client, x) \<Rightarrow>
          (bind_r (build_pooled_request_uri E (pe_transport prepared) upstream) (\<lambda>absolute_uri.
           bind_r (build_request E method (hu_text absolute_uri) headers original_url upstream body) (\<lambda>request.
           ok_or UpstreamRequestFailed (ue_client_request E client request))), x))"

definition execute ::
  "('h, 'b, 'j, 'r, 't, 's) upstream_env \<Rightarrow> string \<Rightarrow> 'h \<Rightarrow> string \<Rightarrow> upstream_plan \<Rightarrow> 'b \<Rightarrow>
     'r hyper_executor \<Rightarrow> (upstream_error, ('h, 'b) http_response) result \<times> 'r hyper_executor" where
  "execute E method inbound_headers original_url upstream body x =
     (case prepare_execution upstream of
        Inl e \<Rightarrow> (Err e, x)
      | Inr prepared \<Rightarrow> execute_with_pooled_http E method inbound_headers original_url upstream body prepared x)"

section \<open>Connecting (hyper.rs)\<close>

definition build_dns_lookup_key :: "resolver_identity \<Rightarrow> string \<Rightarrow> dns_lookup_key" where
  "build_dns_lookup_key resolver hostname = \<lparr>dk_resolver = resolver, dk_hostname = hostname\<rparr>"

definition get_cached_dns_result ::
  "instant \<Rightarrow> dns_lookup_key \<Rightarrow> 'r hyper_executor \<Rightarrow> (upstream_error, ip_addr option) result \<times> 'r hyper_executor" where
  "get_cached_dns_result now lookup_key x =
     (let m = he_dns_result_cache x in
      if mx_poisoned m then (Err DnsCachePoisoned, x)
      else case mx_value m lookup_key of
             Some entry \<Rightarrow>
               if cd_expires_at entry > now then (Ok (Some (cd_ip entry)), x)
               else (Ok None, x\<lparr>he_dns_result_cache := m\<lparr>mx_value := (mx_value m)(lookup_key := None)\<rparr>\<rparr>)
           | None \<Rightarrow> (Ok None, x))"

definition cache_dns_result ::
  "instant \<Rightarrow> dns_lookup_key \<Rightarrow> ip_addr \<Rightarrow> 'r hyper_executor \<Rightarrow> (upstream_error, unit) result \<times> 'r hyper_executor" where
  "cache_dns_result now lookup_key ip x =
     (let entry = \<lparr>cd_ip = ip, cd_expires_at = now + DNS_RESULT_CACHE_TTL\<rparr>; m = he_dns_result_cache x in
      if mx_poisoned m then (Err DnsCachePoisoned, x)
      else (Ok (), x\<lparr>he_dns_result_cache := m\<lparr>mx_value := (mx_value m)(lookup_key \<mapsto> entry)\<rparr>\<rparr>))"

definition create_resolver ::
  "('h, 'b, 'j, 'r, 't, 's) upstream_env \<Rightarrow> instant \<Rightarrow> resolver_identity \<Rightarrow> (upstream_error, 'r) result" where
  "create_resolver E t identity =
     (case identity of
        RiSystem \<Rightarrow> resolver_system E
      | RiUdp server \<Rightarrow> from_plan E t \<lparr>dp_mode = DnsUdp, dp_server = Some server\<rparr>
      | RiDot server \<Rightarrow> from_plan E t \<lparr>dp_mode = DnsDot, dp_server = Some server\<rparr>
      | RiDoh server \<Rightarrow> from_plan E t \<lparr>dp_mode = DnsDoh, dp_server = Some server\<rparr>)"

text \<open>The second critical section of \<^verbatim>\<open>get_or_create_resolver\<close>: the resolver another task stored meanwhile wins.\<close>

definition store_resolver ::
  "resolver_identity \<Rightarrow> 'r \<Rightarrow> 'r hyper_executor \<Rightarrow> (upstream_error, 'r) result \<times> 'r hyper_executor" where
  "store_resolver identity resolver x =
     (let m = he_resolver_cache x in
      if mx_poisoned m then (Err ResolverCachePoisoned, x)
      else case mx_value m identity of
             Some existing \<Rightarrow> (Ok existing, x)
           | None \<Rightarrow> (Ok resolver, x\<lparr>he_resolver_cache := m\<lparr>mx_value := (mx_value m)(identity \<mapsto> resolver)\<rparr>\<rparr>))"

definition get_or_create_resolver ::
  "('h, 'b, 'j, 'r, 't, 's) upstream_env \<Rightarrow> instant \<Rightarrow> resolver_identity \<Rightarrow> 'r hyper_executor \<Rightarrow>
     (upstream_error, 'r) result \<times> 'r hyper_executor" where
  "get_or_create_resolver E t identity x =
     (let m = he_resolver_cache x in
      if mx_poisoned m then (Err ResolverCachePoisoned, x)
      else case mx_value m identity of
             Some resolver \<Rightarrow> (Ok resolver, x)
           | None \<Rightarrow>
               (case create_resolver E t identity of
                  Inl e \<Rightarrow> (Err e, x)
                | Inr resolver \<Rightarrow> store_resolver identity resolver x))"

text \<open>The instants: the look-up in the cache, the creation of the resolver, the answer, and its entry into the cache.\<close>

record instants =
  at_lookup :: instant
  at_creation :: instant
  at_answer :: instant
  at_caching :: instant

definition resolve_connection_ip_for_transport ::
  "('h, 'b, 'j, 'r, 't, 's) upstream_env \<Rightarrow> instants \<Rightarrow> transport_identity \<Rightarrow> 'r hyper_executor \<Rightarrow>
     (upstream_error, ip_addr) result \<times> 'r hyper_executor" where
  "resolve_connection_ip_for_transport E c transport x =
     (case ti_connect_ip transport of
        Some ip \<Rightarrow> (Ok ip, x)
      | None \<Rightarrow>
         (case build_resolver_identity transport of
            None \<Rightarrow> (Err ResolverIdentityMissing, x)
          | Some identity \<Rightarrow>
             (let lookup_key = build_dns_lookup_key identity (ti_connect_host transport)
              in case get_cached_dns_result (at_lookup c) lookup_key x of
                   (Inl e, x) \<Rightarrow> (Err e, x)
                 | (Inr (Some cached_ip), x) \<Rightarrow> (Ok cached_ip, x)
                 | (Inr None, x) \<Rightarrow>
                    (case get_or_create_resolver E (at_creation c) identity x of
                       (Inl e, x) \<Rightarrow> (Err e, x)
                     | (Inr resolver, x) \<Rightarrow>
                        (case resolver_resolve E (at_answer c) resolver (ti_connect_host transport) of
                           Inl e \<Rightarrow> (Err e, x)
                         | Inr ip \<Rightarrow>
                            (case cache_dns_result (at_caching c) lookup_key ip x of
                               (Inl e, x) \<Rightarrow> (Err e, x)
                             | (Inr _, x) \<Rightarrow> (Ok ip, x)))))))"

datatype ('t, 's) pooled_upstream_stream = StreamTcp 't | StreamTls 's

record ('t, 's) pooled_connection =
  pn_inner :: "('t, 's) pooled_upstream_stream"
  pn_negotiated_h2 :: bool

definition negotiated_h2 :: "('h, 'b, 'j, 'r, 't, 's) upstream_env \<Rightarrow> 's \<Rightarrow> bool" where
  "negotiated_h2 E tls_stream \<longleftrightarrow> ue_alpn_protocol E tls_stream = Some ''h2''"

definition connector_call ::
  "('h, 'b, 'j, 'r, 't, 's) upstream_env \<Rightarrow> instants \<Rightarrow> transport_identity \<Rightarrow> http_uri \<Rightarrow> 'r hyper_executor \<Rightarrow>
     (upstream_error, ('t, 's) pooled_connection) result \<times> 'r hyper_executor" where
  "connector_call E c transport dst x =
     (case validate_pooled_request_uri dst transport of
        Inl e \<Rightarrow> (Err e, x)
      | Inr _ \<Rightarrow>
         (case resolve_connection_ip_for_transport E c transport x of
            (Inl e, x) \<Rightarrow> (Err e, x)
          | (Inr target_ip, x) \<Rightarrow>
             (let target_addr = \<lparr>sock_ip = target_ip, sock_port = ti_port transport, sock_scope_id = 0\<rparr>
              in bind_r (ok_or (TcpConnectFailed target_addr) (ue_tcp_connect E (at_caching c) target_addr)) (\<lambda>tcp.
                 if ti_scheme transport = TransportHttps
                 then (let sni = unwrap_or (ti_connect_host transport) (ti_sni transport)
                       in bind_r (ok_or (InvalidServerName sni) (ue_server_name E sni)) (\<lambda>domain.
                          bind_r (ok_or TlsHandshakeFailed (ue_tls_connect E (at_caching c) POOLED_HTTP_ALPN_PROTOCOLS domain tcp)) (\<lambda>tls_stream.
                          Ok \<lparr>pn_inner = StreamTls tls_stream, pn_negotiated_h2 = negotiated_h2 E tls_stream\<rparr>)))
                 else Ok \<lparr>pn_inner = StreamTcp tcp, pn_negotiated_h2 = False\<rparr>), x)))"

section \<open>The caches under interleaving\<close>

text \<open>
  Tasks share the executor. Between two critical sections of one task any other task may run, so the steps are the
  critical sections: the client cache, the look-up of an answer, the entry of a resolver that was created, and the entry
  of an answer that a cached resolver gave.
\<close>

inductive executor_step ::
  "('h, 'b, 'j, 'r, 't, 's) upstream_env \<Rightarrow> 'r hyper_executor \<Rightarrow> 'r hyper_executor \<Rightarrow> bool" for E where
  client: "get_or_create_pooled_http1_client transport x = (r, x') \<Longrightarrow> executor_step E x x'"
| lookup: "get_cached_dns_result now key x = (r, x') \<Longrightarrow> executor_step E x x'"
| resolver: "create_resolver E t identity = Ok res \<Longrightarrow> store_resolver identity res x = (r, x') \<Longrightarrow> executor_step E x x'"
| answer: "mx_value (he_resolver_cache x) identity = Some res \<Longrightarrow> resolver_resolve E a res host = Ok ip \<Longrightarrow> a \<le> now \<Longrightarrow>
    cache_dns_result now (build_dns_lookup_key identity host) ip x = (r, x') \<Longrightarrow> executor_step E x x'"

lemmas cache_ops = get_or_create_pooled_http1_client_def get_cached_dns_result_def store_resolver_def cache_dns_result_def Let_def

interpretation clients: keyed_cache hyper_executor_new "executor_step E" "\<lambda>x. mx_value (he_pooled_http1_clients x)"
  "\<lambda>transport client. client = build_pooled_http1_client transport" for E :: "('h, 'b, 'j, 'r, 't, 's) upstream_env"
proof unfold_locales
  fix x x' :: "'r hyper_executor" and k v
  assume "executor_step E x x'" "mx_value (he_pooled_http1_clients x') k = Some v"
  then show "mx_value (he_pooled_http1_clients x) k = Some v \<or> v = build_pooled_http1_client k"
    by cases (auto simp: cache_ops split: option.splits if_splits)
qed (simp add: hyper_executor_new_def mutex_new_def)

interpretation resolvers: keyed_cache hyper_executor_new "executor_step E" "\<lambda>x. mx_value (he_resolver_cache x)"
  "\<lambda>identity resolver. \<exists>t. create_resolver E t identity = Ok resolver" for E :: "('h, 'b, 'j, 'r, 't, 's) upstream_env"
proof unfold_locales
  fix x x' :: "'r hyper_executor" and k v
  assume "executor_step E x x'" "mx_value (he_resolver_cache x') k = Some v"
  then show "mx_value (he_resolver_cache x) k = Some v \<or> (\<exists>t. create_resolver E t k = Ok v)"
    by cases (auto simp: cache_ops split: option.splits if_splits)
qed (simp add: hyper_executor_new_def mutex_new_def)

text \<open>An answer for a key: given by a resolver that was created for the identity of the key, when it was stored or before.\<close>

definition answered ::
  "('h, 'b, 'j, 'r, 't, 's) upstream_env \<Rightarrow> dns_lookup_key \<Rightarrow> ip_addr \<Rightarrow> instant \<Rightarrow> bool" where
  "answered E key ip stored \<longleftrightarrow>
     (\<exists>t resolver a. create_resolver E t (dk_resolver key) = Ok resolver \<and> a \<le> stored
        \<and> resolver_resolve E a resolver (dk_hostname key) = Ok ip)"

interpretation dns_results: keyed_cache hyper_executor_new "executor_step E" "\<lambda>x. mx_value (he_dns_result_cache x)"
  "\<lambda>key entry. \<exists>stored. answered E key (cd_ip entry) stored \<and> cd_expires_at entry = stored + DNS_RESULT_CACHE_TTL"
  for E :: "('h, 'b, 'j, 'r, 't, 's) upstream_env"
proof unfold_locales
  fix x x' :: "'r hyper_executor" and k v
  assume reach: "(executor_step E)\<^sup>*\<^sup>* hyper_executor_new x" and step: "executor_step E x x'"
    and entry: "mx_value (he_dns_result_cache x') k = Some v"
  from step show "mx_value (he_dns_result_cache x) k = Some v
    \<or> (\<exists>stored. answered E k (cd_ip v) stored \<and> cd_expires_at v = stored + DNS_RESULT_CACHE_TTL)"
  proof cases
    case (answer identity res a host ip now r)
    have "answered E (build_dns_lookup_key identity host) ip now"
      using resolvers.cached_built [OF reach answer(1)] answer(2,3) by (auto simp: answered_def build_dns_lookup_key_def)
    with answer(4) entry show ?thesis by (fastforce simp: cache_ops split: if_splits)
  qed (use entry in \<open>auto simp: cache_ops split: option.splits if_splits\<close>)
qed (simp add: hyper_executor_new_def mutex_new_def)

lemma executor_never_poisoned:
  assumes "(executor_step E)\<^sup>*\<^sup>* hyper_executor_new x"
  shows "\<not> mx_poisoned (he_pooled_http1_clients x) \<and> \<not> mx_poisoned (he_resolver_cache x) \<and> \<not> mx_poisoned (he_dns_result_cache x)"
  using assms
proof (induction rule: rtranclp_induct)
  case (step x x')
  from step(2,3) show ?case by cases (auto simp: cache_ops split: option.splits if_splits)
qed (simp add: hyper_executor_new_def mutex_new_def)

text \<open>The operations that connect are runs of these steps.\<close>

lemma get_or_create_resolver_run:
  assumes "get_or_create_resolver E t identity x = (r, x')"
  shows "(executor_step E)\<^sup>*\<^sup>* x x'" "r = Ok resolver \<Longrightarrow> mx_value (he_resolver_cache x') identity = Some resolver"
  using assms by (auto simp: get_or_create_resolver_def store_resolver_def Let_def split: if_splits option.splits sum.splits
      intro!: r_into_rtranclp executor_step.resolver [of E t identity])

lemma resolve_connection_cases:
  assumes r: "resolve_connection_ip_for_transport E c transport x = (r, x')"
  obtains (same) "x' = x" "r = Ok ip \<Longrightarrow> ti_connect_ip transport \<noteq> None"
    | (looked) identity cached where "build_resolver_identity transport = Some identity"
        "get_cached_dns_result (at_lookup c) (build_dns_lookup_key identity (ti_connect_host transport)) x = (cached, x')" "r = Ok ip \<Longrightarrow> cached = Ok (Some ip)"
    | (missed) identity cached y res where "build_resolver_identity transport = Some identity"
        "get_cached_dns_result (at_lookup c) (build_dns_lookup_key identity (ti_connect_host transport)) x = (cached, y)"
        "get_or_create_resolver E (at_creation c) identity y = (res, x')" "r \<noteq> Ok ip"
    | (found) identity cached y resolver z ip' stored where "build_resolver_identity transport = Some identity"
        "get_cached_dns_result (at_lookup c) (build_dns_lookup_key identity (ti_connect_host transport)) x = (cached, y)"
        "get_or_create_resolver E (at_creation c) identity y = (Ok resolver, z)"
        "resolver_resolve E (at_answer c) resolver (ti_connect_host transport) = Ok ip'"
        "cache_dns_result (at_caching c) (build_dns_lookup_key identity (ti_connect_host transport)) ip' z = (stored, x')" "r = Ok ip \<Longrightarrow> ip' = ip"
proof (cases "build_resolver_identity transport")
  case None
  then show thesis using r same by (auto simp: resolve_connection_ip_for_transport_def split: option.splits)
next
  case (Some identity)
  have ip: "ti_connect_ip transport = None" using Some by (auto simp: build_resolver_identity_def split: if_splits)
  obtain cached y where look: "get_cached_dns_result (at_lookup c) (build_dns_lookup_key identity (ti_connect_host transport)) x = (cached, y)" by fastforce
  show thesis
  proof (cases "cached = Ok None")
    case False
    then show thesis using r look looked [OF Some, of cached] ip Some
      by (auto simp: resolve_connection_ip_for_transport_def split: sum.splits option.splits)
  next
    case True
    obtain res z where res: "get_or_create_resolver E (at_creation c) identity y = (res, z)" by fastforce
    show thesis
    proof (cases "\<exists>resolver ip'. res = Ok resolver \<and> resolver_resolve E (at_answer c) resolver (ti_connect_host transport) = Ok ip'")
      case False
      then show thesis using r missed [OF Some look, of res] res look True ip Some
        by (auto simp: resolve_connection_ip_for_transport_def split: sum.splits dest!: sym [of "Err _"])
    next
      case ok: True
      then obtain resolver ip' where rr: "res = Ok resolver" "resolver_resolve E (at_answer c) resolver (ti_connect_host transport) = Ok ip'" by blast
      obtain stored w where "cache_dns_result (at_caching c) (build_dns_lookup_key identity (ti_connect_host transport)) ip' z = (stored, w)" by fastforce
      then show thesis using r rr found [OF Some look, of resolver z ip' stored] res look True ip Some
        by (auto simp: resolve_connection_ip_for_transport_def split: sum.splits dest!: sym [of "Ok _"])
    qed
  qed
qed

lemma resolve_connection_run:
  assumes reach: "(executor_step E)\<^sup>*\<^sup>* hyper_executor_new x" and order: "at_lookup c \<le> at_caching c" "at_answer c \<le> at_caching c"
    and r: "resolve_connection_ip_for_transport E c transport x = (r, x')"
  shows "(executor_step E)\<^sup>*\<^sup>* x x'"
    and "r = Ok ip \<Longrightarrow> ti_connect_ip transport = None \<Longrightarrow> \<exists>identity stored. build_resolver_identity transport = Some identity
      \<and> answered E (build_dns_lookup_key identity (ti_connect_host transport)) ip stored \<and> at_lookup c < stored + DNS_RESULT_CACHE_TTL"
proof -
  let ?key = "\<lambda>identity. build_dns_lookup_key identity (ti_connect_host transport)"
  have cached: "\<exists>stored. answered E key ip stored \<and> at_lookup c < stored + DNS_RESULT_CACHE_TTL"
    if "get_cached_dns_result (at_lookup c) key x = (Ok (Some ip), x')" for key
    using that dns_results.cached_built [OF reach, of key] by (fastforce simp: get_cached_dns_result_def Let_def split: if_splits option.splits)
  show "(executor_step E)\<^sup>*\<^sup>* x x'"
  proof (cases rule: resolve_connection_cases [where ip = ip, OF r, case_names same looked missed found])
    case (found identity cached y resolver z ip' stored)
    note run = get_or_create_resolver_run [OF found(3)]
    have "executor_step E x y" "executor_step E z x'"
      using executor_step.lookup [OF found(2)] executor_step.answer [OF run(2) found(4) order(2) found(5)] by auto
    with run(1) show ?thesis by (metis converse_rtranclp_into_rtranclp rtranclp.rtrancl_into_rtrancl)
  next
    case (missed identity cached y res)
    then show ?thesis using executor_step.lookup [OF missed(2)] get_or_create_resolver_run(1) [OF missed(3)]
      by (metis converse_rtranclp_into_rtranclp)
  qed (auto intro: executor_step.lookup)
  show "\<exists>identity stored. build_resolver_identity transport = Some identity
      \<and> answered E (?key identity) ip stored \<and> at_lookup c < stored + DNS_RESULT_CACHE_TTL"
    if "r = Ok ip" "ti_connect_ip transport = None"
  proof (cases rule: resolve_connection_cases [where ip = ip, OF r, case_names same looked missed found])
    case (found identity cached y resolver z ip' stored)
    note run = get_or_create_resolver_run [OF found(3)]
    have "(executor_step E)\<^sup>*\<^sup>* hyper_executor_new z"
      using reach executor_step.lookup [OF found(2)] run(1) by (meson rtranclp.rtrancl_into_rtrancl rtranclp_trans)
    then have "answered E (?key identity) ip (at_caching c)"
      using resolvers.cached_built [OF _ run(2)] found(4,6) that(1) order(2) by (fastforce simp: answered_def build_dns_lookup_key_def)
    moreover have "at_lookup c < at_caching c + DNS_RESULT_CACHE_TTL" using order(1) by (simp add: DNS_RESULT_CACHE_TTL_def)
    ultimately show ?thesis using found(1) by blast
  qed (use that cached in auto)
qed

section \<open>What is sent\<close>

text \<open>What the crates promise: a built URI has the parts it was built from and reads back, and a header map is a map.\<close>

definition uri_laws :: "('h, 'b, 'j, 'r, 't, 's) upstream_env \<Rightarrow> bool" where
  "uri_laws E \<longleftrightarrow> (\<forall>s a p u. ue_uri_build E s a p = Some u \<longrightarrow>
     hu_scheme u = Some s \<and> hu_authority u = Some a \<and> ue_uri_parse E (hu_text u) = Some u)"

definition header_map_laws :: "('h, 'b, 'j) gateway_env \<Rightarrow> bool" where
  "header_map_laws G \<longleftrightarrow> (\<forall>n. ge_headers_get G (ge_headers_new G) n = None)
     \<and> (\<forall>n v h k. ge_headers_get G (ge_headers_insert G n v h) k = (if k = n then Some v else ge_headers_get G h k))"

lemma get_insert_end_to_end:
  assumes "header_map_laws G"
  shows "ge_headers_get G (insert_end_to_end G inbound h) name =
    (if is_end_to_end_header name
     then opt_or_else (map_of (rev (ge_headers_iter G inbound)) name) (ge_headers_get G h name) else ge_headers_get G h name)"
proof -
  have "ge_headers_get G (fold (\<lambda>(name, value) hs. if is_end_to_end_header name then ge_headers_insert G name value hs else hs) nvs h) name =
    (if is_end_to_end_header name then opt_or_else (map_of (rev nvs) name) (ge_headers_get G h name) else ge_headers_get G h name)" for nvs
    using assms by (induction nvs arbitrary: h) (auto simp: header_map_laws_def map_add_def opt_or_else_def split: option.splits)
  then show ?thesis by (simp add: insert_end_to_end_def)
qed

lemma build_request_sends:
  assumes laws: "header_map_laws (ue_gateway E)" and r: "build_request E method uri inbound original upstream body = Ok request"
  shows "uq_method request = method" "uq_body request = body" "ue_uri_parse E uri = Some (uq_uri request)"
    and "name \<noteq> ''x-anymirror-original-url'' \<Longrightarrow> ge_headers_get (ue_gateway E) (uq_headers request) name =
      (if is_end_to_end_header name then map_of (rev (ge_headers_iter (ue_gateway E) inbound)) name else None)"
    and "url_as_str (up_url upstream) \<noteq> original \<Longrightarrow>
      ge_headers_get (ue_gateway E) (uq_headers request) ''x-anymirror-original-url'' = ge_header_value (ue_gateway E) original"
proof -
  let ?G = "ue_gateway E"
  let ?h = "insert_end_to_end ?G inbound (ge_headers_new ?G)"
  have h: "ge_headers_get ?G ?h n = (if is_end_to_end_header n then map_of (rev (ge_headers_iter ?G inbound)) n else None)" for n
    using laws get_insert_end_to_end [OF laws, of inbound "ge_headers_new ?G" n]
    by (simp add: header_map_laws_def opt_or_else_def split: option.splits)
  have ins: "ge_headers_get ?G (ge_headers_insert ?G n v k) m = (if m = n then Some v else ge_headers_get ?G k m)" for n v k m
    using laws by (simp add: header_map_laws_def)
  from r obtain u headers where request: "request = \<lparr>uq_method = method, uq_uri = u, uq_headers = headers, uq_body = body\<rparr>"
    and u: "ue_uri_parse E uri = Some u"
    and headers: "(if url_as_str (up_url upstream) \<noteq> original
       then bind_r (ok_or (InvalidOriginalUrlHeader original) (ge_header_value ?G original)) (\<lambda>v.
            Ok (ge_headers_insert ?G ''x-anymirror-original-url'' v ?h)) else Ok ?h) = Ok headers"
    by (auto simp: build_request_def Let_def bind_r_Ok_iff ok_or_Ok_iff)
  show "uq_method request = method" "uq_body request = body" "ue_uri_parse E uri = Some (uq_uri request)"
    using u by (simp_all add: request)
  show "ge_headers_get ?G (uq_headers request) name =
      (if is_end_to_end_header name then map_of (rev (ge_headers_iter ?G inbound)) name else None)"
    if "name \<noteq> ''x-anymirror-original-url''"
    using headers that by (auto simp: request h ins result_simps split: if_splits)
  show "ge_headers_get ?G (uq_headers request) ''x-anymirror-original-url'' = ge_header_value ?G original"
    if "url_as_str (up_url upstream) \<noteq> original"
    using headers that by (auto simp: request ins result_simps)
qed

lemma validate_built_uri:
  assumes "uri_laws E" "build_pooled_request_uri E transport upstream = Ok u"
  shows "validate_pooled_request_uri u transport = Ok ()" "ue_uri_parse E (hu_text u) = Some u"
  using assms by (auto simp: uri_laws_def build_pooled_request_uri_def validate_pooled_request_uri_def result_simps)

text \<open>The transport identity keeps the DNS settings of a compiled plan.\<close>

lemma create_resolver_follows_plan:
  assumes "upstream_wf upstream" "build_transport_identity upstream = Ok transport"
    and "build_resolver_identity transport = Some identity"
  shows "create_resolver E t identity =
    (case up_dns upstream of None \<Rightarrow> resolver_system E | Some plan \<Rightarrow> from_plan E t plan)"
proof -
  have t: "ti_dns transport = normalize_dns_identity (up_dns upstream)"
    using assms(2) by (auto simp: build_transport_identity_def result_simps)
  show ?thesis
  proof (cases "up_dns upstream")
    case None
    then show ?thesis using assms(3) t
      by (auto simp: build_resolver_identity_def normalize_dns_identity_def create_resolver_def split: if_splits)
  next
    case (Some plan)
    then have "dp_mode plan = DnsSystem \<longleftrightarrow> dp_server plan = None" using assms(1) by (simp add: upstream_wf_def)
    then show ?thesis using Some assms(3) t
      by (cases "dp_mode plan") (auto simp: build_resolver_identity_def normalize_dns_identity_def create_resolver_def
          from_plan_def require_server_def split: if_splits)
  qed
qed

lemma bracketed_host_is_looked_up:
  "resolver_resolve E t resolver (CHR ''['' # h) =
     bind_r (ok_or (DnsFailed (CHR ''['' # h)) (ue_lookup_ip E t resolver (CHR ''['' # h))) (\<lambda>lookup.
       case lookup of ip # _ \<Rightarrow> Ok ip | [] \<Rightarrow> Err (NoDnsRecords (CHR ''['' # h)))"
  by (simp add: resolver_resolve_def parse_ip_addr_bracket starts_with_def)

section \<open>Properties\<close>

text \<open>A concrete network: one name server answers every name with the same address, and one URI can be built.\<close>

definition sample_http :: "((string \<times> string) list, string, string) gateway_env" where
  "sample_http =
     \<lparr>ge_plugins = sample_plugin_env (sample_answer PaDirect None), ge_status_from_u16 = (\<lambda>s. 100 \<le> s \<and> s \<le> 999), ge_method_parse = Some,
      ge_header_name = Some, ge_header_value = Some, ge_value_to_str = Some, ge_headers_new = [],
      ge_headers_append = \<lambda>n v h. h @ [(n, v)], ge_headers_insert = \<lambda>n v h. (n, v) # h,
      ge_headers_remove = \<lambda>n. filter (\<lambda>p. fst p \<noteq> n), ge_headers_get = map_of, ge_headers_iter = id, ge_body_from = id,
      ge_body_collect = Some, ge_base64_encode = id, ge_read_file = \<lambda>_. None, ge_execute = \<lambda>_ _ _ _ _. None\<rparr>"

definition sample_net :: "((string \<times> string) list, string, string, name_server_group option, unit, unit) upstream_env" where
  "sample_net =
     (let u = \<lparr>hu_text = ''http://m.io/'', hu_scheme = Some ''http'', hu_authority = Some ''m.io''\<rparr>
      in \<lparr>ue_gateway = sample_http, ue_system_resolver = Some None, ue_build_resolver = Some,
          ue_lookup_ip = \<lambda>_ _ _. Some [V4 0x0A000001],
          ue_uri_build = \<lambda>s a p. if (s, a, p) = (''http'', ''m.io'', ''/'') then Some u else None, ue_uri_parse = \<lambda>_. Some u,
          ue_tcp_connect = \<lambda>_ _. Some (), ue_server_name = Some, ue_tls_connect = \<lambda>_ _ _ _. Some (), ue_alpn_protocol = \<lambda>_. None,
          ue_client_request = \<lambda>_ r. Some \<lparr>hr_status = 200, hr_headers = uq_headers r, hr_body = uq_body r\<rparr>\<rparr>)"

definition sample_upstream :: upstream_plan where
  "sample_upstream = \<lparr>up_url = \<lparr>url_scheme = ''http'', url_host_str = Some ''m.io'', url_port = None, url_port_or_known_default = Some 80,
      url_path = ''/'', url_query = None, url_fragment = None, url_as_str = ''http://m.io/''\<rparr>,
     up_sni = None, up_host = None, up_connect_host = None, up_connect_ip = None,
     up_dns = Some \<lparr>dp_mode = DnsUdp, dp_server = Some ''1.1.1.1:53''\<rparr>\<rparr>"

definition sample_transport :: transport_identity where
  "sample_transport = \<lparr>ti_scheme = TransportHttp, ti_connect_host = ''m.io'', ti_request_authority = ''m.io'', ti_port = 80,
     ti_host_header = ''m.io'', ti_sni = None, ti_connect_ip = None, ti_dns = Some (TdUdp ''1.1.1.1:53'')\<rparr>"

lemma sample_transport_built: "build_transport_identity sample_upstream = Ok sample_transport"
  by (simp add: build_transport_identity_def sample_upstream_def sample_transport_def build_host_header_def
      build_request_authority_def normalize_authority_def contains_char_def normalize_dns_identity_def)

lemma sample_prepared:
  "prepare_execution sample_upstream = Ok \<lparr>pe_scheme = ''http'', pe_path_and_query = ''/'', pe_transport = sample_transport\<rparr>"
  by (simp add: prepare_execution_def sample_transport_built) (simp add: sample_upstream_def build_path_and_query_def)

lemma sample_server: "parse_socket_addr ''1.1.1.1:53'' = Some \<lparr>sock_ip = V4 0x01010101, sock_port = 53, sock_scope_id = 0\<rparr>"
  by (simp add: parse_socket_addr_def read_socket_addr_v4_def read_port_def ip_parse_eval)

lemma sample_resolved:
  "\<exists>x'. resolve_connection_ip_for_transport sample_net \<lparr>at_lookup = 0, at_creation = 1, at_answer = 2, at_caching = 3\<rparr>
     sample_transport hyper_executor_new = (Ok (V4 0x0A000001), x')"
  by (simp add: resolve_connection_ip_for_transport_def sample_transport_def build_resolver_identity_def cache_ops
      hyper_executor_new_def mutex_new_def get_or_create_resolver_def create_resolver_def from_plan_def require_server_def
      resolver_udp_def parse_dns_server_addr_def contains_char_def sample_server resolver_resolve_def sample_net_def ip_parse_eval)





end
