(* ===== verification/Tls_Intercept.thy ===== *)
theory Tls_Intercept
  imports Net_Types
begin

text \<open>
  TLS interception: \<^verbatim>\<open>src/src/gateway/transport/tls.rs\<close>. The service keeps the certificate authority and a cache of
  certified keys per host; the two certificate resolvers choose a key for a client hello. Key generation, signing and parsing
  (\<^verbatim>\<open>rcgen\<close>, \<^verbatim>\<open>rustls\<close>) and the files are the fields of \<open>tls_env\<close>; a generated key depends on the seed of the
  call. Log lines are left out.
\<close>

section \<open>The certificate authority\<close>

datatype key_usage = DigitalSignature | KeyEncipherment | KeyCertSign | CrlSign

record certificate_params =
  cp_subject_alt_names :: "string list"
  cp_common_name :: string
  cp_is_ca :: bool
  cp_key_usages :: "key_usage list"
  cp_server_auth :: bool

datatype leaf_key_algorithm = EcdsaKey | RsaKey

record ('c, 'k) certified_key =
  ck_certs :: "'c list"
  ck_key :: 'k

record ('c, 'k) host_key_pair =
  hk_ecdsa :: "('c, 'k) certified_key"
  hk_rsa :: "('c, 'k) certified_key"

datatype tls_error =
    CertificateCachePoisoned | CaKeyParseFailed | CaParamsFailed | LeafParamsFailed string | LeafKeyFailed leaf_key_algorithm
  | LeafSignFailed | ChainParseFailed | PrivateKeyFailed | UnsupportedKey | CaReadFailed | CaKeyGenerationFailed | CaSignFailed
  | CaWriteFailed

text \<open>\<open>'p\<close> is a key pair, \<open>'k\<close> a signing key and \<open>'c\<close> a certificate.\<close>

record ('p, 'c, 'k) tls_env =
  te_params_new :: "string list \<Rightarrow> bool"
  te_key_from_pem :: "string \<Rightarrow> 'p option"
  te_generate_key :: "nat \<Rightarrow> leaf_key_algorithm \<Rightarrow> 'p option"
  te_generate_ca_key :: "nat \<Rightarrow> 'p option"
  te_self_signed :: "certificate_params \<Rightarrow> 'p \<Rightarrow> string option"
  te_signed_by :: "certificate_params \<Rightarrow> 'p \<Rightarrow> certificate_params \<times> 'p \<Rightarrow> string option"
  te_serialize_pem :: "'p \<Rightarrow> string"
  te_pem_certs :: "string \<Rightarrow> 'c list option"
  te_pem_private_key :: "string \<Rightarrow> string option"
  te_signing_key :: "string \<Rightarrow> 'k option"
  te_choose_scheme :: "'k \<Rightarrow> nat list \<Rightarrow> bool"
  te_write :: "string \<Rightarrow> string \<Rightarrow> bool"

definition build_ca_params :: "('p, 'c, 'k) tls_env \<Rightarrow> (tls_error, certificate_params) result" where
  "build_ca_params E =
     bind_r (ensure_r (te_params_new E [''anymirror-ca'']) CaParamsFailed) (\<lambda>_.
     Ok \<lparr>cp_subject_alt_names = [''anymirror-ca''], cp_common_name = ''AnyMirror CA'', cp_is_ca = True,
         cp_key_usages = [KeyCertSign, CrlSign, DigitalSignature], cp_server_auth = False\<rparr>)"

text \<open>The files of the working directory; a write that fails leaves them as they are.\<close>

type_synonym files = "string \<rightharpoonup> string"

definition get_or_generate_ca_cert ::
  "('p, 'c, 'k) tls_env \<Rightarrow> nat \<Rightarrow> files \<Rightarrow> (tls_error, string \<times> string) result \<times> files" where
  "get_or_generate_ca_cert E seed fs =
     (case (fs ''anymirror_ca.crt'', fs ''anymirror_ca.key'') of
        (Some cert_pem, Some key_pem) \<Rightarrow> (Ok (cert_pem, key_pem), fs)
      | _ \<Rightarrow>
         (case bind_r (build_ca_params E) (\<lambda>ca_params.
               bind_r (ok_or CaKeyGenerationFailed (te_generate_ca_key E seed)) (\<lambda>ca_key.
               bind_r (ok_or CaSignFailed (te_self_signed E ca_params ca_key)) (\<lambda>cert_pem.
               Ok (cert_pem, te_serialize_pem E ca_key)))) of
            Inl e \<Rightarrow> (Err e, fs)
          | Inr (cert_pem, key_pem) \<Rightarrow>
             (if te_write E ''anymirror_ca.crt'' cert_pem
              then (let fs = fs(''anymirror_ca.crt'' \<mapsto> cert_pem)
                    in if te_write E ''anymirror_ca.key'' key_pem
                       then (Ok (cert_pem, key_pem), fs(''anymirror_ca.key'' \<mapsto> key_pem))
                       else (Err CaWriteFailed, fs))
              else (Err CaWriteFailed, fs))))"

section \<open>Leaf certificates\<close>

definition leaf_params :: "string \<Rightarrow> certificate_params" where
  "leaf_params hostname =
     \<lparr>cp_subject_alt_names = [hostname], cp_common_name = hostname, cp_is_ca = False,
      cp_key_usages = [DigitalSignature, KeyEncipherment], cp_server_auth = True\<rparr>"

definition build_leaf_certified_key ::
  "('p, 'c, 'k) tls_env \<Rightarrow> nat \<Rightarrow> string \<Rightarrow> string \<Rightarrow> certificate_params \<times> 'p \<Rightarrow> leaf_key_algorithm \<Rightarrow>
     (tls_error, ('c, 'k) certified_key) result" where
  "build_leaf_certified_key E seed hostname ca_cert_pem ca_issuer algorithm =
     bind_r (ensure_r (te_params_new E [hostname]) (LeafParamsFailed hostname)) (\<lambda>_.
     bind_r (ok_or (LeafKeyFailed algorithm) (te_generate_key E seed algorithm)) (\<lambda>leaf_key.
     bind_r (ok_or LeafSignFailed (te_signed_by E (leaf_params hostname) leaf_key ca_issuer)) (\<lambda>leaf_cert_pem.
     bind_r (ok_or ChainParseFailed (te_pem_certs E (leaf_cert_pem @ [CHR 0x0A] @ ca_cert_pem))) (\<lambda>certs.
     bind_r (ok_or PrivateKeyFailed (te_pem_private_key E (te_serialize_pem E leaf_key))) (\<lambda>private_key.
     bind_r (ok_or UnsupportedKey (te_signing_key E private_key)) (\<lambda>signing_key.
     Ok \<lparr>ck_certs = certs, ck_key = signing_key\<rparr>))))))"

record ('c, 'k) tls_intercept_state =
  ts_ca_cert_pem :: string
  ts_ca_key_pem :: string
  ts_cache :: "(string \<rightharpoonup> ('c, 'k) host_key_pair) mutex"

definition tls_intercept_new :: "string \<Rightarrow> string \<Rightarrow> ('c, 'k) tls_intercept_state" where
  "tls_intercept_new ca_cert_pem ca_key_pem =
     \<lparr>ts_ca_cert_pem = ca_cert_pem, ts_ca_key_pem = ca_key_pem, ts_cache = mutex_new Map.empty\<rparr>"

text \<open>The keys for a host: one of each algorithm, from two generated key pairs.\<close>

definition issue_host_keys ::
  "('p, 'c, 'k) tls_env \<Rightarrow> nat \<times> nat \<Rightarrow> string \<Rightarrow> string \<Rightarrow> string \<Rightarrow> (tls_error, ('c, 'k) host_key_pair) result" where
  "issue_host_keys E seeds ca_cert_pem ca_key_pem hostname =
     bind_r (ok_or CaKeyParseFailed (te_key_from_pem E ca_key_pem)) (\<lambda>ca_key.
     bind_r (build_ca_params E) (\<lambda>ca_params.
     bind_r (build_leaf_certified_key E (fst seeds) hostname ca_cert_pem (ca_params, ca_key) EcdsaKey) (\<lambda>ecdsa.
     bind_r (build_leaf_certified_key E (snd seeds) hostname ca_cert_pem (ca_params, ca_key) RsaKey) (\<lambda>rsa.
     Ok \<lparr>hk_ecdsa = ecdsa, hk_rsa = rsa\<rparr>))))"

definition cache_host_keys ::
  "string \<Rightarrow> ('c, 'k) host_key_pair \<Rightarrow> ('c, 'k) tls_intercept_state \<Rightarrow>
     (tls_error, ('c, 'k) host_key_pair) result \<times> ('c, 'k) tls_intercept_state" where
  "cache_host_keys hostname keys st =
     (if mx_poisoned (ts_cache st) then (Err CertificateCachePoisoned, st)
      else (Ok keys, st\<lparr>ts_cache := (ts_cache st)\<lparr>mx_value := (mx_value (ts_cache st))(hostname \<mapsto> keys)\<rparr>\<rparr>))"

definition host_certified_keys ::
  "('p, 'c, 'k) tls_env \<Rightarrow> nat \<times> nat \<Rightarrow> string \<Rightarrow> ('c, 'k) tls_intercept_state \<Rightarrow>
     (tls_error, ('c, 'k) host_key_pair) result \<times> ('c, 'k) tls_intercept_state" where
  "host_certified_keys E seeds hostname st =
     (if mx_poisoned (ts_cache st) then (Err CertificateCachePoisoned, st)
      else case mx_value (ts_cache st) hostname of
             Some keys \<Rightarrow> (Ok keys, st)
           | None \<Rightarrow>
               (case issue_host_keys E seeds (ts_ca_cert_pem st) (ts_ca_key_pem st) hostname of
                  Inl e \<Rightarrow> (Err e, st)
                | Inr keys \<Rightarrow> cache_host_keys hostname keys st))"

section \<open>Choosing a key\<close>

definition select_certified_key_algorithm ::
  "('p, 'c, 'k) tls_env \<Rightarrow> ('c, 'k) host_key_pair \<Rightarrow> nat list \<Rightarrow> string" where
  "select_certified_key_algorithm E keys signature_schemes =
     (if te_choose_scheme E (ck_key (hk_rsa keys)) signature_schemes then ''rsa''
      else if te_choose_scheme E (ck_key (hk_ecdsa keys)) signature_schemes then ''ecdsa''
      else ''rsa-fallback'')"

definition select_certified_key ::
  "('p, 'c, 'k) tls_env \<Rightarrow> ('c, 'k) host_key_pair \<Rightarrow> nat list \<Rightarrow> ('c, 'k) certified_key" where
  "select_certified_key E keys signature_schemes =
     (let algorithm = select_certified_key_algorithm E keys signature_schemes
      in if algorithm = ''rsa'' then hk_rsa keys
         else if algorithm = ''ecdsa'' then hk_ecdsa keys
         else hk_rsa keys)"

definition certified_key_for_host ::
  "('p, 'c, 'k) tls_env \<Rightarrow> nat \<times> nat \<Rightarrow> string \<Rightarrow> nat list \<Rightarrow> ('c, 'k) tls_intercept_state \<Rightarrow>
     (tls_error, ('c, 'k) certified_key) result \<times> ('c, 'k) tls_intercept_state" where
  "certified_key_for_host E seeds hostname signature_schemes st =
     (case host_certified_keys E seeds hostname st of
        (Inl e, st) \<Rightarrow> (Err e, st)
      | (Inr keys, st) \<Rightarrow> (Ok (select_certified_key E keys signature_schemes), st))"

record client_hello =
  ch_server_name :: "string option"
  ch_signature_schemes :: "nat list"

definition dynamic_resolve ::
  "('p, 'c, 'k) tls_env \<Rightarrow> nat \<times> nat \<Rightarrow> client_hello \<Rightarrow> ('c, 'k) tls_intercept_state \<Rightarrow>
     ('c, 'k) certified_key option \<times> ('c, 'k) tls_intercept_state" where
  "dynamic_resolve E seeds hello st =
     (case ch_server_name hello of
        None \<Rightarrow> (None, st)
      | Some hostname \<Rightarrow>
          (case certified_key_for_host E seeds hostname (ch_signature_schemes hello) st of (r, st) \<Rightarrow> (result_ok r, st)))"

definition fixed_resolve ::
  "('p, 'c, 'k) tls_env \<Rightarrow> nat \<times> nat \<Rightarrow> string \<Rightarrow> client_hello \<Rightarrow> ('c, 'k) tls_intercept_state \<Rightarrow>
     ('c, 'k) certified_key option \<times> ('c, 'k) tls_intercept_state" where
  "fixed_resolve E seeds hostname hello st =
     (case certified_key_for_host E seeds hostname (ch_signature_schemes hello) st of (r, st) \<Rightarrow> (result_ok r, st))"

definition SERVER_ALPN_PROTOCOLS :: "string list" where "SERVER_ALPN_PROTOCOLS = [''h2'', ''http/1.1'']"

section \<open>The TLS listener\<close>

text \<open>
  The accept loop: what its \<^verbatim>\<open>select!\<close> delivers, in order. A connection is the number of its task; every event is one
  of the branches. The loop ends with the shutdown signal and the set of tasks is then joined.
\<close>

datatype tls_listener_event = ShutdownSignal | TaskFinished nat | AcceptFailed | Accepted nat

fun tls_accept_loop :: "tls_listener_event list \<Rightarrow> nat list \<Rightarrow> nat list" where
  "tls_accept_loop [] tasks = tasks"
| "tls_accept_loop (ShutdownSignal # _) tasks = tasks"
| "tls_accept_loop (TaskFinished n # events) tasks =
     (if tasks = [] then tls_accept_loop events tasks else tls_accept_loop events (remove1 n tasks))"
| "tls_accept_loop (AcceptFailed # events) tasks = tls_accept_loop events tasks"
| "tls_accept_loop (Accepted n # events) tasks = tls_accept_loop events (tasks @ [n])"

section \<open>The cache under interleaving\<close>

text \<open>Tasks that serve different connections share the state; the entry of issued keys is the step that changes it.\<close>

inductive tls_step ::
  "('p, 'c, 'k) tls_env \<Rightarrow> ('c, 'k) tls_intercept_state \<Rightarrow> ('c, 'k) tls_intercept_state \<Rightarrow> bool" for E where
  issue: "issue_host_keys E seeds (ts_ca_cert_pem st) (ts_ca_key_pem st) hostname = Ok keys \<Longrightarrow>
    cache_host_keys hostname keys st = (r, st') \<Longrightarrow> tls_step E st st'"

lemma tls_step_ca:
  "(tls_step E)\<^sup>*\<^sup>* st st' \<Longrightarrow> ts_ca_cert_pem st' = ts_ca_cert_pem st \<and> ts_ca_key_pem st' = ts_ca_key_pem st"
  by (induction rule: rtranclp_induct) (auto elim!: tls_step.cases simp: cache_host_keys_def split: if_splits)

interpretation certificates: keyed_cache "tls_intercept_new cert key" "tls_step E" "\<lambda>st. mx_value (ts_cache st)"
  "\<lambda>hostname keys. \<exists>seeds. issue_host_keys E seeds cert key hostname = Ok keys"
  for E :: "('p, 'c, 'k) tls_env" and cert key
proof unfold_locales
  fix st st' :: "('c, 'k) tls_intercept_state" and hostname keys
  assume reach: "(tls_step E)\<^sup>*\<^sup>* (tls_intercept_new cert key) st" and step: "tls_step E st st'"
    and entry: "mx_value (ts_cache st') hostname = Some keys"
  have "ts_ca_cert_pem st = cert" "ts_ca_key_pem st = key" using tls_step_ca [OF reach] by (simp_all add: tls_intercept_new_def)
  then show "mx_value (ts_cache st) hostname = Some keys \<or> (\<exists>seeds. issue_host_keys E seeds cert key hostname = Ok keys)"
    using step entry by (auto elim!: tls_step.cases simp: cache_host_keys_def split: if_splits)
qed (simp add: tls_intercept_new_def mutex_new_def)

lemma host_keys_run:
  assumes reach: "(tls_step E)\<^sup>*\<^sup>* (tls_intercept_new cert key) st" and r: "host_certified_keys E seeds hostname st = (r, st')"
  shows "(tls_step E)\<^sup>*\<^sup>* st st'" "r = Ok keys \<Longrightarrow> \<exists>seeds. issue_host_keys E seeds cert key hostname = Ok keys"
proof -
  have run: "st' = st \<or> tls_step E st st'"
    using r by (auto simp: host_certified_keys_def split: if_splits option.splits sum.splits intro: tls_step.issue)
  then show "(tls_step E)\<^sup>*\<^sup>* st st'" by auto
  show "\<exists>seeds. issue_host_keys E seeds cert key hostname = Ok keys" if "r = Ok keys"
  proof -
    have "mx_value (ts_cache st') hostname = Some keys"
      using r that by (auto simp: host_certified_keys_def cache_host_keys_def split: if_splits option.splits sum.splits)
    moreover have "(tls_step E)\<^sup>*\<^sup>* (tls_intercept_new cert key) st'" using reach run by auto
    ultimately show ?thesis by (rule certificates.cached_built [rotated])
  qed
qed

section \<open>Properties\<close>

text \<open>
  C30. The certificate a client is shown is for its host. Whatever other hosts were served before, the key that
  either resolver returns belongs to a leaf certificate with this host as its only alternative name and as its common name, signed by the
  authority of the service and followed by its certificate; it is the RSA key when the client can use it, else the ECDSA key when the client
  can use that, and the RSA key otherwise. A client hello without a server name gets none from the listener.
\<close>

definition issued_for ::
  "('p, 'c, 'k) tls_env \<Rightarrow> string \<Rightarrow> string \<Rightarrow> string \<Rightarrow> leaf_key_algorithm \<Rightarrow> ('c, 'k) certified_key \<Rightarrow> bool" where
  "issued_for E cert key hostname algorithm k \<longleftrightarrow>
     (\<exists>ca_params ca_key leaf_key seed pem. te_key_from_pem E key = Some ca_key \<and> build_ca_params E = Ok ca_params
        \<and> te_generate_key E seed algorithm = Some leaf_key
        \<and> te_signed_by E (leaf_params hostname) leaf_key (ca_params, ca_key) = Some pem
        \<and> te_pem_certs E (pem @ [CHR 0x0A] @ cert) = Some (ck_certs k)
        \<and> Option.bind (te_pem_private_key E (te_serialize_pem E leaf_key)) (te_signing_key E) = Some (ck_key k))"

lemma issue_host_keys_issued:
  assumes "issue_host_keys E seeds cert key hostname = Ok keys"
  shows "issued_for E cert key hostname EcdsaKey (hk_ecdsa keys)" "issued_for E cert key hostname RsaKey (hk_rsa keys)"
  using assms by (fastforce simp: issue_host_keys_def build_leaf_certified_key_def issued_for_def result_simps)+


definition sample_tls :: "(string, string, string) tls_env" where
  "sample_tls = \<lparr>te_params_new = \<lambda>_. True, te_key_from_pem = Some, te_generate_key = \<lambda>n a. Some (if a = RsaKey then ''rsa'' else ''ec''),
     te_generate_ca_key = \<lambda>_. Some ''ca'', te_self_signed = \<lambda>_ k. Some k,
     te_signed_by = \<lambda>p _ _. Some (cp_common_name p), te_serialize_pem = id, te_pem_certs = \<lambda>s. Some [s],
     te_pem_private_key = Some, te_signing_key = Some, te_choose_scheme = \<lambda>k ss. k = ''ec'' \<and> 2 \<in> set ss, te_write = \<lambda>_ _. True\<rparr>"


text \<open>
  The authority survives restarts: once a start wrote both files, every later start loads the same certificate and key
  and writes nothing.
\<close>

lemma ca_is_stable:
  assumes "get_or_generate_ca_cert E seed fs = (Ok ca, fs')"
  shows "get_or_generate_ca_cert E seed' fs' = (Ok ca, fs')"
  using assms by (auto simp: get_or_generate_ca_cert_def Let_def split: option.splits sum.splits if_splits prod.splits)

text \<open>A connection accepted before the shutdown signal is joined unless its task has finished.\<close>

lemma accepted_connections_joined:
  assumes "Accepted n \<in> set (takeWhile (\<lambda>e. e \<noteq> ShutdownSignal) events) \<or> n \<in> set tasks" and "TaskFinished n \<notin> set events"
  shows "n \<in> set (tls_accept_loop events tasks)"
  using assms by (induction events tasks rule: tls_accept_loop.induct) auto

end
