(* ===== verification/Dns_Server.thy ===== *)
theory Dns_Server
  imports Fake_Dns
begin

text \<open>
  The network side of the fake DNS server: \<^verbatim>\<open>FakeDnsServer::start_runtime\<close> and the request handler of
  \<^verbatim>\<open>src/src/traffic/shared/dns/mod.rs\<close>, \<^verbatim>\<open>send_hickory_response\<close> of \<^verbatim>\<open>resolution.rs\<close> and the listener of
  \<^verbatim>\<open>src/src/socket.rs\<close>. System calls are the fields of \<open>socket_env\<close>; how the server crate sends a response is an argument.
\<close>

section \<open>Listeners (socket.rs)\<close>

record tcp_listener =
  li_local_addr :: socket_addr
  li_only_v6 :: bool
  li_nonblocking :: bool
  li_backlog :: int

text \<open>Each call succeeds or not; a bound socket reports its address.\<close>

record socket_env =
  so_new :: bool
  so_set_only_v6 :: bool
  so_set_nonblocking :: bool
  so_bind :: "socket_addr \<Rightarrow> bool"
  so_listen :: "int \<Rightarrow> bool"
  so_from_std :: bool
  so_udp_bind :: "socket_addr \<Rightarrow> bool"
  so_local_addr :: "socket_addr \<Rightarrow> socket_addr option"

datatype socket_error = SocketFailed | OnlyV6Failed | NonblockingFailed | BindFailed | ListenFailed | FromStdFailed

definition unspecified_v6 :: "u16 \<Rightarrow> socket_addr" where
  "unspecified_v6 port = \<lparr>sock_ip = V6 0, sock_port = port, sock_scope_id = 0\<rparr>"

definition bind_dual_stack_tcp_listener :: "socket_env \<Rightarrow> u16 \<Rightarrow> int \<Rightarrow> (socket_error, tcp_listener) result" where
  "bind_dual_stack_tcp_listener K port backlog =
     bind_r (ensure_r (so_new K) SocketFailed) (\<lambda>_.
     bind_r (ensure_r (so_set_only_v6 K) OnlyV6Failed) (\<lambda>_.
     bind_r (ensure_r (so_set_nonblocking K) NonblockingFailed) (\<lambda>_.
     bind_r (ensure_r (so_bind K (unspecified_v6 port)) BindFailed) (\<lambda>_.
     bind_r (ensure_r (so_listen K backlog) ListenFailed) (\<lambda>_.
     bind_r (ensure_r (so_from_std K) FromStdFailed) (\<lambda>_.
     Ok \<lparr>li_local_addr = unspecified_v6 port, li_only_v6 = False, li_nonblocking = True, li_backlog = backlog\<rparr>))))))"

section \<open>Starting the server (mod.rs)\<close>

definition DNS_TCP_REQUEST_TIMEOUT :: duration where "DNS_TCP_REQUEST_TIMEOUT = secs 10"

datatype dns_start_error = UdpBindFailed socket_addr | UdpAddrFailed socket_addr | TcpBindFailed u16 socket_error | TcpAddrFailed

record dns_runtime =
  dr_udp_addr :: socket_addr
  dr_tcp_listener :: tcp_listener
  dr_tcp_timeout :: duration
  dr_worker :: string

definition start_runtime :: "socket_env \<Rightarrow> 'h fake_dns_state \<Rightarrow> (dns_start_error, dns_runtime) result" where
  "start_runtime K st =
     (let listen_addr = fdo_listen_addr (fds_options st)
      in bind_r (ensure_r (so_udp_bind K listen_addr) (UdpBindFailed listen_addr)) (\<lambda>_.
         bind_r (ensure_r (so_local_addr K listen_addr \<noteq> None) (UdpAddrFailed listen_addr)) (\<lambda>_.
         let port = sock_port listen_addr
         in case bind_dual_stack_tcp_listener K port 1024 of
              Inl e \<Rightarrow> Err (TcpBindFailed port e)
            | Inr tcp_listener \<Rightarrow>
                bind_r (ensure_r (so_local_addr K (li_local_addr tcp_listener) \<noteq> None) TcpAddrFailed) (\<lambda>_.
                Ok \<lparr>dr_udp_addr = listen_addr, dr_tcp_listener = tcp_listener, dr_tcp_timeout = DNS_TCP_REQUEST_TIMEOUT,
                    dr_worker = ''fake-dns-server''\<rparr>))))"

section \<open>Sending a response (resolution.rs)\<close>

text \<open>The header of a message; \<open>dh_flags\<close> are the bits the sources neither read nor set.\<close>

record dns_header =
  dh_id :: u16
  dh_message_type :: message_type
  dh_op_code :: nat
  dh_recursion_desired :: bool
  dh_recursion_available :: bool
  dh_response_code :: response_code
  dh_flags :: nat

definition build_response_header :: "dns_header \<Rightarrow> response_code \<Rightarrow> dns_header" where
  "build_response_header request_header code =
     request_header\<lparr>dh_message_type := MsgResponse, dh_recursion_available := True, dh_response_code := code\<rparr>"

text \<open>The three messages the response builder is asked for.\<close>

datatype server_response =
    ErrorMsg dns_header response_code
  | NoRecords dns_header
  | Records dns_header "dns_record list"

definition hickory_response :: "dns_header \<Rightarrow> dns_resolution \<Rightarrow> server_response" where
  "hickory_response header res =
     (if res_response_code res \<noteq> RcNoError then ErrorMsg header (res_response_code res)
      else if res_answers res = [] then NoRecords (build_response_header header RcNoError)
      else Records (build_response_header header RcNoError) (res_answers res))"

definition send_hickory_response ::
  "(server_response \<Rightarrow> dns_header option) \<Rightarrow> dns_header \<Rightarrow> dns_resolution \<Rightarrow> server_response \<times> dns_header" where
  "send_hickory_response send header res =
     (let fallback_header = build_response_header header RcServFail;
          response = hickory_response header res
      in (response, unwrap_or fallback_header (send response)))"

definition dns_handle_request ::
  "dns_lib \<Rightarrow> (nat \<Rightarrow> instant) \<Rightarrow> (server_response \<Rightarrow> dns_header option) \<Rightarrow> dns_header \<Rightarrow> dns_query list \<Rightarrow> 'h fake_dns_state \<Rightarrow>
     (server_response \<times> dns_header) \<times> 'h fake_dns_state" where
  "dns_handle_request D clock send header queries st =
     (case handle_request D clock st queries of (resolution, st) \<Rightarrow> (send_hickory_response send header resolution, st))"

section \<open>Properties\<close>

fun sent_code :: "server_response \<Rightarrow> response_code" where
  "sent_code (ErrorMsg _ code) = code"
| "sent_code (NoRecords header) = dh_response_code header"
| "sent_code (Records header _) = dh_response_code header"

fun sent_answers :: "server_response \<Rightarrow> dns_record list" where
  "sent_answers (Records _ answers) = answers"
| "sent_answers _ = []"

lemma add_answers:
  "fold (\<lambda>answer m. m\<lparr>msg_answers := msg_answers m @ [answer]\<rparr>) answers m = m\<lparr>msg_answers := msg_answers m @ answers\<rparr>"
  by (induction answers arbitrary: m) simp_all

text \<open>The message whose bytes a resolution is turned into, which is the one the server sends.\<close>

lemma resolution_message:
  assumes "to_message_bytes D res request = Ok out" "res_response_code res \<noteq> RcNoError \<Longrightarrow> res_answers res = []"
  shows "\<exists>m. dl_message_to_vec D m = Some out \<and> msg_id m = msg_id request \<and> msg_message_type m = MsgResponse
    \<and> msg_queries m = msg_queries request \<and> msg_response_code m = sent_code (hickory_response header res)
    \<and> msg_answers m = sent_answers (hickory_response header res)"
  using assms
  by (auto simp: to_message_bytes_def build_error_message_bytes_def add_answers build_response_message_def hickory_response_def
      build_response_header_def result_simps split: if_splits)

lemma resolve_queries_error_empty:
  assumes "resolve_queries D clock st qs = (Ok res, st')" "res_response_code res \<noteq> RcNoError"
  shows "res_answers res = []"
proof -
  have "lookup_loop D qs answers = Ok res \<Longrightarrow> res_answers res = []" for answers
    using assms(2)
  proof (induction qs arbitrary: answers)
    case (Cons q qs)
    from Cons.prems(1) obtain n where "(case dl_lookup D n (lq_record_type q) of
        Inr records \<Rightarrow> lookup_loop D qs (answers @ records)
      | Inl e \<Rightarrow> Ok (from_error (map_resolve_error_to_response_code e))) = Ok res" by (auto simp: result_simps)
    then show ?case using Cons by (cases "dl_lookup D n (lq_record_type q)") (auto simp: from_error_def)
  qed (auto simp: from_answers_def)
  then show ?thesis using assms
    by (auto simp: resolve_queries_def from_answers_def split: prod.splits sum.splits option.splits)
qed

text \<open>
  C27. The three ways to ask the fake DNS server give the same answer. For the same request, time and state, the
  listener, the tunnel and the packet responder leave the same state behind. What the tunnel answers is a message with the identifier and
  the queries of the request and with the response code and the answers that the listener sends; when the tunnel fails to resolve, the
  listener sends a server failure. When the packet responder answers at all it answers with the bytes of the tunnel.
\<close>

theorem dns_entries_agree:
  assumes message: "dl_message_from_vec D request_bytes = Some request"
    and tunnel: "resolve_request D clock st request_bytes = (r, st')"
    and server: "dns_handle_request D clock send header (msg_queries request) st = ((response, info), st'')"
  shows "st'' = st'
    \<and> (case r of
         Inr out \<Rightarrow> \<exists>m. dl_message_to_vec D m = Some out \<and> msg_id m = msg_id request \<and> msg_message_type m = MsgResponse
           \<and> msg_queries m = msg_queries request \<and> msg_response_code m = sent_code response \<and> msg_answers m = sent_answers response
       | Inl e \<Rightarrow> e = SerializeFailed \<or> response = ErrorMsg header RcServFail)
    \<and> (\<forall>out st3. build_fake_response D clock st request_bytes = (Ok (Some out), st3) \<longrightarrow> r = Ok out \<and> st3 = st')"
proof -
  obtain r0 s0 where q: "resolve_queries D clock st (queries_from_message request) = (r0, s0)" by fastforce
  have lower: "queries_from_lower (msg_queries request) = queries_from_message request"
    by (simp add: queries_from_lower_def queries_from_message_def)
  have "st' = s0" "st'' = s0" and resp: "response = hickory_response header (case r0 of Inr res \<Rightarrow> res | Inl _ \<Rightarrow> from_error RcServFail)"
    and r: "r = bind_r r0 (\<lambda>res. to_message_bytes D res request)"
    using message tunnel server q lower
    by (auto simp: resolve_request_def dns_handle_request_def handle_request_def send_hickory_response_def Let_def split: sum.splits)
  moreover have "case r of
         Inr out \<Rightarrow> \<exists>m. dl_message_to_vec D m = Some out \<and> msg_id m = msg_id request \<and> msg_message_type m = MsgResponse
           \<and> msg_queries m = msg_queries request \<and> msg_response_code m = sent_code response \<and> msg_answers m = sent_answers response
       | Inl e \<Rightarrow> e = SerializeFailed \<or> response = ErrorMsg header RcServFail"
  proof (cases r0)
    case (Inl e)
    then show ?thesis using r resp by (simp add: hickory_response_def from_error_def)
  next
    case (Inr res)
    then have to: "to_message_bytes D res request = r" and resp': "response = hickory_response header res" using r resp by simp_all
    show ?thesis
    proof (cases r)
      case (Inl e)
      then show ?thesis using to
        by (auto simp: to_message_bytes_def build_error_message_bytes_def ok_or_def split: if_splits option.splits)
    next
      case (Inr out)
      then show ?thesis
        using resolution_message [of D res request out header] resolve_queries_error_empty [OF q [unfolded \<open>r0 = Inr res\<close>]] to resp' by simp
    qed
  qed
  moreover have "r = Ok out \<and> st3 = s0" if "build_fake_response D clock st request_bytes = (Ok (Some out), st3)" for out st3
    using that message q r by (auto simp: build_fake_response_def resolve_queries_def result_simps split: prod.splits sum.splits option.splits)
  ultimately show ?thesis by simp
qed

definition sample_wire_lib :: dns_lib where
  "sample_wire_lib = sample_dns_lib\<lparr>dl_message_from_vec := \<lambda>_. Some sample_request, dl_message_to_vec := \<lambda>m. Some [of_nat (length (msg_answers m))]\<rparr>"

definition sample_header :: dns_header where
  "sample_header = \<lparr>dh_id = 7, dh_message_type = MsgQuery, dh_op_code = 0, dh_recursion_desired = True, dh_recursion_available = False,
     dh_response_code = RcNoError, dh_flags = 0\<rparr>"

lemma fake_answers_wire:
  "build_fake_answers (D\<lparr>dl_message_from_vec := f, dl_message_to_vec := g\<rparr>) clock st queries = build_fake_answers D clock st queries"
proof -
  have "build_record (D\<lparr>dl_message_from_vec := f, dl_message_to_vec := g\<rparr>) q ttl d = build_record D q ttl d" for q ttl d
    by (simp add: build_record_def)
  then have "build_fake_answers_loop (D\<lparr>dl_message_from_vec := f, dl_message_to_vec := g\<rparr>) clock i queries a m st =
      build_fake_answers_loop D clock i queries a m st" for i a m
    by (induction queries arbitrary: i a m st) (auto simp: Let_def split: sum.split prod.split)
  then show ?thesis by (simp add: build_fake_answers_def)
qed

theorem dns_entries_agree_witness:
  "\<exists>st' info. resolve_request sample_wire_lib (\<lambda>_. 5) sample_dns_state [] = (Ok [1], st')
     \<and> dns_handle_request sample_wire_lib (\<lambda>_. 5) (\<lambda>_. None) sample_header (msg_queries sample_request) sample_dns_state =
         ((Records (build_response_header sample_header RcNoError) [\<lparr>rr_name = ''a.io'', rr_ttl = 0, rr_data = RdA 0xC6120003\<rparr>], info), st')
     \<and> (\<exists>m. dl_message_to_vec sample_wire_lib m = Some [1] \<and> msg_id m = 7 \<and> msg_answers m = [\<lparr>rr_name = ''a.io'', rr_ttl = 0, rr_data = RdA 0xC6120003\<rparr>])"
proof -
  let ?rr = "\<lparr>rr_name = ''a.io'', rr_ttl = 0, rr_data = RdA 0xC6120003\<rparr>"
  obtain st' where "build_fake_answers sample_dns_lib (\<lambda>_. 5) sample_dns_state (queries_from_message sample_request) = (Ok (Some [?rr]), st')"
    using sample_fake_answer by blast
  then have "build_fake_answers sample_wire_lib (\<lambda>_. 5) sample_dns_state (queries_from_message sample_request) = (Ok (Some [?rr]), st')"
    by (simp add: sample_wire_lib_def fake_answers_wire)
  then have q: "resolve_queries sample_wire_lib (\<lambda>_. 5) sample_dns_state (queries_from_message sample_request) = (Ok (from_answers [?rr]), st')"
    by (simp add: resolve_queries_def)
  have m: "dl_message_from_vec sample_wire_lib [] = Some sample_request" by (simp add: sample_wire_lib_def)
  have t: "resolve_request sample_wire_lib (\<lambda>_. 5) sample_dns_state [] = (Ok [1], st')"
    using q m by (simp add: resolve_request_def to_message_bytes_def from_answers_def)
       (simp add: sample_wire_lib_def build_response_message_def)
  have s: "dns_handle_request sample_wire_lib (\<lambda>_. 5) (\<lambda>_. None) sample_header (msg_queries sample_request) sample_dns_state =
      ((Records (build_response_header sample_header RcNoError) [?rr], build_response_header sample_header RcServFail), st')"
    using q by (simp add: dns_handle_request_def handle_request_def queries_from_lower_def queries_from_message_def
        send_hickory_response_def hickory_response_def from_answers_def)
  from dns_entries_agree [OF m t s] t s show ?thesis
    by (auto simp: sample_request_def)
qed

text \<open>
  The server listens for UDP where the configuration says, but for TCP on every address of the host.
\<close>

lemma dns_tcp_listens_everywhere:
  assumes "start_runtime K st = Ok runtime"
  shows "dr_udp_addr runtime = fdo_listen_addr (fds_options st)
    \<and> li_local_addr (dr_tcp_listener runtime) = unspecified_v6 (sock_port (fdo_listen_addr (fds_options st)))
    \<and> \<not> li_only_v6 (dr_tcp_listener runtime)"
  using assms by (auto simp: start_runtime_def bind_dual_stack_tcp_listener_def Let_def result_simps split: sum.splits)

end
