(* ===== verification/Script_Worker.thy ===== *)
theory Script_Worker
  imports Plugins
begin

text \<open>
  One QuickJS worker: \<^verbatim>\<open>src/src/plugins/quickjs/loader.rs\<close> and the worker half of
  \<^verbatim>\<open>src/src/plugins/quickjs/engine.rs\<close>. The worker keeps a module loader, the console state, a cache of stage handlers and the
  engine. The engine (\<^verbatim>\<open>rquickjs\<close>), the file system, \<^verbatim>\<open>serde_json::from_str\<close> and the text of \<^verbatim>\<open>console.js\<close>
  are the fields of \<open>script_env\<close>; the engine's own state is threaded through the calls that may change it.
  Trace spans are left out.
\<close>

section \<open>Unix paths of modules\<close>

text \<open>
  \<^verbatim>\<open>Path::parent\<close>, \<^verbatim>\<open>extension\<close> and \<^verbatim>\<open>with_extension\<close> on the text of a path. Empty parts and dots at its
  end are no components; the dot that opens a relative path is one.
\<close>

definition path_parts :: "string \<Rightarrow> string list" where
  "path_parts p = split_on CHR ''/'' (if path_is_absolute p then tl p else p)"

definition parts_trim :: "bool \<Rightarrow> string list \<Rightarrow> string list" where
  "parts_trim absolute parts =
     (case parts of
        [] \<Rightarrow> []
      | part # rest \<Rightarrow>
          (let rest = rev (dropWhile (\<lambda>c. c = [] \<or> c = ''.'') (rev rest))
           in if rest = [] \<and> (part = [] \<or> absolute \<and> part = ''.'') then [] else part # rest))"

definition parts_text :: "bool \<Rightarrow> string list \<Rightarrow> string" where
  "parts_text absolute parts = (if absolute then ''/'' else []) @ join_with CHR ''/'' parts"

definition path_parent :: "string \<Rightarrow> string option" where
  "path_parent p =
     (let absolute = path_is_absolute p; parts = parts_trim absolute (path_parts p)
      in if parts = [] then None else Some (parts_text absolute (parts_trim absolute (butlast parts))))"

definition file_extension :: "string \<Rightarrow> string option" where
  "file_extension f =
     (case dropWhile (\<lambda>c. c \<noteq> CHR ''.'') (rev f) of
        [] \<Rightarrow> None
      | _ # stem \<Rightarrow> if stem = [] then None else Some (rev (takeWhile (\<lambda>c. c \<noteq> CHR ''.'') (rev f))))"

definition path_extension :: "string \<Rightarrow> string option" where
  "path_extension p = Option.bind (path_file_name p) file_extension"

definition path_with_extension :: "string \<Rightarrow> string \<Rightarrow> string" where
  "path_with_extension p extension =
     (case path_file_name p of
        None \<Rightarrow> p
      | Some f \<Rightarrow>
          (let absolute = path_is_absolute p; text = parts_text absolute (parts_trim absolute (path_parts p));
               suffix = (case file_extension f of None \<Rightarrow> 0 | Some e \<Rightarrow> Suc (length e))
           in take (length text - suffix) text @ CHR ''.'' # extension))"

section \<open>JSON and the engine\<close>

text \<open>\<^verbatim>\<open>serde_json::Value\<close>; \<open>'f\<close> is the type of the floating-point numbers.\<close>

datatype 'f json_number = PosInt "64 word" | NegInt "64 word" | FloatNumber 'f

datatype 'f json =
    JsonNull
  | JsonBool bool
  | JsonNumber "'f json_number"
  | JsonString string
  | JsonArray "'f json list"
  | JsonObject "(string \<times> 'f json) list"

text \<open>
  \<open>'e\<close> is the state of an engine, \<open>'m\<close> a module promise, \<open>'n\<close> a module namespace, \<open>'h\<close> a function
  and \<open>'v\<close> a value. What a script writes to the console is a list of levels and messages.
\<close>

type_synonym console_lines = "(string \<times> string) list"

record ('e, 'm, 'n, 'h, 'v, 'f) script_env =
  se_engine_new :: "nat \<Rightarrow> 'e option"
  se_import :: "(string \<Rightarrow> string \<Rightarrow> string option) \<Rightarrow> (string \<Rightarrow> string option) \<Rightarrow> string \<Rightarrow> 'e \<Rightarrow> 'm option \<times> console_lines \<times> 'e"
  se_finish :: "'m \<Rightarrow> 'e \<Rightarrow> 'n option \<times> console_lines \<times> 'e"
  se_get_default :: "'n \<Rightarrow> 'h option"
  se_restore :: "'h \<Rightarrow> 'e \<Rightarrow> bool"
  se_call :: "'h \<Rightarrow> 'v \<Rightarrow> 'e \<Rightarrow> 'v option \<times> console_lines \<times> 'e"
  se_null :: "'v option"
  se_bool :: "bool \<Rightarrow> 'v option"
  se_integer :: "int \<Rightarrow> 'v option"
  se_float :: "'f \<Rightarrow> 'v option"
  se_float_of_int :: "int \<Rightarrow> 'f"
  se_string :: "string \<Rightarrow> 'v option"
  se_array_new :: "'v option"
  se_array_set :: "'v \<Rightarrow> nat \<Rightarrow> 'v \<Rightarrow> 'v option"
  se_object_new :: "'v option"
  se_object_set :: "'v \<Rightarrow> string \<Rightarrow> 'v \<Rightarrow> 'v option"
  se_is_undefined :: "'v \<Rightarrow> bool"
  se_stringify :: "'v \<Rightarrow> 'e \<Rightarrow> 'v option option"
  se_to_string :: "'v \<Rightarrow> string option"
  se_from_str :: "string \<Rightarrow> 'f json option"
  se_canonicalize :: "string \<Rightarrow> string option"
  se_read :: "string \<Rightarrow> string option"
  se_console_source :: string

datatype script_error =
    LoaderLockPoisoned | ConsoleLockPoisoned | HandlerCachePoisoned | ConsoleModuleNoFile | NoParentDirectory string
  | ModuleNotCanonical string | ModuleUnreadable string
  | RestoreFailed string plugin_stage | ImportFailed string plugin_stage | PromiseFailed string plugin_stage
  | NoStageHandler string plugin_stage | ConversionFailed | UnsupportedNumber | CallFailed string plugin_stage
  | StringifyFailed string plugin_stage | NotSerializable string plugin_stage | ResultTextFailed | ResultNotJson string plugin_stage

section \<open>The module loader\<close>

definition CONSOLE_MODULE_SPECIFIER :: string where "CONSOLE_MODULE_SPECIFIER = ''@anymirror/console''"

record loader_state =
  ls_current_plugin_root :: string
  ls_entry_modules :: "string \<rightharpoonup> string"

definition shared_loader_state_new :: "loader_state mutex" where
  "shared_loader_state_new = mutex_new \<lparr>ls_current_plugin_root = [], ls_entry_modules = Map.empty\<rparr>"

definition build_entry_module_source :: "string \<Rightarrow> string" where
  "build_entry_module_source source =
     [CHR 0x0A] @ source @ [CHR 0x0A, CHR 0x0A]
     @ ''const __anymirror_stage_handler ='' @ [CHR 0x0A]
     @ ''  typeof on_event === '' @ [CHR 0x22] @ ''function'' @ [CHR 0x22] @ '' ? on_event :'' @ [CHR 0x0A]
     @ ''  null;'' @ [CHR 0x0A, CHR 0x0A]
     @ ''export default __anymirror_stage_handler;'' @ [CHR 0x0A]"

definition prepare_entry_module ::
  "string \<Rightarrow> string \<Rightarrow> string \<Rightarrow> loader_state mutex \<Rightarrow> (script_error, unit) result \<times> loader_state mutex" where
  "prepare_entry_module plugin_root entry_module_name entry_source st =
     (if mx_poisoned st then (Err LoaderLockPoisoned, st)
      else (Ok (), st\<lparr>mx_value := \<lparr>ls_current_plugin_root = plugin_root,
              ls_entry_modules = (ls_entry_modules (mx_value st))(entry_module_name \<mapsto> build_entry_module_source entry_source)\<rparr>\<rparr>))"

definition current_plugin_root :: "loader_state mutex \<Rightarrow> (script_error, string) result" where
  "current_plugin_root st = (if mx_poisoned st then Err LoaderLockPoisoned else Ok (ls_current_plugin_root (mx_value st)))"

definition entry_module_source :: "string \<Rightarrow> loader_state mutex \<Rightarrow> (script_error, string option) result" where
  "entry_module_source module_name st =
     (if mx_poisoned st then Err LoaderLockPoisoned else Ok (ls_entry_modules (mx_value st) module_name))"

definition resolve_plugin_module_file :: "string \<Rightarrow> string \<Rightarrow> string \<Rightarrow> (script_error, string) result" where
  "resolve_plugin_module_file plugin_root base name =
     bind_r (ensure_r (name \<noteq> CONSOLE_MODULE_SPECIFIER) ConsoleModuleNoFile) (\<lambda>_.
     bind_r (if starts_with name ''.''
             then bind_r (ok_or (NoParentDirectory base) (path_parent base)) (\<lambda>base_dir. Ok (path_join base_dir name))
             else Ok (path_join plugin_root name)) (\<lambda>candidate.
     Ok (if path_extension candidate \<noteq> None then candidate else path_with_extension candidate ''js'')))"

definition normalize_module_name :: "('e, 'm, 'n, 'h, 'v, 'f) script_env \<Rightarrow> string \<Rightarrow> (script_error, string) result" where
  "normalize_module_name S p =
     bind_r (ok_or (ModuleNotCanonical p) (se_canonicalize S p)) (\<lambda>canonical.
     Ok (map (\<lambda>c. if c = CHR 0x5C then CHR ''/'' else c) canonical))"

definition module_resolve ::
  "('e, 'm, 'n, 'h, 'v, 'f) script_env \<Rightarrow> loader_state mutex \<Rightarrow> string \<Rightarrow> string \<Rightarrow> (script_error, string) result" where
  "module_resolve S st base name =
     (if name = CONSOLE_MODULE_SPECIFIER then Ok CONSOLE_MODULE_SPECIFIER
      else bind_r (current_plugin_root st) (\<lambda>plugin_root.
           bind_r (resolve_plugin_module_file plugin_root base name) (normalize_module_name S)))"

text \<open>The text the module is declared with.\<close>

definition module_load ::
  "('e, 'm, 'n, 'h, 'v, 'f) script_env \<Rightarrow> loader_state mutex \<Rightarrow> string \<Rightarrow> (script_error, string) result" where
  "module_load S st name =
     (if name = CONSOLE_MODULE_SPECIFIER then Ok (se_console_source S)
      else bind_r (entry_module_source name st) (\<lambda>entry.
           case entry of
             Some source \<Rightarrow> Ok source
           | None \<Rightarrow> ok_or (ModuleUnreadable name) (se_read S name)))"

section \<open>Values\<close>

definition label :: "plugin_stage \<Rightarrow> string" where
  "label stage =
     (case stage of StageLoad \<Rightarrow> ''on_load'' | StageCompile \<Rightarrow> ''on_compile'' | StageRequest \<Rightarrow> ''on_request''
      | StageResponse \<Rightarrow> ''on_response'')"

text \<open>\<^verbatim>\<open>Number::as_i64\<close>, \<^verbatim>\<open>as_u64\<close> and \<^verbatim>\<open>as_f64\<close>.\<close>

definition as_i64 :: "'f json_number \<Rightarrow> int option" where
  "as_i64 number =
     (case number of PosInt n \<Rightarrow> if uint n < 2 ^ 63 then Some (uint n) else None | NegInt n \<Rightarrow> Some (sint n) | FloatNumber _ \<Rightarrow> None)"

definition as_u64 :: "'f json_number \<Rightarrow> int option" where
  "as_u64 number = (case number of PosInt n \<Rightarrow> Some (uint n) | _ \<Rightarrow> None)"

definition as_f64 :: "('e, 'm, 'n, 'h, 'v, 'f) script_env \<Rightarrow> 'f json_number \<Rightarrow> 'f option" where
  "as_f64 S number =
     (case number of PosInt n \<Rightarrow> Some (se_float_of_int S (uint n)) | NegInt n \<Rightarrow> Some (se_float_of_int S (sint n))
      | FloatNumber f \<Rightarrow> Some f)"

definition json_number_to_js :: "('e, 'm, 'n, 'h, 'v, 'f) script_env \<Rightarrow> 'f json_number \<Rightarrow> (script_error, 'v) result" where
  "json_number_to_js S number =
     (case as_i64 number of
        Some integer \<Rightarrow> ok_or ConversionFailed (se_integer S integer)
      | None \<Rightarrow>
         (case as_u64 number of
            Some natural \<Rightarrow> ok_or ConversionFailed (se_integer S natural)
          | None \<Rightarrow>
             (case as_f64 S number of
                Some float \<Rightarrow> ok_or ConversionFailed (se_float S float)
              | None \<Rightarrow> Err UnsupportedNumber)))"

fun json_to_js_value :: "('e, 'm, 'n, 'h, 'v, 'f) script_env \<Rightarrow> 'f json \<Rightarrow> (script_error, 'v) result"
  and json_items_to_js :: "('e, 'm, 'n, 'h, 'v, 'f) script_env \<Rightarrow> nat \<Rightarrow> 'v \<Rightarrow> 'f json list \<Rightarrow> (script_error, 'v) result"
  and json_entries_to_js :: "('e, 'm, 'n, 'h, 'v, 'f) script_env \<Rightarrow> 'v \<Rightarrow> (string \<times> 'f json) list \<Rightarrow> (script_error, 'v) result" where
  "json_to_js_value S JsonNull = ok_or ConversionFailed (se_null S)"
| "json_to_js_value S (JsonBool boolean) = ok_or ConversionFailed (se_bool S boolean)"
| "json_to_js_value S (JsonNumber number) = json_number_to_js S number"
| "json_to_js_value S (JsonString s) = ok_or ConversionFailed (se_string S s)"
| "json_to_js_value S (JsonArray items) =
     (case se_array_new S of None \<Rightarrow> Err ConversionFailed | Some array \<Rightarrow> json_items_to_js S 0 array items)"
| "json_to_js_value S (JsonObject entries) =
     (case se_object_new S of None \<Rightarrow> Err ConversionFailed | Some object \<Rightarrow> json_entries_to_js S object entries)"
| "json_items_to_js S index array [] = Ok array"
| "json_items_to_js S index array (item # items) =
     (case json_to_js_value S item of
        Inl e \<Rightarrow> Err e
      | Inr item_value \<Rightarrow>
         (case se_array_set S array index item_value of
            None \<Rightarrow> Err ConversionFailed
          | Some array \<Rightarrow> json_items_to_js S (Suc index) array items))"
| "json_entries_to_js S object [] = Ok object"
| "json_entries_to_js S object ((key, item) # entries) =
     (case json_to_js_value S item of
        Inl e \<Rightarrow> Err e
      | Inr item_value \<Rightarrow>
         (case se_object_set S object key item_value of
            None \<Rightarrow> Err ConversionFailed
          | Some object \<Rightarrow> json_entries_to_js S object entries))"

record 'f quickjs_task =
  qt_plugin_name :: string
  qt_stage :: plugin_stage
  qt_source :: string
  qt_plugin_root :: string
  qt_entry_module_name :: string
  qt_input :: "'f json"

definition build_js_context_value ::
  "('e, 'm, 'n, 'h, 'v, 'f) script_env \<Rightarrow> 'f quickjs_task \<Rightarrow> (script_error, 'v) result" where
  "build_js_context_value S task =
     bind_r (ok_or ConversionFailed (se_object_new S)) (\<lambda>context.
     bind_r (ok_or ConversionFailed (Option.bind (se_string S (qt_plugin_name task)) (se_object_set S context ''plugin''))) (\<lambda>context.
     bind_r (ok_or ConversionFailed (Option.bind (se_string S (label (qt_stage task))) (se_object_set S context ''stage''))) (\<lambda>context.
     bind_r (json_to_js_value S (qt_input task)) (\<lambda>input.
     ok_or ConversionFailed (se_object_set S context ''input'' input)))))"

definition encode_result_json ::
  "('e, 'm, 'n, 'h, 'v, 'f) script_env \<Rightarrow> 'e \<Rightarrow> string \<Rightarrow> plugin_stage \<Rightarrow> 'v \<Rightarrow> (script_error, string) result" where
  "encode_result_json S engine plugin_name stage result =
     (if se_is_undefined S result then Ok ''null''
      else bind_r (ok_or (StringifyFailed plugin_name stage) (se_stringify S result engine)) (\<lambda>encoded.
           bind_r (ok_or (NotSerializable plugin_name stage) encoded) (\<lambda>encoded.
           ok_or ResultTextFailed (se_to_string S encoded))))"

section \<open>The console\<close>

datatype trace_level = TraceError | TraceWarn | TraceInfo | TraceDebug

record console_state =
  cs_plugin_name :: string
  cs_stage :: string

datatype console_event = ConsoleLine trace_level string string string | ConsolePoisonedLine string

definition console_bridge :: "console_state mutex \<Rightarrow> string \<times> string \<Rightarrow> console_event" where
  "console_bridge st line =
     (case line of (level, message) \<Rightarrow>
        if mx_poisoned st then ConsolePoisonedLine message
        else ConsoleLine
          (if level = ''error'' then TraceError else if level = ''warn'' then TraceWarn
           else if level = ''debug'' then TraceDebug else TraceInfo)
          (cs_plugin_name (mx_value st)) (cs_stage (mx_value st)) message)"

section \<open>The worker\<close>

record ('e, 'h) quickjs_worker =
  qw_handler_cache :: "(string \<rightharpoonup> 'h) mutex"
  qw_console_state :: "console_state mutex"
  qw_loader_state :: "loader_state mutex"
  qw_engine :: 'e

definition quickjs_worker_of :: "'e \<Rightarrow> ('e, 'h) quickjs_worker" where
  "quickjs_worker_of engine =
     \<lparr>qw_handler_cache = mutex_new Map.empty, qw_console_state = mutex_new \<lparr>cs_plugin_name = [], cs_stage = []\<rparr>,
      qw_loader_state = shared_loader_state_new, qw_engine = engine\<rparr>"

definition quickjs_worker_new :: "('e, 'm, 'n, 'h, 'v, 'f) script_env \<Rightarrow> nat \<Rightarrow> ('e, 'h) quickjs_worker option" where
  "quickjs_worker_new S index = map_option quickjs_worker_of (se_engine_new S index)"

type_synonym ('a, 'w) script_run = "(script_error, 'a) result \<times> console_lines \<times> 'w"

definition script_bind :: "('a, 'w) script_run \<Rightarrow> ('a \<Rightarrow> 'w \<Rightarrow> ('b, 'w) script_run) \<Rightarrow> ('b, 'w) script_run" where
  "script_bind m f =
     (case m of (Inl e, lines, w) \<Rightarrow> (Err e, lines, w)
              | (Inr a, lines, w) \<Rightarrow> (case f a w of (r, lines', w) \<Rightarrow> (r, lines @ lines', w)))"

text \<open>A call of the engine: it may write to the console and change the engine whether it fails or not.\<close>

definition engine_call ::
  "('e \<Rightarrow> 'a option \<times> console_lines \<times> 'e) \<Rightarrow> script_error \<Rightarrow> ('e, 'h) quickjs_worker \<Rightarrow> ('a, ('e, 'h) quickjs_worker) script_run" where
  "engine_call f e w = (case f (qw_engine w) of (r, lines, engine) \<Rightarrow> (ok_or e r, lines, w\<lparr>qw_engine := engine\<rparr>))"

definition load_stage_handler ::
  "('e, 'm, 'n, 'h, 'v, 'f) script_env \<Rightarrow> 'f quickjs_task \<Rightarrow> ('e, 'h) quickjs_worker \<Rightarrow> ('h, ('e, 'h) quickjs_worker) script_run" where
  "load_stage_handler S task w =
     (if mx_poisoned (qw_handler_cache w) then (Err HandlerCachePoisoned, [], w)
      else case mx_value (qw_handler_cache w) (qt_entry_module_name task) of
        Some handler \<Rightarrow>
          (if se_restore S handler (qw_engine w) then Ok handler else Err (RestoreFailed (qt_plugin_name task) (qt_stage task)), [], w)
      | None \<Rightarrow>
          script_bind (engine_call
            (se_import S (\<lambda>base name. result_ok (module_resolve S (qw_loader_state w) base name))
               (\<lambda>name. result_ok (module_load S (qw_loader_state w) name)) (qt_entry_module_name task))
            (ImportFailed (qt_plugin_name task) (qt_stage task)) w) (\<lambda>promise w.
          script_bind (engine_call (se_finish S promise) (PromiseFailed (qt_plugin_name task) (qt_stage task)) w) (\<lambda>namespace w.
          case se_get_default S namespace of
            None \<Rightarrow> (Err (NoStageHandler (qt_plugin_name task) (qt_stage task)), [], w)
          | Some handler \<Rightarrow>
              (Ok handler, [], w\<lparr>qw_handler_cache := (qw_handler_cache w)
                 \<lparr>mx_value := (mx_value (qw_handler_cache w))(qt_entry_module_name task \<mapsto> handler)\<rparr>\<rparr>))))"

definition execute_quickjs_task ::
  "('e, 'm, 'n, 'h, 'v, 'f) script_env \<Rightarrow> 'f quickjs_task \<Rightarrow> ('e, 'h) quickjs_worker \<Rightarrow> ('f json, ('e, 'h) quickjs_worker) script_run" where
  "execute_quickjs_task S task w =
     script_bind (load_stage_handler S task w) (\<lambda>handler w.
     script_bind (build_js_context_value S task, [], w) (\<lambda>context_value w.
     script_bind (engine_call (se_call S handler context_value) (CallFailed (qt_plugin_name task) (qt_stage task)) w) (\<lambda>result w.
     script_bind (encode_result_json S (qw_engine w) (qt_plugin_name task) (qt_stage task) result, [], w) (\<lambda>encoded w.
     (ok_or (ResultNotJson (qt_plugin_name task) (qt_stage task)) (se_from_str S encoded), [], w)))))"

text \<open>The task and the console events it caused.\<close>

definition worker_execute ::
  "('e, 'm, 'n, 'h, 'v, 'f) script_env \<Rightarrow> 'f quickjs_task \<Rightarrow> ('e, 'h) quickjs_worker \<Rightarrow>
     (script_error, 'f json) result \<times> console_event list \<times> ('e, 'h) quickjs_worker" where
  "worker_execute S task w =
     (case prepare_entry_module (qt_plugin_root task) (qt_entry_module_name task) (qt_source task) (qw_loader_state w) of
        (Inl e, _) \<Rightarrow> (Err e, [], w)
      | (Inr _, loader) \<Rightarrow>
         (let w = w\<lparr>qw_loader_state := loader\<rparr>
          in if mx_poisoned (qw_console_state w) then (Err ConsoleLockPoisoned, [], w)
             else
               (let w = w\<lparr>qw_console_state := (qw_console_state w)
                      \<lparr>mx_value := \<lparr>cs_plugin_name = qt_plugin_name task, cs_stage = label (qt_stage task)\<rparr>\<rparr>\<rparr>
                in case execute_quickjs_task S task w of
                     (r, lines, w') \<Rightarrow> (r, map (console_bridge (qw_console_state w)) lines, w'))))"

section \<open>The handler cache\<close>

text \<open>
  A worker serves tasks one after the other. \<open>source\<close> is the stage source of each module, which a plugin registry fixes when it
  is built.
\<close>

inductive worker_step ::
  "('e, 'm, 'n, 'h, 'v, 'f) script_env \<Rightarrow> (string \<Rightarrow> string) \<Rightarrow> ('e, 'h) quickjs_worker \<Rightarrow> ('e, 'h) quickjs_worker \<Rightarrow> bool"
  for S source where
  serve: "qt_source task = source (qt_entry_module_name task) \<Longrightarrow> worker_execute S task w = (r, events, w') \<Longrightarrow> worker_step S source w w'"

text \<open>A handler is built when it is the default export of its module, loaded with the wrapped stage source.\<close>

definition handler_built ::
  "('e, 'm, 'n, 'h, 'v, 'f) script_env \<Rightarrow> (string \<Rightarrow> string) \<Rightarrow> string \<Rightarrow> 'h \<Rightarrow> bool" where
  "handler_built S source name h \<longleftrightarrow>
     (\<exists>st e promise lines e' namespace lines' e''.
        \<not> mx_poisoned st \<and> ls_entry_modules (mx_value st) name = Some (build_entry_module_source (source name))
        \<and> se_import S (\<lambda>b n. result_ok (module_resolve S st b n)) (\<lambda>n. result_ok (module_load S st n)) name e = (Some promise, lines, e')
        \<and> se_finish S promise e' = (Some namespace, lines', e'') \<and> se_get_default S namespace = Some h)"

lemma handler_builtI:
  assumes "\<not> mx_poisoned st" "ls_entry_modules (mx_value st) name = Some (build_entry_module_source (source name))"
    and "se_import S (\<lambda>b n. result_ok (module_resolve S st b n)) (\<lambda>n. result_ok (module_load S st n)) name e = (Some promise, lines, e')"
    and "se_finish S promise e' = (Some namespace, lines', e'')" "se_get_default S namespace = Some h"
  shows "handler_built S source name h"
  using assms unfolding handler_built_def by blast

definition worker_healthy :: "('e, 'h) quickjs_worker \<Rightarrow> bool" where
  "worker_healthy w \<longleftrightarrow> \<not> mx_poisoned (qw_handler_cache w) \<and> \<not> mx_poisoned (qw_console_state w) \<and> \<not> mx_poisoned (qw_loader_state w)"

lemma script_bind_ok:
  "script_bind m f = (Inr b, lines, w') \<longleftrightarrow>
     (\<exists>a l1 w l2. m = (Inr a, l1, w) \<and> f a w = (Inr b, l2, w') \<and> lines = l1 @ l2)"
  by (auto simp: script_bind_def split: prod.splits sum.splits)

lemma engine_call_frame:
  assumes "engine_call f e w = (r, lines, w')"
  shows "qw_handler_cache w' = qw_handler_cache w" "qw_console_state w' = qw_console_state w" "qw_loader_state w' = qw_loader_state w"
    and "r = Inr a \<Longrightarrow> f (qw_engine w) = (Some a, lines, qw_engine w')"
  using assms by (auto simp: engine_call_def result_simps split: prod.splits)

text \<open>Loading a handler changes the cache at most, by an entry for the module that was built.\<close>

lemma load_stage_handler_effect:
  assumes "load_stage_handler S task w = (r, lines, w')"
  shows "qw_console_state w' = qw_console_state w \<and> qw_loader_state w' = qw_loader_state w
    \<and> mx_poisoned (qw_handler_cache w') = mx_poisoned (qw_handler_cache w)
    \<and> (qw_handler_cache w' = qw_handler_cache w \<or>
       (\<exists>h. r = Ok h \<and> mx_value (qw_handler_cache w') = (mx_value (qw_handler_cache w))(qt_entry_module_name task \<mapsto> h)
         \<and> (\<exists>e promise l1 e' namespace l2 e''.
              se_import S (\<lambda>b n. result_ok (module_resolve S (qw_loader_state w) b n)) (\<lambda>n. result_ok (module_load S (qw_loader_state w) n))
                (qt_entry_module_name task) e = (Some promise, l1, e')
              \<and> se_finish S promise e' = (Some namespace, l2, e'') \<and> se_get_default S namespace = Some h)))
    \<and> (\<forall>h. r = Ok h \<longrightarrow> mx_value (qw_handler_cache w') (qt_entry_module_name task) = Some h)"
proof (cases "mx_poisoned (qw_handler_cache w) \<or> mx_value (qw_handler_cache w) (qt_entry_module_name task) \<noteq> None")
  case True
  then show ?thesis using assms by (auto simp: load_stage_handler_def split: if_splits)
next
  case False
  let ?res = "\<lambda>b n. result_ok (module_resolve S (qw_loader_state w) b n)" and ?load = "\<lambda>n. result_ok (module_load S (qw_loader_state w) n)"
  obtain p l1 e1 where i: "se_import S ?res ?load (qt_entry_module_name task) (qw_engine w) = (p, l1, e1)" by (metis prod_cases3)
  show ?thesis
  proof (cases p)
    case None
    then show ?thesis using assms False i by (auto simp: load_stage_handler_def script_bind_def engine_call_def)
  next
    case (Some promise)
    obtain n l2 e2 where f: "se_finish S promise e1 = (n, l2, e2)" by (metis prod_cases3)
    show ?thesis
    proof (cases "Option.bind n (se_get_default S)")
      case None
      then show ?thesis using assms False i f Some
        by (cases n) (auto simp: load_stage_handler_def script_bind_def engine_call_def)
    next
      case (Some h)
      then obtain namespace where n: "n = Some namespace" and d: "se_get_default S namespace = Some h" by (cases n) auto
      have "r = Ok h" "w' = w\<lparr>qw_engine := e2, qw_handler_cache := (qw_handler_cache w)
          \<lparr>mx_value := (mx_value (qw_handler_cache w))(qt_entry_module_name task \<mapsto> h)\<rparr>\<rparr>"
        using assms False i f \<open>p = Some promise\<close> n d by (auto simp: load_stage_handler_def script_bind_def engine_call_def)
      then show ?thesis using i f \<open>p = Some promise\<close> n d by simp blast
    qed
  qed
qed

text \<open>The rest of a task leaves the cache, the console state and the loader alone.\<close>

lemma execute_quickjs_task_frame:
  assumes "execute_quickjs_task S task w = (r, lines, w')"
  shows "\<exists>r1 l1 w1. load_stage_handler S task w = (r1, l1, w1) \<and> qw_handler_cache w' = qw_handler_cache w1
    \<and> qw_console_state w' = qw_console_state w1 \<and> qw_loader_state w' = qw_loader_state w1"
proof -
  obtain r1 l1 w1 where h: "load_stage_handler S task w = (r1, l1, w1)" by (metis prod_cases3)
  then show ?thesis using assms
    by (auto simp: execute_quickjs_task_def script_bind_def engine_call_def split: sum.splits prod.splits)
qed

lemma worker_execute_run:
  assumes "worker_execute S task w = (r, events, w')" "worker_healthy w"
  obtains lines w1 where "worker_healthy w1" "qw_handler_cache w1 = qw_handler_cache w"
    "qw_console_state w1 = mutex_new \<lparr>cs_plugin_name = qt_plugin_name task, cs_stage = label (qt_stage task)\<rparr>"
    "ls_entry_modules (mx_value (qw_loader_state w1)) (qt_entry_module_name task) = Some (build_entry_module_source (qt_source task))"
    "execute_quickjs_task S task w1 = (r, lines, w')" "events = map (console_bridge (qw_console_state w1)) lines"
proof -
  let ?w = "w\<lparr>qw_loader_state := snd (prepare_entry_module (qt_plugin_root task) (qt_entry_module_name task) (qt_source task) (qw_loader_state w)),
     qw_console_state := (qw_console_state w)\<lparr>mx_value := \<lparr>cs_plugin_name = qt_plugin_name task, cs_stage = label (qt_stage task)\<rparr>\<rparr>\<rparr>"
  obtain r' lines w2 where x: "execute_quickjs_task S task ?w = (r', lines, w2)" by (metis prod_cases3)
  have "(r', map (console_bridge (qw_console_state ?w)) lines, w2) = (r, events, w')"
    using assms x by (simp add: worker_execute_def prepare_entry_module_def worker_healthy_def)
  then show ?thesis using x assms(2)
    by (intro that [of ?w lines]) (auto simp: worker_healthy_def prepare_entry_module_def mutex_new_def intro!: mutex.equality)
qed

lemma worker_execute_cache:
  assumes run: "worker_execute S task w = (r, events, w')" and ok: "worker_healthy w"
    and src: "qt_source task = source (qt_entry_module_name task)"
  shows "worker_healthy w'"
    and "mx_value (qw_handler_cache w') k = Some h \<Longrightarrow> mx_value (qw_handler_cache w) k = Some h \<or> handler_built S source k h"
proof -
  obtain lines w1 where w1: "worker_healthy w1" "qw_handler_cache w1 = qw_handler_cache w"
    "ls_entry_modules (mx_value (qw_loader_state w1)) (qt_entry_module_name task) = Some (build_entry_module_source (qt_source task))"
    "execute_quickjs_task S task w1 = (r, lines, w')"
    using run ok by (rule worker_execute_run)
  obtain r2 l2 w2 where w2: "load_stage_handler S task w1 = (r2, l2, w2)" and same: "qw_handler_cache w' = qw_handler_cache w2"
    "qw_console_state w' = qw_console_state w2" "qw_loader_state w' = qw_loader_state w2"
    using execute_quickjs_task_frame [OF w1(4)] by blast
  note e = load_stage_handler_effect [OF w2]
  show "worker_healthy w'" using e w1(1) same by (simp add: worker_healthy_def)
  have "\<not> mx_poisoned (qw_loader_state w1)" using w1(1) by (simp add: worker_healthy_def)
  note b = handler_builtI [where S = S and source = source, OF this w1(3) [unfolded src]]
  from e have "qw_handler_cache w2 = qw_handler_cache w1 \<or> (\<exists>h. handler_built S source (qt_entry_module_name task) h
      \<and> mx_value (qw_handler_cache w2) = (mx_value (qw_handler_cache w1))(qt_entry_module_name task \<mapsto> h))"
    by (elim conjE disjE exE) (auto intro: b)
  then show "mx_value (qw_handler_cache w) k = Some h \<or> handler_built S source k h" if "mx_value (qw_handler_cache w') k = Some h"
    using w1(2) same(1) that by (auto split: if_splits)
qed

lemma fresh_worker_healthy: "worker_healthy (quickjs_worker_of e)"
  by (simp add: worker_healthy_def quickjs_worker_of_def shared_loader_state_new_def mutex_new_def)

lemma workers_stay_healthy: "(worker_step S source)\<^sup>*\<^sup>* (quickjs_worker_of e) w \<Longrightarrow> worker_healthy w"
  by (induction rule: rtranclp_induct) (auto simp: fresh_worker_healthy elim!: worker_step.cases dest: worker_execute_cache(1))

interpretation handlers: keyed_cache "quickjs_worker_of e" "worker_step S source" "\<lambda>w. mx_value (qw_handler_cache w)" "handler_built S source"
  for S :: "('e, 'm, 'n, 'h, 'v, 'f) script_env" and source e
proof unfold_locales
  fix w w' :: "('e, 'h) quickjs_worker" and k h
  assume reach: "(worker_step S source)\<^sup>*\<^sup>* (quickjs_worker_of e) w" and step: "worker_step S source w w'"
    and entry: "mx_value (qw_handler_cache w') k = Some h"
  from step show "mx_value (qw_handler_cache w) k = Some h \<or> handler_built S source k h"
  proof cases
    case (serve task r events)
    from worker_execute_cache(2) [where source = source, OF serve(2) workers_stay_healthy [OF reach] serve(1) entry] show ?thesis .
  qed
qed (simp add: quickjs_worker_of_def mutex_new_def)

section \<open>Properties\<close>

text \<open>
  C40. A task runs the handler of its own stage file. On a worker that has served any tasks before, a task that
  succeeds called, with its plugin name, stage and input, the default export of the module that was loaded from its own wrapped source,
  and answers with the JSON of what the call returned; everything its script wrote to the console is attributed to its plugin and
  stage.
\<close>

theorem task_runs_own_handler:
  assumes start: "quickjs_worker_new S index = Some w0" and served: "(worker_step S source)\<^sup>*\<^sup>* w0 w"
    and src: "qt_source task = source (qt_entry_module_name task)"
    and run: "worker_execute S task w = (Ok v, events, w')"
  shows "(\<exists>handler context_value e result lines e' encoded.
      handler_built S source (qt_entry_module_name task) handler \<and> build_js_context_value S task = Ok context_value
      \<and> se_call S handler context_value e = (Some result, lines, e')
      \<and> encode_result_json S e' (qt_plugin_name task) (qt_stage task) result = Ok encoded \<and> se_from_str S encoded = Some v)
    \<and> (\<forall>event \<in> set events. \<exists>level message. event = ConsoleLine level (qt_plugin_name task) (label (qt_stage task)) message)"
proof -
  obtain e where w0: "w0 = quickjs_worker_of e" using start by (auto simp: quickjs_worker_new_def)
  note served = served [unfolded w0]
  obtain lines w1 where w1: "worker_healthy w1" "qw_handler_cache w1 = qw_handler_cache w"
    "qw_console_state w1 = mutex_new \<lparr>cs_plugin_name = qt_plugin_name task, cs_stage = label (qt_stage task)\<rparr>"
    "ls_entry_modules (mx_value (qw_loader_state w1)) (qt_entry_module_name task) = Some (build_entry_module_source (qt_source task))"
    "execute_quickjs_task S task w1 = (Ok v, lines, w')" "events = map (console_bridge (qw_console_state w1)) lines"
    using run workers_stay_healthy [OF served] by (rule worker_execute_run)
  have console: "\<forall>event \<in> set events. \<exists>level message. event = ConsoleLine level (qt_plugin_name task) (label (qt_stage task)) message"
    using w1(3,6) by (auto simp: console_bridge_def mutex_new_def)
  obtain h l2 w2 c r l3 w3 encoded where h: "load_stage_handler S task w1 = (Inr h, l2, w2)" and c: "build_js_context_value S task = Ok c"
    and call: "engine_call (se_call S h c) (CallFailed (qt_plugin_name task) (qt_stage task)) w2 = (Inr r, l3, w3)"
    and encoded: "encode_result_json S (qw_engine w3) (qt_plugin_name task) (qt_stage task) r = Ok encoded" "se_from_str S encoded = Some v"
    using w1(5) unfolding execute_quickjs_task_def script_bind_ok by (auto simp: result_simps)
  obtain r' l' w1' where "load_stage_handler S task w1 = (r', l', w1')" "qw_handler_cache w' = qw_handler_cache w1'"
    using execute_quickjs_task_frame [OF w1(5)] by blast
  then have "mx_value (qw_handler_cache w') (qt_entry_module_name task) = Some h" using load_stage_handler_effect [OF h] h by auto
  moreover have "(worker_step S source)\<^sup>*\<^sup>* (quickjs_worker_of e) w'" using served worker_step.serve [where source = source, OF src run] by auto
  ultimately have "handler_built S source (qt_entry_module_name task) h" by (rule handlers.cached_built [rotated])
  then show ?thesis using console c encoded engine_call_frame(4) [OF call refl] by blast
qed

text \<open>
  The module a stage was registered under is its entry module. Once a worker has prepared it, the resolver maps its
  name to itself from any importing module and whatever the plugin root, and the loader answers with the wrapped stage source, not with
  the file.
\<close>

definition canonicalize_law :: "(string \<Rightarrow> string option) \<Rightarrow> bool" where
  "canonicalize_law c \<longleftrightarrow> (\<forall>p q. c p = Some q \<longrightarrow> path_is_absolute q \<and> c q = Some q)"

theorem entry_module_is_stage_source:
  assumes files: "canonicalize_law (pe_canonicalize E)" "se_canonicalize S = pe_canonicalize E"
    and stage: "load_stage_source E root engine stage = Ok (Some src)"
    and canonical: "pe_canonicalize E (path_join root (stage_file_name engine stage)) = Some q" "CHR 0x5C \<notin> set q" "path_extension q \<noteq> None"
    and prepared: "prepare_entry_module plugin_root (pss_module_name src) (pss_source src) st = (Ok (), st')"
  shows "module_resolve S st' base (pss_module_name src) = Ok (pss_module_name src)
    \<and> module_load S st' (pss_module_name src) = Ok (build_entry_module_source (pss_source src))"
proof -
  have "map (\<lambda>c. if c = CHR 0x5C then CHR ''/'' else c) q = map (\<lambda>c. c) q" using canonical(2) by (intro map_cong) auto
  then have same: "map (\<lambda>c. if c = CHR 0x5C then CHR ''/'' else c) q = q" by simp
  have name: "pss_module_name src = q"
    using stage canonical(1) same by (auto simp: load_stage_source_def normalize_stage_module_name_def Let_def result_simps split: if_splits)
  have q: "path_is_absolute q" "se_canonicalize S q = Some q" using files canonical(1) by (auto simp: canonicalize_law_def)
  then have "\<not> starts_with q ''.''" "q \<noteq> CONSOLE_MODULE_SPECIFIER"
    by (cases q; auto simp: path_is_absolute_def starts_with_def CONSOLE_MODULE_SPECIFIER_def)+
  then show ?thesis using prepared q canonical(3) same name
    by (auto simp: prepare_entry_module_def module_resolve_def module_load_def current_plugin_root_def entry_module_source_def
        resolve_plugin_module_file_def normalize_module_name_def path_join_def split: if_splits)
qed

section \<open>Samples\<close>

text \<open>An engine whose values are JSON texts and whose handlers print a line and return the text of their module.\<close>

definition sample_engine :: "(nat, string, string, string, string, unit) script_env" where
  "sample_engine =
     \<lparr>se_engine_new = Some, se_import = \<lambda>resolve load name e. (Option.bind (resolve [] name) load, [], Suc e),
      se_finish = \<lambda>m e. (Some m, [], e), se_get_default = Some, se_restore = \<lambda>_ _. True,
      se_call = \<lambda>h v e. (Some h, [(''warn'', v)], Suc e), se_null = Some ''null'', se_bool = \<lambda>b. Some (if b then ''true'' else ''false''),
      se_integer = \<lambda>n. Some ''0'', se_float = \<lambda>_. Some ''0'', se_float_of_int = \<lambda>_. (), se_string = Some,
      se_array_new = Some [], se_array_set = \<lambda>a _ v. Some (a @ v), se_object_new = Some [], se_object_set = \<lambda>ob k v. Some (ob @ k @ v),
      se_is_undefined = \<lambda>_. False, se_stringify = \<lambda>v _. Some (Some v), se_to_string = Some, se_from_str = \<lambda>s. Some (JsonString s),
      se_canonicalize = \<lambda>p. if path_is_absolute p then Some p else None, se_read = \<lambda>_. None, se_console_source = ''console''\<rparr>"

definition sample_task :: "unit quickjs_task" where
  "sample_task = \<lparr>qt_plugin_name = ''p'', qt_stage = StageRequest, qt_source = ''x'', qt_plugin_root = ''/p'',
     qt_entry_module_name = ''/p/a.js'', qt_input = JsonArray [JsonNull, JsonBool True]\<rparr>"

lemmas sample_worker_simps = worker_execute_def execute_quickjs_task_def load_stage_handler_def script_bind_def engine_call_def
  prepare_entry_module_def module_resolve_def module_load_def current_plugin_root_def entry_module_source_def
  resolve_plugin_module_file_def normalize_module_name_def CONSOLE_MODULE_SPECIFIER_def path_join_def path_is_absolute_def
  starts_with_def path_extension_def path_file_name_def path_components_def path_component_def file_extension_def
  build_js_context_value_def encode_result_json_def console_bridge_def quickjs_worker_of_def shared_loader_state_new_def
  mutex_new_def sample_engine_def sample_task_def label_def

lemma sample_run:
  "\<exists>w'. worker_execute sample_engine sample_task (quickjs_worker_of 0) =
    (Ok (JsonString (build_entry_module_source ''x'')), [ConsoleLine TraceWarn ''p'' ''on_request'' ''pluginpstageon_requestinputnulltrue''], w')"
  by (simp add: sample_worker_simps)

theorem task_runs_own_handler_witness:
  "\<exists>events w' h. worker_execute sample_engine sample_task (quickjs_worker_of 0) = (Ok (JsonString (build_entry_module_source ''x'')), events, w')
     \<and> handler_built sample_engine (\<lambda>_. ''x'') ''/p/a.js'' h
     \<and> (\<forall>event \<in> set events. \<exists>level message. event = ConsoleLine level ''p'' ''on_request'' message)"
proof -
  obtain events w' where run: "worker_execute sample_engine sample_task (quickjs_worker_of 0) = (Ok (JsonString (build_entry_module_source ''x'')), events, w')"
    using sample_run by blast
  have "quickjs_worker_new sample_engine 0 = Some (quickjs_worker_of 0)" by (simp add: quickjs_worker_new_def sample_engine_def)
  note t = task_runs_own_handler [where source = "\<lambda>_. ''x''", OF this rtranclp.rtrancl_refl _ run]
  have s: "qt_source sample_task = ''x''" "qt_entry_module_name sample_task = ''/p/a.js''" "qt_plugin_name sample_task = ''p''"
    "label (qt_stage sample_task) = ''on_request''" by (simp_all add: sample_task_def label_def)
  from t [unfolded s, OF refl] run show ?thesis by blast
qed

definition sample_stage_env :: "string plugin_env" where
  "sample_stage_env = (sample_plugin_env \<lparr>pqo_action = None, pqo_request = None\<rparr>)\<lparr>pe_canonicalize := se_canonicalize sample_engine\<rparr>"

theorem entry_module_is_stage_source_witness:
  "module_load sample_engine (snd (prepare_entry_module ''/p'' ''/p/on_request.js'' ''x'' shared_loader_state_new)) ''/p/on_request.js''
     = Ok (build_entry_module_source ''x'')"
proof -
  let ?src = "\<lparr>pss_module_name = ''/p/on_request.js'', pss_source = ''x''\<rparr>"
  have law: "canonicalize_law (pe_canonicalize sample_stage_env)" "se_canonicalize sample_engine = pe_canonicalize sample_stage_env"
    by (auto simp: canonicalize_law_def sample_stage_env_def sample_engine_def)
  have q: "pe_canonicalize sample_stage_env (path_join ''/p'' (stage_file_name QuickJs StageRequest)) = Some ''/p/on_request.js''"
    "CHR 0x5C \<notin> set ''/p/on_request.js''" "path_extension ''/p/on_request.js'' \<noteq> None"
    by (simp_all add: sample_stage_env_def sample_worker_simps stage_file_name_def ends_with_def suffix_def)
  have stage: "load_stage_source sample_stage_env ''/p'' QuickJs StageRequest = Ok (Some ?src)"
    using q by (simp add: load_stage_source_def normalize_stage_module_name_def sample_stage_env_def sample_plugin_env_def
        stage_file_name_def path_join_def path_is_absolute_def starts_with_def ends_with_def suffix_def sample_engine_def
        trim_graphic ascii_graphic_def)
  obtain st where st: "prepare_entry_module ''/p'' (pss_module_name ?src) (pss_source ?src) shared_loader_state_new = (Ok (), st)"
    by (simp add: prepare_entry_module_def shared_loader_state_new_def mutex_new_def)
  from entry_module_is_stage_source [OF law stage q st] st show ?thesis by simp
qed

end
