(* ===== verification/Server.thy ===== *)
theory Server
  imports Routers Upstream Tls_Intercept Dns_Server Script_Worker
begin

text \<open>
  The server process around the loops of \<open>Reload\<close>: the state of \<^verbatim>\<open>src/src/gateway/state.rs\<close>, the snapshots and events that
  \<^verbatim>\<open>src/src/gateway/runtime.rs\<close> and \<^verbatim>\<open>src/src/watch.rs\<close> report while the configuration reloads, the launch and the shutdown of
  both modes, and the choice between them in \<^verbatim>\<open>src/src/main.rs\<close>. The live plugin registry is here the registry itself.
\<close>

section \<open>The state of the gateway (state.rs, runtime.rs)\<close>

record ('h, 'j, 'r, 'c, 'k) gateway_state =
  gs_executor :: "'r hyper_executor"
  gs_tls_intercept :: "('c, 'k) tls_intercept_state"
  gs_observability :: observability_runtime
  gs_app :: "('h, 'j) app_state"

definition tls_service_new ::
  "('p, 'c, 'k) tls_env \<Rightarrow> nat \<Rightarrow> files \<Rightarrow> (tls_error, ('c, 'k) tls_intercept_state) result \<times> files" where
  "tls_service_new T seed fs =
     (case get_or_generate_ca_cert T seed fs of
        (Inl e, fs) \<Rightarrow> (Err e, fs)
      | (Inr (ca_cert_pem, ca_key_pem), fs) \<Rightarrow> (Ok (tls_intercept_new ca_cert_pem ca_key_pem), fs))"

definition build_state ::
  "('p, 'c, 'k) tls_env \<Rightarrow> nat \<Rightarrow> files \<Rightarrow> ('h, 'j) app_config \<Rightarrow> 'h live_rule_set \<Rightarrow> 'j live_plugin_registry \<Rightarrow>
     (tls_error, ('h, 'j, 'r, 'c, 'k) gateway_state) result \<times> files" where
  "build_state T seed fs config rules plugins =
     (case tls_service_new T seed fs of
        (Inl e, fs) \<Rightarrow> (Err e, fs)
      | (Inr tls_intercept, fs) \<Rightarrow>
          (Ok \<lparr>gs_executor = hyper_executor_new, gs_tls_intercept = tls_intercept,
               gs_observability = observability_runtime_new (ac_observability config),
               gs_app = \<lparr>as_plugins = plugins, as_rules = rules\<rparr>\<rparr>, fs))"

section \<open>Snapshots\<close>

definition explicit_snapshot :: "('h, 'j) app_config \<Rightarrow> nat \<Rightarrow> nat \<Rightarrow> nat \<Rightarrow> runtime_snapshot" where
  "explicit_snapshot config rule_count plugin_count generation =
     \<lparr>sn_listen_addr = Some (ac_listen_addr config), sn_tls_listen_addr = None, sn_fake_dns_listen_addr = None,
      sn_active_rule_count = rule_count, sn_active_plugin_count = plugin_count, sn_reload_generation = of_nat generation\<rparr>"

definition transparent_snapshot :: "('h, 'j) app_config \<Rightarrow> nat \<Rightarrow> nat \<Rightarrow> nat \<Rightarrow> runtime_snapshot" where
  "transparent_snapshot config rule_count plugin_count generation =
     (let fake_dns_listen_addr =
            (if should_start_fake_dns_runtime (ac_backend config) then Some (fdo_listen_addr (bo_dns (ac_backend config))) else None)
      in \<lparr>sn_listen_addr = Some (ac_listen_addr config),
          sn_tls_listen_addr = Some \<lparr>sock_ip = sock_ip (ac_listen_addr config), sock_port = effective_tls_port config,
            sock_scope_id = 0\<rparr>,
          sn_fake_dns_listen_addr = fake_dns_listen_addr,
          sn_active_rule_count = rule_count, sn_active_plugin_count = plugin_count, sn_reload_generation = of_nat generation\<rparr>)"

text \<open>Both updates count the live rules and the live plugins at the time of the call.\<close>

definition update_snapshot ::
  "(('h, 'j) app_config \<Rightarrow> nat \<Rightarrow> nat \<Rightarrow> nat \<Rightarrow> runtime_snapshot) \<Rightarrow> ('h, 'j) app_config \<Rightarrow> 'h live_rule_set \<Rightarrow>
     'j live_plugin_registry \<Rightarrow> nat \<Rightarrow> observability_runtime \<Rightarrow> observability_runtime" where
  "update_snapshot snapshot config rules plugins generation obs =
     (let rule_count = rule_set_len (live_snapshot rules);
          plugin_count = registry_len (live_registry_snapshot plugins)
      in replace_snapshot (snapshot config rule_count plugin_count generation) obs)"

definition update_explicit_snapshot where
  "update_explicit_snapshot = update_snapshot explicit_snapshot"

definition update_transparent_snapshot where
  "update_transparent_snapshot = update_snapshot transparent_snapshot"

section \<open>Events\<close>

definition show_socket_addr :: "socket_addr \<Rightarrow> string" where
  "show_socket_addr a =
     (case sock_ip a of
        V4 w \<Rightarrow> show_ipv4 w
      | V6 w \<Rightarrow> ''['' @ show_ipv6 w @ (if sock_scope_id a = 0 then [] else ''%'' @ decimal (unat (sock_scope_id a))) @ '']'')
     @ '':'' @ decimal (unat (sock_port a))"

definition info_event :: "system_time \<Rightarrow> string \<Rightarrow> string \<Rightarrow> observability_event" where
  "info_event now kind message = observability_event_new now EvInfo kind message"

definition error_event :: "system_time \<Rightarrow> string \<Rightarrow> string \<Rightarrow> observability_event" where
  "error_event now kind message = observability_event_new now EvError kind message"

text \<open>The names of the two modes in events and messages.\<close>

datatype server_mode = Explicit | Transparent

definition mode_name :: "server_mode \<Rightarrow> string" where
  "mode_name mode = (case mode of Explicit \<Rightarrow> ''explicit'' | Transparent \<Rightarrow> ''transparent'')"

definition mode_title :: "server_mode \<Rightarrow> string" where
  "mode_title mode = (case mode of Explicit \<Rightarrow> ''Explicit'' | Transparent \<Rightarrow> ''Transparent'')"

definition started_event :: "server_mode \<Rightarrow> system_time \<Rightarrow> ('h, 'j) app_config \<Rightarrow> observability_event" where
  "started_event mode now config = info_event now (''runtime.'' @ mode_name mode @ ''_started'')
     (mode_title mode @ '' proxy listening on '' @ show_socket_addr (ac_listen_addr config))"

definition reloaded_event :: "server_mode \<Rightarrow> system_time \<Rightarrow> ('h, 'j) app_config \<Rightarrow> nat \<Rightarrow> observability_event" where
  "reloaded_event mode now config generation = info_event now (''runtime.'' @ mode_name mode @ ''_reloaded'')
     (''Applied '' @ mode_name mode @ '' runtime reload generation '' @ decimal generation @ '' on ''
       @ show_socket_addr (ac_listen_addr config))"

definition stopped_event :: "server_mode \<Rightarrow> system_time \<Rightarrow> ('h, 'j) app_config \<Rightarrow> observability_event" where
  "stopped_event mode now config = info_event now (''runtime.'' @ mode_name mode @ ''_stopped'')
     (mode_title mode @ '' proxy stopped on '' @ show_socket_addr (ac_listen_addr config))"

text \<open>The events of the watch task. A tick acts under the same conditions as in \<open>watch_tick\<close>; \<open>reload_tx\<close> says whether there is
  a channel and whether its receiver is alive, and \<open>show_error\<close> prints why a file did not load.\<close>

definition watch_started_event :: "system_time \<Rightarrow> string \<Rightarrow> observability_event" where
  "watch_started_event now path = info_event now ''config_watch.started'' (''Started config watch for '' @ path)"

definition watch_stopped_event :: "system_time \<Rightarrow> string \<Rightarrow> observability_event" where
  "watch_stopped_event now path = info_event now ''config_watch.stopped'' (''Stopped config watch for '' @ path)"

definition watch_due :: "system_time option \<Rightarrow> system_time \<Rightarrow> ('h, 'j) watch_state \<Rightarrow> bool" where
  "watch_due stat now w =
     (case stat of
        None \<Rightarrow> False
      | Some modified_time \<Rightarrow>
          \<not> (case ws_last_processed_modified w of Some previous \<Rightarrow> modified_time \<le> previous | None \<Rightarrow> False)
          \<and> ws_pending_modified w = Some modified_time
          \<and> modified_time_is_stable now modified_time CONFIG_WATCH_STABLE_WINDOW)"

definition watch_events ::
  "string \<Rightarrow> (config_error \<Rightarrow> string) \<Rightarrow> bool option \<Rightarrow> system_time option \<Rightarrow> system_time \<Rightarrow>
     (config_error, ('h, 'j) app_config) result \<Rightarrow> ('h, 'j) watch_state \<Rightarrow> observability_event list" where
  "watch_events path show_error reload_tx stat now loaded w =
     (if \<not> watch_due stat now w then []
      else case loaded of
        Inr reloaded_config \<Rightarrow>
          info_event now ''config_watch.rules_reloaded''
            (''Reloaded rules from '' @ path @ '' with '' @ decimal (rule_set_len (ac_rules reloaded_config)) @ '' active rules'')
          # (case reload_tx of
               None \<Rightarrow> []
             | Some True \<Rightarrow>
                 [info_event now ''config_watch.reload_enqueued''
                    (''Enqueued runtime reload generation '' @ decimal (min U64_MAX (ws_next_generation w + 1) - 1)
                      @ '' for '' @ path)]
             | Some False \<Rightarrow>
                 [error_event now ''config_watch.reload_enqueue_failed''
                    (''Failed to enqueue runtime reload for '' @ path @ '': channel closed'')])
      | Inl e \<Rightarrow>
          [error_event now ''config_watch.reload_failed'' (''Failed to reload config '' @ path @ '': '' @ show_error e)])"

section \<open>The receiving branch with what it reports\<close>

text \<open>The variables of a loop, the live plugin registry and the observability runtime both tasks share.\<close>

record ('s, 'j) observed =
  ob_loop :: 's
  ob_plugins :: "'j live_plugin_registry"
  ob_observability :: observability_runtime

definition with_plugins :: "'j plugin_env \<Rightarrow> ('h, 'j) supervisors \<Rightarrow> ('h, 'j) supervisors" where
  "with_plugins E S = S\<lparr>su_plugins := \<lambda>options rules. result_ok (registry_build E options rules) \<noteq> None\<rparr>"

text \<open>
  A stale request changes nothing. Otherwise the registry is rebuilt, the components are reloaded, and only when the loop goes on
  the snapshot is replaced and the event recorded: an error leaves the function before them.
\<close>

definition observed_reload ::
  "server_mode \<Rightarrow> (('h, 'j) app_config \<Rightarrow> nat \<Rightarrow> nat \<Rightarrow> nat \<Rightarrow> runtime_snapshot) \<Rightarrow> 'j plugin_env \<Rightarrow>
     ('h live_rule_set \<Rightarrow> ('h, 'j) config_reload_request \<Rightarrow> ('h, 'j) config_reload_request list \<Rightarrow> 's \<Rightarrow> 's) \<Rightarrow>
     ('s \<Rightarrow> bool) \<Rightarrow> ('s \<Rightarrow> nat) \<Rightarrow> ('s \<Rightarrow> ('h, 'j) app_config) \<Rightarrow> system_time \<Rightarrow> 'h live_rule_set \<Rightarrow>
     ('h, 'j) config_reload_request \<Rightarrow> ('h, 'j) config_reload_request list \<Rightarrow> ('s, 'j) observed \<Rightarrow> ('s, 'j) observed" where
  "observed_reload mode snapshot E recv running gen cfg now live first channel ob =
     (let (request, skipped) = take_latest_reload_request first channel 0
      in if crr_generation request \<le> gen (ob_loop ob) then ob
         else
           (let plugins = snd (plugins_reload E (ac_plugins (crr_config request)) live (ob_plugins ob));
                s = recv live first channel (ob_loop ob);
                ob = ob\<lparr>ob_loop := s, ob_plugins := plugins\<rparr>
            in if \<not> running s then ob
               else ob\<lparr>ob_observability :=
                        record_event (reloaded_event mode now (cfg s) (gen s))
                          (update_snapshot snapshot (cfg s) live plugins (gen s) (ob_observability ob))\<rparr>))"

definition transparent_observed_reload where
  "transparent_observed_reload E S =
     observed_reload Transparent transparent_snapshot E (serve_transparent_reload (with_plugins E S)) (\<lambda>s. se_exit s = None)
       se_active_generation se_active_config"

definition explicit_observed_reload where
  "explicit_observed_reload E S =
     observed_reload Explicit explicit_snapshot E (serve_explicit_reload (with_plugins E S)) (\<lambda>s. ex_exit s = None)
       ex_active_generation ex_active_config"

section \<open>The watch, the loop and the reports together\<close>

text \<open>The watch task first announces itself and then ticks; the flag says whether it has.\<close>

inductive observed_run ::
  "string \<Rightarrow> (config_error \<Rightarrow> string) \<Rightarrow>
     (system_time \<Rightarrow> 'h live_rule_set \<Rightarrow> ('h, 'j) config_reload_request \<Rightarrow> ('h, 'j) config_reload_request list \<Rightarrow>
        ('s, 'j) observed \<Rightarrow> ('s, 'j) observed) \<Rightarrow> ('s \<Rightarrow> bool) \<Rightarrow>
     ('h, 'j) watch_state \<times> bool \<times> ('s, 'j) observed \<Rightarrow> ('h, 'j) watch_state \<times> bool \<times> ('s, 'j) observed \<Rightarrow> bool"
  for path show_error recv running start where
  begin_run: "observed_run path show_error recv running start start"
| announce: "observed_run path show_error recv running start (w, False, ob) \<Longrightarrow> running (ob_loop ob) \<Longrightarrow>
     observed_run path show_error recv running start
       (w, True, ob\<lparr>ob_observability := record_event (watch_started_event now path) (ob_observability ob)\<rparr>)"
| tick: "observed_run path show_error recv running start (w, True, ob) \<Longrightarrow> running (ob_loop ob) \<Longrightarrow>
     observed_run path show_error recv running start
       (watch_tick True stat now loaded w, True,
        ob\<lparr>ob_observability := fold record_event (watch_events path show_error (Some True) stat now loaded w) (ob_observability ob)\<rparr>)"
| receive: "observed_run path show_error recv running start (w, announced, ob) \<Longrightarrow> running (ob_loop ob) \<Longrightarrow>
     ws_channel w = r # rs \<Longrightarrow>
     observed_run path show_error recv running start (w\<lparr>ws_channel := []\<rparr>, announced, recv now (ws_live_rules w) r rs ob)"

section \<open>Launch and shutdown\<close>

datatype launch_error = LaunchPlugins plugin_error | LaunchState tls_error | LaunchRuntime runtime_error

record ('h, 'j, 'p, 'c, 'k) launch_env =
  ln_supervisors :: "('h, 'j) supervisors"
  ln_plugins :: "'j plugin_env"
  ln_tls :: "('p, 'c, 'k) tls_env"
  ln_seed :: nat

text \<open>
  Both functions up to their loop. \<open>early\<close> are the events the watch task recorded before the snapshot, which it may since it is
  spawned first.
\<close>

definition launched ::
  "server_mode \<Rightarrow> (('h, 'j) app_config \<Rightarrow> nat \<Rightarrow> nat \<Rightarrow> nat \<Rightarrow> runtime_snapshot) \<Rightarrow> system_time \<Rightarrow> observability_event list \<Rightarrow>
     ('h, 'j) app_config \<Rightarrow> ('h, 'j, 'r, 'c, 'k) gateway_state \<Rightarrow> 's \<Rightarrow> ('s, 'j) observed" where
  "launched mode snapshot now early config state s =
     \<lparr>ob_loop = s, ob_plugins = as_plugins (gs_app state),
      ob_observability = record_event (started_event mode now config)
        (update_snapshot snapshot config (as_rules (gs_app state)) (as_plugins (gs_app state)) 0
          (fold record_event early (gs_observability state)))\<rparr>"

definition serve_transparent_launch ::
  "('h, 'j, 'p, 'c, 'k) launch_env \<Rightarrow> system_time \<Rightarrow> observability_event list \<Rightarrow> files \<Rightarrow> ('h, 'j) app_config \<Rightarrow>
     (launch_error, ('h, 'j, 'r, 'c, 'k) gateway_state \<times> (('h, 'j) serve_state, 'j) observed) result \<times> files" where
  "serve_transparent_launch L now early fs config =
     (let live_rules = live_new (ac_rules config)
      in case plugins_start (ln_plugins L) (ac_plugins config) live_rules of
           Inl e \<Rightarrow> (Err (LaunchPlugins e), fs)
         | Inr live_plugins \<Rightarrow>
             (case build_state (ln_tls L) (ln_seed L) fs config live_rules live_plugins of
                (Inl e, fs) \<Rightarrow> (Err (LaunchState e), fs)
              | (Inr state, fs) \<Rightarrow>
                  (case start_transparent_components (ln_supervisors L) config of
                     Inl e \<Rightarrow> (Err (LaunchRuntime e), fs)
                   | Inr runtime \<Rightarrow>
                       (Ok (state, launched Transparent transparent_snapshot now early config state
                          \<lparr>se_runtime = runtime, se_active_generation = 0, se_active_config = config,
                           se_plugins = (ac_plugins config, ac_rules config), se_exit = None\<rparr>), fs))))"

definition serve_explicit_launch ::
  "('h, 'j, 'p, 'c, 'k) launch_env \<Rightarrow> system_time \<Rightarrow> observability_event list \<Rightarrow> files \<Rightarrow> ('h, 'j) app_config \<Rightarrow>
     (launch_error, ('h, 'j, 'r, 'c, 'k) gateway_state \<times> (('h, 'j) explicit_state, 'j) observed) result \<times> files" where
  "serve_explicit_launch L now early fs config =
     (let live_rules = live_new (ac_rules config)
      in case plugins_start (ln_plugins L) (ac_plugins config) live_rules of
           Inl e \<Rightarrow> (Err (LaunchPlugins e), fs)
         | Inr live_plugins \<Rightarrow>
             (case build_state (ln_tls L) (ln_seed L) fs config live_rules live_plugins of
                (Inl e, fs) \<Rightarrow> (Err (LaunchState e), fs)
              | (Inr state, fs) \<Rightarrow>
                  (case start_http (ln_supervisors L) (ac_listen_addr config) of
                     Inl e \<Rightarrow> (Err (LaunchRuntime e), fs)
                   | Inr http \<Rightarrow>
                       (Ok (state, launched Explicit explicit_snapshot now early config state
                          \<lparr>ex_http = Some http, ex_active_generation = 0, ex_active_config = config,
                           ex_plugins = (ac_plugins config, ac_rules config), ex_exit = None\<rparr>), fs))))"

text \<open>The shutdown branches: first the watch is stopped and joined, when there is one, then the components.\<close>

definition maybe_spawn_config_watch ::
  "string option \<Rightarrow> ('h, 'j) app_config \<Rightarrow> 'h live_rule_set \<Rightarrow> system_time option \<Rightarrow> ('h, 'j) watch_state option" where
  "maybe_spawn_config_watch watch_config_path config live_rules stat =
     (case watch_config_path of
        Some path \<Rightarrow> Some (spawn_config_watch config live_rules stat)
      | None \<Rightarrow> None)"

definition stop_events ::
  "server_mode \<Rightarrow> system_time \<Rightarrow> string option \<Rightarrow> ('h, 'j) app_config \<Rightarrow> observability_event list" where
  "stop_events mode now watch_config_path config =
     (case watch_config_path of Some path \<Rightarrow> [watch_stopped_event now path] | None \<Rightarrow> []) @ [stopped_event mode now config]"

definition serve_explicit_shutdown :: "('h, 'j) explicit_state \<Rightarrow> ('h, 'j) explicit_state" where
  "serve_explicit_shutdown s = s\<lparr>ex_http := None, ex_exit := Some (Ok ())\<rparr>"

definition transparent_stop ::
  "system_time \<Rightarrow> string option \<Rightarrow> (('h, 'j) serve_state, 'j) observed \<Rightarrow> (('h, 'j) serve_state, 'j) observed" where
  "transparent_stop now watch_config_path ob =
     ob\<lparr>ob_loop := serve_transparent_shutdown (ob_loop ob),
        ob_observability := fold record_event (stop_events Transparent now watch_config_path (se_active_config (ob_loop ob)))
          (ob_observability ob)\<rparr>"

definition explicit_stop ::
  "system_time \<Rightarrow> string option \<Rightarrow> (('h, 'j) explicit_state, 'j) observed \<Rightarrow> (('h, 'j) explicit_state, 'j) observed" where
  "explicit_stop now watch_config_path ob =
     ob\<lparr>ob_loop := serve_explicit_shutdown (ob_loop ob),
        ob_observability := fold record_event (stop_events Explicit now watch_config_path (ex_active_config (ob_loop ob)))
          (ob_observability ob)\<rparr>"

section \<open>The process (main.rs, telemetry.rs, load_config)\<close>

record cli =
  cli_mode :: server_mode
  cli_config :: string
  cli_watch_config :: bool

definition cli_default :: cli where
  "cli_default = \<lparr>cli_mode = Explicit, cli_config = ''config.yml'', cli_watch_config = False\<rparr>"

datatype main_error =
    ConfigPathFailed config_error | ConfigReadFailed string | ConfigParseFailed string | ConfigInvalid config_error
  | TracerFailed | ServeFailed launch_error

record ('h, 'j, 'y, 'p, 'c, 'k) process_env =
  pc_is_file :: "string \<Rightarrow> bool"
  pc_read :: "string \<Rightarrow> string option"
  pc_from_yaml :: "string \<Rightarrow> ('j, 'y) raw_config option"
  pc_config :: "('h, 'j, 'y) config_env"
  pc_exporter :: "telemetry_options \<Rightarrow> bool"
  pc_launch :: "('h, 'j, 'p, 'c, 'k) launch_env"

definition load_config_file ::
  "('h, 'j, 'y, 'p, 'c, 'k) process_env \<Rightarrow> string \<Rightarrow> (main_error, ('h, 'j) app_config) result" where
  "load_config_file M path =
     (case pc_read M path of
        None \<Rightarrow> Err (ConfigReadFailed path)
      | Some raw \<Rightarrow>
          (case pc_from_yaml M raw of
             None \<Rightarrow> Err (ConfigParseFailed path)
           | Some parsed \<Rightarrow>
               (case load_config (pc_config M) (unwrap_or ''.'' (path_parent path)) parsed of
                  Inl e \<Rightarrow> Err (ConfigInvalid e)
                | Inr config \<Rightarrow> Ok config)))"

text \<open>The guard of the telemetry: whether it holds a tracer provider.\<close>

record telemetry_guard =
  tg_provider :: bool

definition init_tracing ::
  "('h, 'j, 'y, 'p, 'c, 'k) process_env \<Rightarrow> observability_options \<Rightarrow> (main_error, telemetry_guard) result" where
  "init_tracing M observability =
     (if \<not> oo_enabled observability then Ok \<lparr>tg_provider = False\<rparr>
      else bind_r (ensure_r (pc_exporter M (oo_telemetry observability)) TracerFailed) (\<lambda>_. Ok \<lparr>tg_provider = True\<rparr>))"

definition telemetry_shutdown :: "bool \<Rightarrow> telemetry_guard \<Rightarrow> (main_error, unit) result" where
  "telemetry_shutdown provider_ok g = (if tg_provider g \<and> \<not> provider_ok then Err TracerFailed else Ok ())"

datatype ('h, 'j) server =
    ExplicitServer "(('h, 'j) explicit_state, 'j) observed"
  | TransparentServer "(('h, 'j) serve_state, 'j) observed"

record ('h, 'j, 'r, 'c, 'k) process =
  ps_config :: "('h, 'j) app_config"
  ps_watch_config_path :: "string option"
  ps_guard :: telemetry_guard
  ps_state :: "('h, 'j, 'r, 'c, 'k) gateway_state"
  ps_server :: "('h, 'j) server"

text \<open>\<^verbatim>\<open>main\<close> up to the loop of the mode it serves.\<close>

definition main_launch ::
  "('h, 'j, 'y, 'p, 'c, 'k) process_env \<Rightarrow> system_time \<Rightarrow> observability_event list \<Rightarrow> files \<Rightarrow> cli \<Rightarrow>
     (main_error, ('h, 'j, 'r, 'c, 'k) process) result \<times> files" where
  "main_launch M now early fs cli =
     (case resolve_config_path (pc_is_file M) (cli_config cli) of
        Inl e \<Rightarrow> (Err (ConfigPathFailed e), fs)
      | Inr config_path \<Rightarrow>
         (case load_config_file M config_path of
            Inl e \<Rightarrow> (Err e, fs)
          | Inr config \<Rightarrow>
             (case init_tracing M (ac_observability config) of
                Inl e \<Rightarrow> (Err e, fs)
              | Inr telemetry_guard \<Rightarrow>
                 (let watch_config_path = (if cli_watch_config cli then Some config_path else None);
                      running = (\<lambda>state server. Ok \<lparr>ps_config = config, ps_watch_config_path = watch_config_path,
                        ps_guard = telemetry_guard, ps_state = state, ps_server = server\<rparr>)
                  in case cli_mode cli of
                       Explicit \<Rightarrow>
                         (case serve_explicit_launch (pc_launch M) now early fs config of
                            (Inl e, fs) \<Rightarrow> (Err (ServeFailed e), fs)
                          | (Inr (state, ob), fs) \<Rightarrow> (running state (ExplicitServer ob), fs))
                     | Transparent \<Rightarrow>
                         (case serve_transparent_launch (pc_launch M) now early fs config of
                            (Inl e, fs) \<Rightarrow> (Err (ServeFailed e), fs)
                          | (Inr (state, ob), fs) \<Rightarrow> (running state (TransparentServer ob), fs))))))"

text \<open>Requests of the TLS listener carry a marker into the same application.\<close>

definition attach_tls_marker :: "('h, 'b) request \<Rightarrow> ('h, 'b) request" where
  "attach_tls_marker request = request\<lparr>rq_tls_intercepted := True\<rparr>"

section \<open>Reports follow the loop\<close>

lemma watch_tick_due:
  "watch_due stat now w \<longleftrightarrow> (\<exists>m. stat = Some m \<and> ws_pending_modified w = Some m \<and>
     (\<forall>p. ws_last_processed_modified w = Some p \<longrightarrow> p < m) \<and> modified_time_is_stable now m CONFIG_WATCH_STABLE_WINDOW)"
  by (auto simp: watch_due_def split: option.splits)

text \<open>What both tasks do to the shared observability runtime is a list of its operations.\<close>

definition reports :: "observability_options \<Rightarrow> runtime_snapshot \<Rightarrow> observability_runtime \<Rightarrow> bool" where
  "reports options snapshot obs \<longleftrightarrow>
     (\<exists>ops. obs = fold observability_apply ops (observability_runtime_new options) \<and> replaced ops \<noteq> [] \<and> last (replaced ops) = snapshot)"

lemma reports_event:
  assumes "reports options snapshot obs"
  shows "reports options snapshot (record_event e obs)"
proof -
  obtain ops where "obs = fold observability_apply ops (observability_runtime_new options)" "replaced ops \<noteq> []"
    "last (replaced ops) = snapshot"
    using assms unfolding reports_def by blast
  then show ?thesis
    unfolding reports_def by (intro exI [of _ "ops @ [RecordEvent e]"]) (simp add: observability_apply_def)
qed

lemma reports_events: "reports options snapshot obs \<Longrightarrow> reports options snapshot (fold record_event es obs)"
  by (induction es arbitrary: obs) (simp_all add: reports_event)

lemma reports_replaced:
  assumes "reports options snapshot obs"
  shows "reports options snapshot' (replace_snapshot snapshot' obs)"
proof -
  obtain ops where "obs = fold observability_apply ops (observability_runtime_new options)"
    using assms unfolding reports_def by blast
  then show ?thesis
    unfolding reports_def by (intro exI [of _ "ops @ [ReplaceSnapshot snapshot']"]) (simp add: observability_apply_def)
qed

lemma reports_launched:
  "reports options snapshot (replace_snapshot snapshot (fold record_event es (observability_runtime_new options)))"
proof -
  have "fold record_event es = fold observability_apply (map RecordEvent es)"
    by (induction es) (simp_all add: observability_apply_def fun_eq_iff)
  then show ?thesis
    unfolding reports_def
    by (intro exI [of _ "map RecordEvent es @ [ReplaceSnapshot snapshot]"]) (simp add: observability_apply_def)
qed

lemma reported_state:
  assumes "reports options snapshot obs"
  shows "runtime_state obs = (if oo_enabled options then \<lparr>rsr_enabled = True, rsr_snapshot = Some snapshot\<rparr>
    else \<lparr>rsr_enabled = False, rsr_snapshot = None\<rparr>)"
proof -
  obtain ops where "obs = fold observability_apply ops (observability_runtime_new options)" "last (runtime_snapshot_default # replaced ops) = snapshot"
    using assms unfolding reports_def by (metis last_ConsR)
  then show ?thesis
    by (simp add: runtime_after runtime_state_def observability_enabled_def runtime_snapshot_of_def snapshot_store_snapshot_def
        mutex_new_def)
qed

text \<open>A loop that rebuilds its plugins from the live rules, with the registry at hand when it goes on.\<close>

locale observed_loop = reload_loop recv running gen cfg good
  for recv :: "'h live_rule_set \<Rightarrow> ('h, 'j) config_reload_request \<Rightarrow> ('h, 'j) config_reload_request list \<Rightarrow> 's \<Rightarrow> 's"
    and running :: "'s \<Rightarrow> bool" and gen :: "'s \<Rightarrow> nat" and cfg :: "'s \<Rightarrow> ('h, 'j) app_config" and good :: "'s \<Rightarrow> bool" +
  fixes E :: "'j plugin_env"
  assumes recv_builds: "gen s < crr_generation (last (r # rs)) \<Longrightarrow> running (recv live r rs s) \<Longrightarrow>
    \<exists>reg. registry_build E (ac_plugins (crr_config (last (r # rs)))) (live_snapshot live) = Ok reg"
begin

text \<open>The snapshot shows the active configuration, the registry is the one built from it and its rules.\<close>

definition described ::
  "(('h, 'j) app_config \<Rightarrow> nat \<Rightarrow> nat \<Rightarrow> nat \<Rightarrow> runtime_snapshot) \<Rightarrow> observability_options \<Rightarrow> ('s, 'j) observed \<Rightarrow> bool" where
  "described snapshot options ob \<longleftrightarrow>
     registry_build E (ac_plugins (cfg (ob_loop ob))) (ac_rules (cfg (ob_loop ob))) = Ok (live_registry_snapshot (ob_plugins ob))
   \<and> reports options (snapshot (cfg (ob_loop ob)) (rule_set_len (ac_rules (cfg (ob_loop ob))))
       (registry_len (live_registry_snapshot (ob_plugins ob))) (gen (ob_loop ob))) (ob_observability ob)"

lemma described_receive:
  assumes "loop_inv w (ob_loop ob)" "described snapshot options ob" "ws_channel w = r # rs"
    and "ob' = observed_reload mode snapshot E recv running gen cfg now (ws_live_rules w) r rs ob" "running (ob_loop ob')"
  shows "described snapshot options ob'"
proof -
  let ?q = "last (r # rs)" and ?s = "recv (ws_live_rules w) r rs (ob_loop ob)"
  have "?q \<in> set (ws_channel w)" using assms(3) by simp
  with assms(1) have newer: "gen (ob_loop ob) < crr_generation ?q"
    by (auto simp: loop_inv_def generations_ok_def)
  have ob': "ob_loop ob' = ?s"
    using newer unfolding assms(4) by (simp add: observed_reload_def take_latest Let_def)
  have good: "good (ob_loop ob)" and rules: "live_snapshot (ws_live_rules w) = ac_rules (crr_config ?q)"
    using assms(1,3) by (auto simp: loop_inv_def target_def)
  have q: "gen ?s = crr_generation ?q" "cfg ?s = crr_config ?q"
    using recv_newer [OF newer good] assms(5) ob' by auto
  obtain reg where reg: "registry_build E (ac_plugins (crr_config ?q)) (live_snapshot (ws_live_rules w)) = Ok reg"
    using recv_builds [OF newer] assms(5) ob' by metis
  have "ob' = ob\<lparr>ob_loop := ?s, ob_plugins := live_registry_replace reg (ob_plugins ob),
      ob_observability := record_event (reloaded_event mode now (cfg ?s) (gen ?s))
        (update_snapshot snapshot (cfg ?s) (ws_live_rules w) (live_registry_replace reg (ob_plugins ob)) (gen ?s) (ob_observability ob))\<rparr>"
    using newer reg assms(5) unfolding ob' unfolding assms(4)
    by (simp add: observed_reload_def take_latest Let_def plugins_reload_def build_registry_def)
  then show ?thesis
    using reg rules
    by (simp add: described_def q update_snapshot_def Let_def live_registry_replace_def live_registry_snapshot_def
        reports_event reports_replaced [OF assms(2) [unfolded described_def, THEN conjunct2]] del: last.simps)
qed

lemma observed_describes:
  assumes run: "observed_run path show_error (observed_reload mode snapshot E recv running gen cfg) running
      (spawn_config_watch (cfg (ob_loop ob0)) live stat0, announced, ob0) (w, announced', ob)"
    and init: "good (ob_loop ob0)" "gen (ob_loop ob0) = 0" "live_snapshot live = ac_rules (cfg (ob_loop ob0))"
      "described snapshot options ob0"
  shows "reload_run recv running (spawn_config_watch (cfg (ob_loop ob0)) live stat0, ob_loop ob0) (w, ob_loop ob)
    \<and> ws_next_generation w \<le> U64_MAX
    \<and> (running (ob_loop ob) \<longrightarrow> ws_next_generation w < U64_MAX \<longrightarrow> described snapshot options ob)"
  using run
proof (induction "(w, announced', ob)" arbitrary: w announced' ob)
  case begin_run
  then show ?case using init(4) reload_run.begin_run by (auto simp: spawn_config_watch_def U64_MAX_def)
next
  case (announce w ob now)
  then show ?case by (simp add: described_def reports_event)
next
  case (tick w ob stat now loaded)
  then show ?case
    using next_mono [of w stat now loaded] reload_run.tick by (auto simp: described_def reports_events)
next
  case (receive w announced' ob r rs now)
  let ?ob = "observed_reload mode snapshot E recv running gen cfg now (ws_live_rules w) r rs ob"
  have IH: "reload_run recv running (spawn_config_watch (cfg (ob_loop ob0)) live stat0, ob_loop ob0) (w, ob_loop ob)"
    "ws_next_generation w \<le> U64_MAX" "ws_next_generation w < U64_MAX \<longrightarrow> described snapshot options ob"
    using receive(2,3) by auto
  have "ob_loop ?ob = recv (ws_live_rules w) r rs (ob_loop ob)"
    using recv_stale [of r rs "ob_loop ob" "ws_live_rules w"] by (auto simp: observed_reload_def take_latest Let_def)
  then have base: "reload_run recv running (spawn_config_watch (cfg (ob_loop ob0)) live stat0, ob_loop ob0)
      (w\<lparr>ws_channel := []\<rparr>, ob_loop ?ob)"
    using reload_run.receive [OF IH(1) receive(3,4)] by simp
  have "described snapshot options ?ob" if "running (ob_loop ?ob)" "ws_next_generation w < U64_MAX"
  proof (rule described_receive [OF _ _ receive(4) refl that(1)])
    show "loop_inv w (ob_loop ob)" by (rule run_inv [OF IH(1) init(1-3) receive(3) that(2)])
    show "described snapshot options ob" using IH(3) that(2) by blast
  qed
  with base IH(2) show ?case by simp
qed

end

interpretation observed_transparent: observed_loop "serve_transparent_reload (with_plugins E S)" "\<lambda>s. se_exit s = None"
  se_active_generation se_active_config transparent_good E for E :: "'j plugin_env" and S :: "('h, 'j) supervisors"
  by unfold_locales
     (auto simp: serve_transparent_reload_def take_latest Let_def with_plugins_def result_simps split: if_splits sum.splits)

interpretation observed_explicit: observed_loop "serve_explicit_reload (with_plugins E S)" "\<lambda>s. ex_exit s = None"
  ex_active_generation ex_active_config explicit_good E for E :: "'j plugin_env" and S :: "('h, 'j) supervisors"
  by unfold_locales
     (auto simp: serve_explicit_reload_def take_latest Let_def with_plugins_def result_simps split: if_splits sum.splits)

lemma with_plugins_http [simp]: "start_http (with_plugins E S) = start_http S"
  by (simp add: fun_eq_iff start_http_def with_plugins_def)

lemma with_plugins_components [simp]: "start_transparent_components (with_plugins E S) = start_transparent_components S"
  by (simp add: fun_eq_iff start_transparent_components_def start_fake_dns_instance_def dns_start_def dns_build_def start_http_def
      start_tls_def start_intercept_def with_plugins_def)

lemma transparent_launched:
  assumes "serve_transparent_launch L now early fs config = (Ok (state, ob), fs')"
  shows "serve_transparent_start (with_plugins (ln_plugins L) (ln_supervisors L)) config = Ok (ob_loop ob)"
    and "se_active_config (ob_loop ob) = config" "se_active_generation (ob_loop ob) = 0" "transparent_good (ob_loop ob)"
    and "observed_transparent.described (ln_plugins L) transparent_snapshot (ac_observability config) ob"
proof -
  let ?S = "with_plugins (ln_plugins L) (ln_supervisors L)"
  obtain reg rt where reg: "registry_build (ln_plugins L) (ac_plugins config) (ac_rules config) = Ok reg"
    and rt: "start_transparent_components (ln_supervisors L) config = Ok rt"
    and state: "as_plugins (gs_app state) = live_registry_new reg" "as_rules (gs_app state) = live_new (ac_rules config)"
      "gs_observability state = observability_runtime_new (ac_observability config)"
    and ob: "ob = launched Transparent transparent_snapshot now early config state
      \<lparr>se_runtime = rt, se_active_generation = 0, se_active_config = config,
       se_plugins = (ac_plugins config, ac_rules config), se_exit = None\<rparr>"
    using assms
    by (auto simp: serve_transparent_launch_def Let_def plugins_start_def build_registry_def build_state_def bind_r_Ok_iff
        live_snapshot_def live_new_def split: sum.splits prod.splits)
  show "serve_transparent_start ?S config = Ok (ob_loop ob)"
    using reg rt by (simp add: serve_transparent_start_def ob launched_def) (simp add: with_plugins_def)
  show "se_active_config (ob_loop ob) = config" "se_active_generation (ob_loop ob) = 0" "transparent_good (ob_loop ob)"
    using start_components_match [OF rt] by (simp_all add: ob launched_def transparent_good_def)
  show "observed_transparent.described (ln_plugins L) transparent_snapshot (ac_observability config) ob"
    using reg by (simp add: observed_transparent.described_def ob launched_def state update_snapshot_def live_registry_snapshot_def
        live_registry_new_def live_snapshot_def live_new_def reports_event reports_launched Let_def)
qed

lemma explicit_launched:
  assumes "serve_explicit_launch L now early fs config = (Ok (state, ob), fs')"
  shows "ex_active_config (ob_loop ob) = config" "ex_active_generation (ob_loop ob) = 0" "explicit_good (ob_loop ob)"
    and "observed_explicit.described (ln_plugins L) explicit_snapshot (ac_observability config) ob"
proof -
  obtain reg http where reg: "registry_build (ln_plugins L) (ac_plugins config) (ac_rules config) = Ok reg"
    and http: "start_http (ln_supervisors L) (ac_listen_addr config) = Ok http"
    and state: "as_plugins (gs_app state) = live_registry_new reg" "as_rules (gs_app state) = live_new (ac_rules config)"
      "gs_observability state = observability_runtime_new (ac_observability config)"
    and ob: "ob = launched Explicit explicit_snapshot now early config state
      \<lparr>ex_http = Some http, ex_active_generation = 0, ex_active_config = config,
       ex_plugins = (ac_plugins config, ac_rules config), ex_exit = None\<rparr>"
    using assms
    by (auto simp: serve_explicit_launch_def Let_def plugins_start_def build_registry_def build_state_def bind_r_Ok_iff
        live_snapshot_def live_new_def split: sum.splits prod.splits)
  show "ex_active_config (ob_loop ob) = config" "ex_active_generation (ob_loop ob) = 0" "explicit_good (ob_loop ob)"
    using http by (simp_all add: ob launched_def explicit_good_def start_Ok_simps)
  show "observed_explicit.described (ln_plugins L) explicit_snapshot (ac_observability config) ob"
    using reg by (simp add: observed_explicit.described_def ob launched_def state update_snapshot_def live_registry_snapshot_def
        live_registry_new_def live_snapshot_def live_new_def reports_event reports_launched Let_def)
qed

text \<open>What the two modes have reached after any run: the loop invariant and the description of the state.\<close>

lemma transparent_run:
  assumes launch: "serve_transparent_launch L now early fs config = (Ok (state, ob0), fs')"
    and run: "observed_run path show_error (transparent_observed_reload (ln_plugins L) (ln_supervisors L)) (\<lambda>s. se_exit s = None)
      (spawn_config_watch config (live_new (ac_rules config)) stat0, announced, ob0) (w, announced', ob)"
    and running: "se_exit (ob_loop ob) = None" "ws_next_generation w < U64_MAX"
  shows "transparent.loop_inv w (ob_loop ob)"
    and "observed_transparent.described (ln_plugins L) transparent_snapshot (ac_observability config) ob"
proof -
  let ?E = "ln_plugins L" and ?S = "ln_supervisors L" and ?s = "ob_loop ob"
  note l = transparent_launched [OF launch]
  have live: "live_snapshot (live_new (ac_rules config)) = ac_rules (se_active_config (ob_loop ob0))"
    by (simp add: l live_snapshot_def live_new_def)
  have run': "observed_run path show_error
      (observed_reload Transparent transparent_snapshot ?E (serve_transparent_reload (with_plugins ?E ?S)) (\<lambda>s. se_exit s = None)
        se_active_generation se_active_config) (\<lambda>s. se_exit s = None)
      (spawn_config_watch (se_active_config (ob_loop ob0)) (live_new (ac_rules config)) stat0, announced, ob0) (w, announced', ob)"
    using run by (simp add: l(2) transparent_observed_reload_def)
  note d = observed_transparent.observed_describes [OF run' l(4,3) live l(5)]
  show "observed_transparent.described ?E transparent_snapshot (ac_observability config) ob" using d running by blast
  show "transparent.loop_inv w ?s" by (rule transparent.run_inv [OF conjunct1 [OF d] l(4,3) live running])
qed

lemma explicit_run:
  assumes launch: "serve_explicit_launch L now early fs config = (Ok (state, ob0), fs')"
    and run: "observed_run path show_error (explicit_observed_reload (ln_plugins L) (ln_supervisors L)) (\<lambda>s. ex_exit s = None)
      (spawn_config_watch config (live_new (ac_rules config)) stat0, announced, ob0) (w, announced', ob)"
    and running: "ex_exit (ob_loop ob) = None" "ws_next_generation w < U64_MAX"
  shows "explicit.loop_inv w (ob_loop ob)"
    and "observed_explicit.described (ln_plugins L) explicit_snapshot (ac_observability config) ob"
proof -
  let ?E = "ln_plugins L" and ?S = "ln_supervisors L" and ?s = "ob_loop ob"
  note l = explicit_launched [OF launch]
  have live: "live_snapshot (live_new (ac_rules config)) = ac_rules (ex_active_config (ob_loop ob0))"
    by (simp add: l live_snapshot_def live_new_def)
  have run': "observed_run path show_error
      (observed_reload Explicit explicit_snapshot ?E (serve_explicit_reload (with_plugins ?E ?S)) (\<lambda>s. ex_exit s = None)
        ex_active_generation ex_active_config) (\<lambda>s. ex_exit s = None)
      (spawn_config_watch (ex_active_config (ob_loop ob0)) (live_new (ac_rules config)) stat0, announced, ob0) (w, announced', ob)"
    using run by (simp add: l(1) explicit_observed_reload_def)
  note d = observed_explicit.observed_describes [OF run' l(3,2) live l(4)]
  show "observed_explicit.described ?E explicit_snapshot (ac_observability config) ob" using d running by blast
  show "explicit.loop_inv w ?s" by (rule explicit.run_inv [OF conjunct1 [OF d] l(3,2) live running])
qed

lemma explicit_state_described:
  assumes "serve_explicit_launch L now early fs config = (Ok (state, ob0), fs')"
    and "observed_run path show_error (explicit_observed_reload (ln_plugins L) (ln_supervisors L)) (\<lambda>s. ex_exit s = None)
      (spawn_config_watch config (live_new (ac_rules config)) stat0, announced, ob0) (w, announced', ob)"
    and "ex_exit (ob_loop ob) = None" "ws_next_generation w < U64_MAX" "oo_enabled (ac_observability config)"
  shows "\<exists>snapshot. runtime_state (ob_observability ob) = \<lparr>rsr_enabled = True, rsr_snapshot = Some snapshot\<rparr>
    \<and> sn_listen_addr snapshot = ex_http (ob_loop ob) \<and> sn_tls_listen_addr snapshot = None \<and> sn_fake_dns_listen_addr snapshot = None
    \<and> sn_active_plugin_count snapshot = registry_len (live_registry_snapshot (ob_plugins ob))"
  using reported_state [OF explicit_run(2) [OF assms(1-4), unfolded observed_explicit.described_def, THEN conjunct2]] assms(5)
    explicit_run(1) [OF assms(1-4)]
  by (simp add: explicit_snapshot_def explicit.loop_inv_def explicit_good_def)

text \<open>
  The snapshot reports the configured DNS listener also when it does not run: a reload that keeps the DNS settings keeps an instance
  without a listener, although the backend it switches to is reported with one.
\<close>

lemma snapshot_shows_absent_dns_listener:
  assumes "reload S nxt rt = (Ok (), rt')" "bo_dns (ac_backend nxt) = bo_dns (ac_backend (tr_config rt))"
    and "should_start_fake_dns_runtime (ac_backend nxt)" "tr_dns rt = Some \<lparr>fdi_options = options, fdi_runtime = False\<rparr>"
  shows "map_option fdi_runtime (tr_dns rt') = Some False"
    and "sn_fake_dns_listen_addr (transparent_snapshot nxt rules plugins generation) = Some (fdo_listen_addr (bo_dns (ac_backend nxt)))"
  using reload_keeps_dns_listener [OF assms(1,2)] assms(3,4) by (simp_all add: transparent_snapshot_def)

text \<open>
  The TLS listener is bound to every address of the host, while the snapshot shows it on the address of the HTTP listener.
\<close>

lemma snapshot_shows_other_tls_address:
  assumes "bind_dual_stack_tcp_listener K (effective_tls_port config) 1024 = Ok listener" "sock_ip (ac_listen_addr config) = V4 a"
  shows "sn_tls_listen_addr (transparent_snapshot config rules plugins generation) \<noteq> Some (li_local_addr listener)"
  using assms by (auto simp: bind_dual_stack_tcp_listener_def transparent_snapshot_def unspecified_v6_def Let_def result_simps)

text \<open>A clean shutdown stops every component, and the last events are those of the watch and of the runtime.\<close>

lemma events_after:
  assumes "reports options snapshot obs" "oo_enabled options" "length new \<le> DEFAULT_RECENT_EVENT_CAPACITY"
  shows "\<exists>es. rer_events (recent_events (fold record_event new obs)) = es @ new"
proof -
  obtain ops where "obs = fold observability_apply ops (observability_runtime_new options)"
    using assms(1) unfolding reports_def by blast
  moreover have "fold record_event new = fold observability_apply (map RecordEvent new)"
    by (induction new) (simp_all add: observability_apply_def fun_eq_iff)
  moreover have "recorded (ops @ map RecordEvent new) = recorded ops @ new"
    by (induction new rule: rev_induct) (simp_all flip: append_assoc)
  ultimately have "recent_events (fold record_event new obs) = \<lparr>rer_enabled = True, rer_events =
      drop (length (recorded ops @ new) - DEFAULT_RECENT_EVENT_CAPACITY) (recorded ops @ new)\<rparr>"
    using runtime_after [of "ops @ map RecordEvent new" options] assms(2)
    by (simp add: recent_events_def observability_enabled_def recent_events_of_def store_snapshot_def mutex_new_def)
  then show ?thesis using assms(3) by simp
qed

lemma transparent_stop_clean:
  assumes "serve_transparent_launch L now early fs config = (Ok (state, ob0), fs')"
    and "observed_run path show_error (transparent_observed_reload (ln_plugins L) (ln_supervisors L)) (\<lambda>s. se_exit s = None)
      (spawn_config_watch config (live_new (ac_rules config)) stat0, announced, ob0) (w, announced', ob)"
    and "se_exit (ob_loop ob) = None" "ws_next_generation w < U64_MAX" "oo_enabled (ac_observability config)"
    and "ob' = transparent_stop end_time (Some path) ob" "rt = se_runtime (ob_loop ob')"
  shows "tr_intercept rt = None \<and> tr_dns rt = None \<and> tr_http rt = None \<and> tr_tls rt = None \<and> se_exit (ob_loop ob') = Some (Ok ())"
    and "\<exists>es. rer_events (recent_events (ob_observability ob')) =
      es @ [watch_stopped_event end_time path, stopped_event Transparent end_time (se_active_config (ob_loop ob))]"
proof -
  show "tr_intercept rt = None \<and> tr_dns rt = None \<and> tr_http rt = None \<and> tr_tls rt = None \<and> se_exit (ob_loop ob') = Some (Ok ())"
    using assms(6,7) by (simp add: transparent_stop_def serve_transparent_shutdown_def shutdown_def)
  show "\<exists>es. rer_events (recent_events (ob_observability ob')) =
      es @ [watch_stopped_event end_time path, stopped_event Transparent end_time (se_active_config (ob_loop ob))]"
    using events_after [OF transparent_run(2) [OF assms(1-4), unfolded observed_transparent.described_def, THEN conjunct2] assms(5),
        of "stop_events Transparent end_time (Some path) (se_active_config (ob_loop ob))"] assms(6)
    by (simp add: transparent_stop_def stop_events_def DEFAULT_RECENT_EVENT_CAPACITY_def)
qed

section \<open>Properties\<close>


text \<open>A process with observability on that is reloaded once: the plugins are off and every component starts.\<close>

definition sample_launch :: "(unit, string, string, string, string) launch_env" where
  "sample_launch = \<lparr>ln_supervisors = \<lparr>su_http = \<lambda>_. True, su_tls = \<lambda>_. True, su_dns_server = \<lambda>_. True, su_dns_runtime = \<lambda>_. True,
       su_intercept = \<lambda>_. True, su_plugins = \<lambda>_ _. True\<rparr>,
     ln_plugins = sample_plugin_env (sample_answer PaDirect None), ln_tls = sample_tls, ln_seed = 0\<rparr>"

definition sample_server :: "u16 \<Rightarrow> (unit, string) app_config" where
  "sample_server port = \<lparr>ac_listen_addr = \<lparr>sock_ip = V4 0x7F000001, sock_port = port, sock_scope_id = 0\<rparr>, ac_tls_port = None,
     ac_backend = sample_backend TunKind, ac_observability = \<lparr>oo_enabled = True, oo_telemetry =
       \<lparr>to_service_name = ''a'', to_otlp_endpoint = ''b''\<rparr>\<rparr>,
     ac_plugins = \<lparr>pro_enabled = False, pro_workers = 1, pro_definitions = []\<rparr>, ac_rules = rule_set_new stop_rules\<rparr>"

lemma sample_registry_build: "registry_build E (ac_plugins (sample_server p)) rules = Ok registry_default"
  by (simp add: registry_build_def sample_server_def)

lemma sample_launches:
  "\<exists>state ob. serve_transparent_launch sample_launch now early Map.empty (sample_server 8787) =
     (Ok (state, ob), [''anymirror_ca.crt'' \<mapsto> ''ca'', ''anymirror_ca.key'' \<mapsto> ''ca''])
     \<and> tr_config (se_runtime (ob_loop ob)) = sample_server 8787 \<and> se_exit (ob_loop ob) = None"
  by (simp add: serve_transparent_launch_def plugins_start_def build_registry_def sample_registry_build build_state_def
      tls_service_new_def get_or_generate_ca_cert_def build_ca_params_def sample_tls_def sample_launch_def
      start_transparent_components_def start_fake_dns_instance_def dns_build_def dns_start_def start_http_def start_tls_def
      start_intercept_def launched_def Let_def)


end
