(* ===== verification/Tun_Dns.thy ===== *)
theory Tun_Dns
  imports Config
begin

text \<open>
  The DNS side of the TUN backend: the address plan and the hijack decision of
  \<^verbatim>\<open>src/src/traffic/tun/dns_hijack/mod.rs\<close>, and the platform settings of
  \<^verbatim>\<open>src/src/traffic/tun/dns_hijack/platforms/\<close>. The operating system is an argument, the programs that are run and the
  device are the fields of \<open>platform\<close>; a configuration step returns the commands it ran. Log lines are left out.
\<close>

section \<open>The address plan (dns_hijack/mod.rs)\<close>

datatype tun_dns_transport = TunUdp | TunTcp

record tun_dns_plan =
  tdp_tun_addr_v4 :: u32
  tdp_tun_addr_v6 :: u128
  tdp_dns_addr_v4 :: u32
  tdp_dns_addr_v6 :: u128
  tdp_first_fake_v4 :: u32
  tdp_first_fake_v6 :: u128

definition tun_dns_plan_new :: "ipv4_net \<Rightarrow> ipv6_net \<Rightarrow> tun_dns_plan" where
  "tun_dns_plan_new fake_ipv4_range fake_ipv6_range =
     (let network_v4 = net4_network fake_ipv4_range; network_v6 = net6_network fake_ipv6_range
      in \<lparr>tdp_tun_addr_v4 = saturating_add network_v4 1, tdp_tun_addr_v6 = saturating_add network_v6 1,
          tdp_dns_addr_v4 = saturating_add network_v4 2, tdp_dns_addr_v6 = saturating_add network_v6 2,
          tdp_first_fake_v4 = saturating_add network_v4 3, tdp_first_fake_v6 = saturating_add network_v6 3\<rparr>)"

definition spec_matches_transport :: "tun_dns_hijack_transport \<Rightarrow> tun_dns_transport \<Rightarrow> bool" where
  "spec_matches_transport expected actual \<longleftrightarrow>
     expected = HijackUdp \<and> actual = TunUdp \<or> expected = HijackTcp \<and> actual = TunTcp"

definition spec_matches_dns_target :: "tun_dns_hijack_spec \<Rightarrow> tun_dns_transport \<Rightarrow> socket_addr \<Rightarrow> bool" where
  "spec_matches_dns_target spec transport target_addr =
     (if \<not> spec_matches_transport (th_transport spec) transport then False
      else case th_target spec of
             HijackAny port \<Rightarrow> sock_port target_addr = port
           | HijackExact addr \<Rightarrow> target_addr = addr)"

definition matches_reserved_dns_target :: "tun_dns_plan \<Rightarrow> socket_addr \<Rightarrow> bool" where
  "matches_reserved_dns_target plan target_addr =
     (if sock_port target_addr \<noteq> 53 then False
      else sock_ip target_addr = V4 (tdp_dns_addr_v4 plan) \<or> sock_ip target_addr = V6 (tdp_dns_addr_v6 plan))"

definition plan_should_hijack_dns ::
  "tun_dns_plan \<Rightarrow> tun_dns_hijack_spec list \<Rightarrow> tun_dns_transport \<Rightarrow> socket_addr \<Rightarrow> bool" where
  "plan_should_hijack_dns plan specs transport target_addr \<longleftrightarrow>
     matches_reserved_dns_target plan target_addr
     \<or> list_ex (\<lambda>spec. spec_matches_dns_target spec transport target_addr) specs"

section \<open>Platform settings (platforms/)\<close>

datatype target_os = Windows | Linux | MacOs | OtherOs

text \<open>The output of a command: whether it succeeded, what it wrote, and a failure to start it.\<close>

record command_output =
  co_success :: bool
  co_stdout :: string

record platform =
  pl_run :: "string \<Rightarrow> string list \<Rightarrow> command_output option"
  pl_device_name :: "string option"
  pl_device_if_index :: "nat option"
  pl_set_dns_servers :: "ip_addr list \<Rightarrow> bool"
  pl_clear_dns_servers :: "bool \<Rightarrow> bool"

type_synonym command = "string \<times> string list"

datatype platform_error =
    CommandFailed string "string list"
  | DeviceNameFailed
  | DeviceIndexFailed
  | DnsServerParseFailed string
  | SetDnsFailed
  | ClearDnsFailed
  | NotImplementedFor target_os

datatype platform_dns_guard =
    NoopGuard
  | WindowsGuard "ip_addr list" "ip_addr list"
  | LinuxGuard string

text \<open>\<^verbatim>\<open>resolvectl\<close> (linux/resolvectl.rs): the commands in their order; the first failure stops the configuration.\<close>

definition run_resolvectl :: "platform \<Rightarrow> string list \<Rightarrow> (platform_error, unit) result" where
  "run_resolvectl P args =
     (case pl_run P ''resolvectl'' args of
        Some output \<Rightarrow> if co_success output then Ok () else Err (CommandFailed ''resolvectl'' args)
      | None \<Rightarrow> Err (CommandFailed ''resolvectl'' args))"

definition ensure_resolvectl_available :: "platform \<Rightarrow> (platform_error, unit) result" where
  "ensure_resolvectl_available P = run_resolvectl P [''--version'']"

fun run_all :: "platform \<Rightarrow> string list list \<Rightarrow> (platform_error, unit) result \<times> command list" where
  "run_all P [] = (Ok (), [])"
| "run_all P (args # rest) =
     (case run_resolvectl P args of
        Inl e \<Rightarrow> (Err e, [(''resolvectl'', args)])
      | Inr _ \<Rightarrow> (case run_all P rest of (r, commands) \<Rightarrow> (r, (''resolvectl'', args) # commands)))"

definition resolvectl_settings :: "string \<Rightarrow> tun_dns_plan \<Rightarrow> string list list" where
  "resolvectl_settings interface_name plan =
     [[''dns'', interface_name, show_ipv4 (tdp_dns_addr_v4 plan), show_ipv6 (tdp_dns_addr_v6 plan)],
      [''domain'', interface_name, ''~.''],
      [''default-route'', interface_name, ''yes''],
      [''llmnr'', interface_name, ''no''],
      [''mdns'', interface_name, ''no'']]"

definition linux_configure ::
  "platform \<Rightarrow> tun_dns_plan \<Rightarrow> (platform_error, platform_dns_guard) result \<times> command list" where
  "linux_configure P plan =
     (case ensure_resolvectl_available P of
        Inl e \<Rightarrow> (Err e, [(''resolvectl'', [''--version''])])
      | Inr _ \<Rightarrow>
         (case pl_device_name P of
            None \<Rightarrow> (Err DeviceNameFailed, [(''resolvectl'', [''--version''])])
          | Some interface_name \<Rightarrow>
             (case run_all P (resolvectl_settings interface_name plan) of
                (r, commands) \<Rightarrow> (bind_r r (\<lambda>_. Ok (LinuxGuard interface_name)), (''resolvectl'', [''--version'']) # commands))))"

text \<open>The Windows adapter (windows.rs): PowerShell prints the servers of a family separated by commas.\<close>

definition parse_dns_servers :: "string \<Rightarrow> (platform_error, ip_addr list) result" where
  "parse_dns_servers stdout =
     (let trimmed = trim stdout
      in if trimmed = [] then Ok []
         else collect_r (\<lambda>entry. ok_or (DnsServerParseFailed entry) (parse_ip_addr (trim entry))) (split_on CHR '','' trimmed))"

definition query_command :: "nat \<Rightarrow> string \<Rightarrow> string" where
  "query_command interface_index family =
     ''$addresses = (Get-DnsClientServerAddress -InterfaceIndex '' @ decimal interface_index @ '' -AddressFamily '' @ family
     @ '').ServerAddresses; if ($null -eq $addresses) { '' @ [CHR 0x27, CHR 0x27] @ '' } else { [string]::Join('' @ [CHR 0x27]
     @ '','' @ [CHR 0x27] @ '', $addresses) }''"

definition query_dns_servers :: "platform \<Rightarrow> string \<Rightarrow> (platform_error, ip_addr list) result" where
  "query_dns_servers P family =
     bind_r (ok_or DeviceIndexFailed (pl_device_if_index P)) (\<lambda>interface_index.
     let args = [''-NoProfile'', ''-NonInteractive'', ''-Command'', query_command interface_index family]
     in case pl_run P ''powershell.exe'' args of
          Some output \<Rightarrow> if co_success output then parse_dns_servers (co_stdout output) else Err (CommandFailed ''powershell.exe'' args)
        | None \<Rightarrow> Err (CommandFailed ''powershell.exe'' args))"

definition windows_configure :: "platform \<Rightarrow> tun_dns_plan \<Rightarrow> (platform_error, platform_dns_guard) result" where
  "windows_configure P plan =
     bind_r (query_dns_servers P ''IPv4'') (\<lambda>original_ipv4_dns.
     bind_r (query_dns_servers P ''IPv6'') (\<lambda>original_ipv6_dns.
     bind_r (ensure_r (pl_set_dns_servers P [V4 (tdp_dns_addr_v4 plan)]) SetDnsFailed) (\<lambda>_.
     Ok (WindowsGuard original_ipv4_dns original_ipv6_dns))))"

definition restore_dns_family :: "platform \<Rightarrow> bool \<Rightarrow> ip_addr list \<Rightarrow> (platform_error, unit) result" where
  "restore_dns_family P is_ipv4 original_dns =
     (if original_dns = [] then ensure_r (pl_clear_dns_servers P is_ipv4) ClearDnsFailed
      else ensure_r (pl_set_dns_servers P original_dns) SetDnsFailed)"

definition guard_restore :: "platform \<Rightarrow> platform_dns_guard \<Rightarrow> (platform_error, unit) result" where
  "guard_restore P guard =
     (case guard of
        NoopGuard \<Rightarrow> Ok ()
      | WindowsGuard v4 v6 \<Rightarrow> bind_r (restore_dns_family P True v4) (\<lambda>_. restore_dns_family P False v6)
      | LinuxGuard interface_name \<Rightarrow> run_resolvectl P [''revert'', interface_name])"

definition configure_platform_dns ::
  "target_os \<Rightarrow> platform \<Rightarrow> tun_platform_dns_mode \<Rightarrow> tun_dns_plan \<Rightarrow> (platform_error, platform_dns_guard) result" where
  "configure_platform_dns os P mode plan =
     (if mode = ManualDns then Ok NoopGuard
      else case os of
             Windows \<Rightarrow> windows_configure P plan
           | Linux \<Rightarrow> fst (linux_configure P plan)
           | MacOs \<Rightarrow> Err (NotImplementedFor MacOs)
           | OtherOs \<Rightarrow> Err (NotImplementedFor OtherOs))"

end
