(* ===== verification/Tun.thy ===== *)
theory Tun
  imports Tun_Dns Byte_Stream
begin

text \<open>
  The TUN backend: \<^verbatim>\<open>src/src/traffic/tun/{mod,system,smoltcp}.rs\<close>. The user-space network stack, the device and the
  sockets are arguments: a loop takes the events its \<^verbatim>\<open>select!\<close> delivers in their order, whether a send succeeds is a
  predicate on the round. A bridge task is its record; whether it is finished is a predicate on tasks. Ports are 16 bit wide and wrap as
  in a release build.
\<close>

section \<open>The runtime context (tun/mod.rs)\<close>

record transparent_intercept_runtime_config =
  irc_tls_port :: "u16 option"
  irc_fake_ipv4_range :: ipv4_net
  irc_fake_ipv6_range :: ipv6_net

record tun_runtime_context =
  tc_tun_name :: string
  tc_tun_mtu :: u16
  tc_proxy_redirect_addr :: socket_addr
  tc_tls_port :: u16
  tc_fake_ipv4_range :: ipv4_net
  tc_fake_ipv6_range :: ipv6_net
  tc_platform_dns :: tun_platform_dns_mode
  tc_dns_plan :: tun_dns_plan
  tc_dns_hijack :: "tun_dns_hijack_spec list"

definition tun_runtime_context_new ::
  "transparent_intercept_runtime_config \<Rightarrow> tun_backend_options \<Rightarrow> socket_addr \<Rightarrow> tun_runtime_context" where
  "tun_runtime_context_new runtime_config backend proxy_redirect_addr =
     \<lparr>tc_tun_name = tbo_name backend, tc_tun_mtu = tbo_mtu backend, tc_proxy_redirect_addr = proxy_redirect_addr,
      tc_tls_port = unwrap_or (sock_port proxy_redirect_addr + 1) (irc_tls_port runtime_config),
      tc_fake_ipv4_range = irc_fake_ipv4_range runtime_config, tc_fake_ipv6_range = irc_fake_ipv6_range runtime_config,
      tc_platform_dns = tbo_platform_dns backend,
      tc_dns_plan = tun_dns_plan_new (irc_fake_ipv4_range runtime_config) (irc_fake_ipv6_range runtime_config),
      tc_dns_hijack = tbo_dns_hijack backend\<rparr>"

definition should_hijack_dns :: "tun_runtime_context \<Rightarrow> tun_dns_transport \<Rightarrow> socket_addr \<Rightarrow> bool" where
  "should_hijack_dns context transport target_addr =
     plan_should_hijack_dns (tc_dns_plan context) (tc_dns_hijack context) transport target_addr"

section \<open>Starting (smoltcp.rs, system.rs)\<close>

text \<open>The TUN device and the parts the stack builder returned.\<close>

record tun_env =
  tn_os :: target_os
  tn_platform :: platform
  tn_build_device :: "tun_runtime_context \<Rightarrow> bool"
  tn_build_stack :: "(bool \<times> bool \<times> bool) option"

datatype tun_error =
    TunDeviceFailed
  | PlatformDnsFailed platform_error
  | StackFailed
  | RunnerMissing
  | UdpSocketMissing
  | TcpListenerMissing
  | SystemStackTodo string u16
  | WinDivertUnsupported

datatype bridge_task =
    DnsTcpTask socket_addr socket_addr
  | BridgeTask socket_addr socket_addr socket_addr "string option"

record smoltcp_handle =
  sh_core_tasks :: "string list"
  sh_bridge_tasks :: "bridge_task list mutex"
  sh_platform_dns_guard :: platform_dns_guard

definition run_transparent_tun_smoltcp_runtime ::
  "tun_env \<Rightarrow> tun_runtime_context \<Rightarrow> (tun_error, smoltcp_handle) result" where
  "run_transparent_tun_smoltcp_runtime N context =
     bind_r (ensure_r (tn_build_device N context) TunDeviceFailed) (\<lambda>_.
     case configure_platform_dns (tn_os N) (tn_platform N) (tc_platform_dns context) (tc_dns_plan context) of
       Inl e \<Rightarrow> Err (PlatformDnsFailed e)
     | Inr guard \<Rightarrow>
         bind_r (ok_or StackFailed (tn_build_stack N)) (\<lambda>(runner, udp_socket, tcp_listener).
         bind_r (ensure_r runner RunnerMissing) (\<lambda>_.
         bind_r (ensure_r udp_socket UdpSocketMissing) (\<lambda>_.
         bind_r (ensure_r tcp_listener TcpListenerMissing) (\<lambda>_.
         Ok \<lparr>sh_core_tasks = [''tun-smoltcp-runner'', ''tun-smoltcp-ingress'', ''tun-smoltcp-egress'', ''tun-smoltcp-tcp'', ''tun-smoltcp-udp''],
             sh_bridge_tasks = mutex_new [], sh_platform_dns_guard = guard\<rparr>)))))"

definition run_transparent_tun_system_runtime :: "tun_runtime_context \<Rightarrow> (tun_error, smoltcp_handle) result" where
  "run_transparent_tun_system_runtime context = Err (SystemStackTodo (tc_tun_name context) (tc_tun_mtu context))"

definition run_transparent_tun_runtimes ::
  "tun_env \<Rightarrow> transparent_intercept_runtime_config \<Rightarrow> tun_backend_options \<Rightarrow> socket_addr \<Rightarrow> (tun_error, smoltcp_handle) result" where
  "run_transparent_tun_runtimes N runtime_config backend proxy_redirect_addr =
     (let context = tun_runtime_context_new runtime_config backend proxy_redirect_addr
      in case tbo_stack backend of
           SystemStack \<Rightarrow> run_transparent_tun_system_runtime context
         | SmoltcpStack \<Rightarrow> run_transparent_tun_smoltcp_runtime N context)"

section \<open>TCP (smoltcp.rs)\<close>

definition select_tcp_dispatch_target :: "tun_runtime_context \<Rightarrow> socket_addr \<Rightarrow> socket_addr" where
  "select_tcp_dispatch_target context target_addr =
     (if sock_port target_addr = 443
      then \<lparr>sock_ip = sock_ip (tc_proxy_redirect_addr context), sock_port = tc_tls_port context, sock_scope_id = 0\<rparr>
      else tc_proxy_redirect_addr context)"

definition prune_bridge_tasks :: "(bridge_task \<Rightarrow> bool) \<Rightarrow> bridge_task list mutex \<Rightarrow> bridge_task list mutex" where
  "prune_bridge_tasks finished tasks =
     (if mx_poisoned tasks then tasks else tasks\<lparr>mx_value := filter (\<lambda>task. \<not> finished task) (mx_value tasks)\<rparr>)"

text \<open>A round of \<^verbatim>\<open>run_tcp_accept_loop\<close>: the accepted stream is dispatched to a new task.\<close>

definition dispatch_tcp ::
  "tun_runtime_context \<Rightarrow> instant \<Rightarrow> socket_addr \<Rightarrow> socket_addr \<Rightarrow> 'h fake_dns_state \<Rightarrow> bridge_task \<times> 'h fake_dns_state" where
  "dispatch_tcp context now client_addr target_addr st =
     (if should_hijack_dns context TunTcp target_addr then (DnsTcpTask client_addr target_addr, st)
      else case resolve_fake_domain st (sock_ip target_addr) now of
             (domain, st) \<Rightarrow> (BridgeTask client_addr target_addr (select_tcp_dispatch_target context target_addr) domain, st))"

definition tcp_accept ::
  "tun_runtime_context \<Rightarrow> instant \<Rightarrow> (bridge_task \<Rightarrow> bool) \<Rightarrow> socket_addr \<Rightarrow> socket_addr \<Rightarrow>
     bridge_task list mutex \<times> 'h fake_dns_state \<Rightarrow> bridge_task list mutex \<times> 'h fake_dns_state" where
  "tcp_accept context now finished client_addr target_addr s =
     (let tasks = prune_bridge_tasks finished (fst s); (task, st) = dispatch_tcp context now client_addr target_addr (snd s)
      in (if mx_poisoned tasks then tasks else tasks\<lparr>mx_value := mx_value tasks @ [task]\<rparr>, st))"

text \<open>DNS over TCP: each message has its length in front; a response goes out with its own.\<close>

datatype dns_tcp_error = ReadLengthFailed | ReadPayloadFailed nat | ResolveFailed dns_error | ResponseTooLong | WriteFailed

fun stream_size :: "stream \<Rightarrow> nat" where
  "stream_size [] = 0"
| "stream_size (Data bs # s) = length bs + stream_size s"
| "stream_size (IoError # s) = stream_size s"

lemma stream_read_size: "stream_read n s = Ok (bs, s') \<Longrightarrow> stream_size s = length bs + stream_size s'"
  by (auto simp: stream_read_def split: list.splits chunk.splits if_splits)

lemma read_exact_size: "read_exact n s = Ok (Some (bs, s')) \<Longrightarrow> length bs = n \<and> stream_size s = n + stream_size s'"
proof (induction n s arbitrary: bs s' rule: read_exact.induct)
  case (1 n s)
  show ?case
  proof (cases "n = 0")
    case True
    then show ?thesis using "1.prems" by (simp add: read_exact.simps)
  next
    case False
    have eq: "read_exact n s = (case stream_read n s of Inl e \<Rightarrow> Err e | Inr (bs, s') \<Rightarrow>
        if bs = [] then Ok None else bind_r (read_exact (n - length bs) s') (\<lambda>r. Ok (map_option (\<lambda>(rest, s'). (bs @ rest, s')) r)))"
      using False by (subst read_exact.simps) simp
    from "1.prems" obtain c t rest where r: "stream_read n s = Ok (c, t)" "c \<noteq> []"
      "read_exact (n - length c) t = Ok (Some (rest, s'))" "bs = c @ rest"
      unfolding eq by (auto simp: result_simps split: sum.splits if_splits prod.splits option.splits)
    have "length c \<le> n" using r(1) by (auto simp: stream_read_def split: list.splits chunk.splits if_splits)
    then show ?thesis using "1.IH" [OF False r(1) refl r(2,3)] stream_read_size [OF r(1)] r(4) by simp
  qed
qed

function dns_tcp_loop ::
  "dns_lib \<Rightarrow> (nat \<Rightarrow> nat \<Rightarrow> instant) \<Rightarrow> (nat \<Rightarrow> bool) \<Rightarrow> nat \<Rightarrow> 'h fake_dns_state \<Rightarrow> stream \<Rightarrow> bytes \<Rightarrow>
     (dns_tcp_error, unit) result \<times> bytes \<times> 'h fake_dns_state" where
  "dns_tcp_loop D clock can_write i st s out =
     (case read_exact 2 s of
        Inl _ \<Rightarrow> (Err ReadLengthFailed, out, st)
      | Inr None \<Rightarrow> (Ok (), out, st)
      | Inr (Some (length_bytes, s)) \<Rightarrow>
         (let request_len = unat (from_be_bytes length_bytes :: u16)
          in case read_exact request_len s of
               Inl _ \<Rightarrow> (Err (ReadPayloadFailed request_len), out, st)
             | Inr None \<Rightarrow> (Err (ReadPayloadFailed request_len), out, st)
             | Inr (Some (request, s)) \<Rightarrow>
                (case resolve_request D (clock i) st request of
                   (Inl e, st) \<Rightarrow> (Err (ResolveFailed e), out, st)
                 | (Inr response, st) \<Rightarrow>
                     if length response > 65535 then (Err ResponseTooLong, out, st)
                     else if \<not> can_write i then (Err WriteFailed, out, st)
                     else dns_tcp_loop D clock can_write (i + 1) st s
                            (out @ to_be_bytes 2 (of_nat (length response) :: u16) @ response))))"
  by pat_completeness auto

termination
  by (relation "measure (\<lambda>(_, _, _, _, _, s, _). stream_size s)") (auto dest!: read_exact_size)

declare dns_tcp_loop.simps [simp del]

definition handle_dns_tcp_stream ::
  "dns_lib \<Rightarrow> (nat \<Rightarrow> nat \<Rightarrow> instant) \<Rightarrow> (nat \<Rightarrow> bool) \<Rightarrow> 'h fake_dns_state \<Rightarrow> stream \<Rightarrow>
     (dns_tcp_error, unit) result \<times> bytes \<times> 'h fake_dns_state" where
  "handle_dns_tcp_stream D clock can_write st s = dns_tcp_loop D clock can_write 0 st s []"

section \<open>UDP and packets (smoltcp.rs)\<close>

datatype udp_outcome =
    UdpReply bytes socket_addr socket_addr
  | UdpUnresolved dns_error
  | UdpQuicDropped "string option"
  | UdpDropped

definition udp_message ::
  "tun_runtime_context \<Rightarrow> dns_lib \<Rightarrow> (nat \<Rightarrow> instant) \<Rightarrow> bytes \<Rightarrow> socket_addr \<Rightarrow> socket_addr \<Rightarrow> 'h fake_dns_state \<Rightarrow>
     udp_outcome \<times> 'h fake_dns_state" where
  "udp_message context D clock payload client_addr target_addr st =
     (if should_hijack_dns context TunUdp target_addr
      then (case resolve_request D clock st payload of
              (Inr response, st) \<Rightarrow> (UdpReply response target_addr client_addr, st)
            | (Inl e, st) \<Rightarrow> (UdpUnresolved e, st))
      else if sock_port target_addr = 443
      then (case resolve_fake_domain st (sock_ip target_addr) (clock 0) of (domain, st) \<Rightarrow> (UdpQuicDropped domain, st))
      else (UdpDropped, st))"

text \<open>The loops between the device and the stack: what the reader delivers and whether the sink takes it.\<close>

datatype packet_event = LoopShutdown | ReaderEnded | ReadFailed | PacketRead bytes bool

fun forward_packets :: "packet_event list \<Rightarrow> bytes list" where
  "forward_packets [] = []"
| "forward_packets (LoopShutdown # _) = []"
| "forward_packets (ReaderEnded # _) = []"
| "forward_packets (ReadFailed # _) = []"
| "forward_packets (PacketRead packet sent # rest) = (if sent then packet # forward_packets rest else [])"

definition run_tun_to_stack_loop :: "packet_event list \<Rightarrow> bytes list" where
  "run_tun_to_stack_loop events = forward_packets events"

definition run_stack_to_tun_loop :: "packet_event list \<Rightarrow> bytes list" where
  "run_stack_to_tun_loop events = forward_packets events"

section \<open>Shutting down (smoltcp.rs)\<close>

definition BRIDGE_TASK_DRAIN_TIMEOUT :: duration where "BRIDGE_TASK_DRAIN_TIMEOUT = 5 * 10 ^ 9"

datatype drain_outcome = Joined | Aborted

text \<open>
  A handle to drain: the instant at which its task ends by itself, if it does, and how long it takes to end once it is
  aborted. The loop keeps the time.
\<close>

type_synonym drain_handle = "instant option \<times> duration"

fun drain_handles :: "instant \<Rightarrow> instant \<Rightarrow> drain_handle list \<Rightarrow> drain_outcome list \<times> instant" where
  "drain_handles deadline now [] = ([], now)"
| "drain_handles deadline now ((ends, abort_time) # rest) =
     (if now \<ge> deadline
      then (case drain_handles deadline (now + abort_time) rest of (os, t) \<Rightarrow> (Aborted # os, t))
      else case ends of
             Some e \<Rightarrow>
               if e \<le> deadline
               then (case drain_handles deadline (max now e) rest of (os, t) \<Rightarrow> (Joined # os, t))
               else (case drain_handles deadline (deadline + abort_time) rest of (os, t) \<Rightarrow> (Aborted # os, t))
           | None \<Rightarrow> (case drain_handles deadline (deadline + abort_time) rest of (os, t) \<Rightarrow> (Aborted # os, t)))"

text \<open>
  The shutdown: the core tasks are told to stop and joined in order, then the bridge tasks are drained, poisoned
  registry or not, then the DNS settings are restored.
\<close>

record shutdown_report =
  sr_stopped :: "string list"
  sr_drained :: "(bridge_task \<times> drain_outcome) list"
  sr_restored :: "(platform_error, unit) result"
  sr_finished_at :: instant

definition smoltcp_shutdown ::
  "platform \<Rightarrow> (bridge_task \<Rightarrow> drain_handle) \<Rightarrow> instant \<Rightarrow> smoltcp_handle \<Rightarrow> shutdown_report" where
  "smoltcp_shutdown P drain now h =
     (let handles = mx_value (sh_bridge_tasks h);
          (outcomes, t) = drain_handles (now + BRIDGE_TASK_DRAIN_TIMEOUT) now (map drain handles)
      in \<lparr>sr_stopped = sh_core_tasks h, sr_drained = zip handles outcomes,
          sr_restored = guard_restore P (sh_platform_dns_guard h), sr_finished_at = t\<rparr>)"

section \<open>Facts about the loops\<close>

text \<open>A DNS message with its length in front, and what answering a sequence of requests gives.\<close>

definition frame :: "bytes \<Rightarrow> bytes" where
  "frame message = to_be_bytes 2 (of_nat (length message) :: u16) @ message"

fun resolve_all ::
  "dns_lib \<Rightarrow> (nat \<Rightarrow> nat \<Rightarrow> instant) \<Rightarrow> nat \<Rightarrow> 'h fake_dns_state \<Rightarrow> bytes list \<Rightarrow> (bytes list \<times> 'h fake_dns_state) option" where
  "resolve_all D clock i st [] = Some ([], st)"
| "resolve_all D clock i st (request # requests) =
     (case resolve_request D (clock i) st request of
        (Inr response, st) \<Rightarrow>
          if length response \<le> 65535
          then map_option (\<lambda>(responses, st). (response # responses, st)) (resolve_all D clock (i + 1) st requests) else None
      | (Inl _, _) \<Rightarrow> None)"

lemma read_frame:
  assumes "stream_ok s" "stream_bytes s = frame request @ rest" "length request \<le> 65535"
  obtains t u where "read_exact 2 s = Ok (Some (to_be_bytes 2 (of_nat (length request) :: u16), t))"
    "read_exact (unat (of_nat (length request) :: u16)) t = Ok (Some (request, u))" "stream_ok u" "stream_bytes u = rest"
proof -
  let ?len = "to_be_bytes 2 (of_nat (length request) :: u16)"
  have b: "stream_bytes s = ?len @ request @ rest" using assms(2) by (simp add: frame_def)
  have "2 \<le> length (stream_bytes s)" by (simp add: b)
  then obtain t where t: "read_exact 2 s = Ok (Some (take 2 (stream_bytes s), t))" "stream_ok t" "stream_bytes t = drop 2 (stream_bytes s)"
    using read_exact_total [OF assms(1), of 2] by auto
  have bt: "stream_bytes t = request @ rest" using t(3) by (simp add: b)
  have n: "unat (of_nat (length request) :: u16) = length request" using assms(3) by (simp add: unat_of_nat)
  obtain u where "read_exact (length request) t = Ok (Some (take (length request) (stream_bytes t), u))" "stream_ok u"
    "stream_bytes u = drop (length request) (stream_bytes t)"
    using read_exact_total [OF t(2), of "length request"] bt by auto
  then show thesis using that [of t u] t(1) by (simp add: b bt n)
qed

lemma dns_tcp_loop_answers:
  assumes "stream_ok s" "stream_bytes s = concat (map frame requests) @ rest" "length rest < 2"
    and "list_all (\<lambda>r. length r \<le> 65535) requests" "resolve_all D clock i st requests = Some (responses, st')" "\<forall>j. can_write j"
  shows "dns_tcp_loop D clock can_write i st s out = (Ok (), out @ concat (map frame responses), st')"
  using assms(1,2,4,5)
proof (induction requests arbitrary: s i st out responses)
  case Nil
  then have "read_exact 2 s = Ok None" using read_exact_total [of s 2] assms(3) by simp
  then show ?case using Nil by (subst dns_tcp_loop.simps) simp
next
  case (Cons request requests)
  from Cons.prems(4) obtain response st2 rest' where r: "resolve_request D (clock i) st request = (Ok response, st2)"
    "length response \<le> 65535" "resolve_all D clock (i + 1) st2 requests = Some (rest', st')" "responses = response # rest'"
    by (auto split: prod.splits sum.splits if_splits)
  have "stream_bytes s = frame request @ (concat (map frame requests) @ rest)" using Cons.prems(2) by simp
  then obtain t u where tu: "read_exact 2 s = Ok (Some (to_be_bytes 2 (of_nat (length request) :: u16), t))"
    "read_exact (unat (of_nat (length request) :: u16)) t = Ok (Some (request, u))" "stream_ok u"
    "stream_bytes u = concat (map frame requests) @ rest"
    by (rule read_frame [OF Cons.prems(1)]) (use Cons.prems(3) in auto)
  have "dns_tcp_loop D clock can_write i st s out = dns_tcp_loop D clock can_write (i + 1) st2 u (out @ frame response)"
    using tu r assms(6) by (subst dns_tcp_loop.simps) (simp add: frame_def)
  also have "\<dots> = (Ok (), (out @ frame response) @ concat (map frame rest'), st')"
    using Cons.IH [OF tu(3,4) _ r(3)] Cons.prems(3) by simp
  finally show ?case using r(4) by simp
qed

lemma drain_step:
  assumes "drain_handles deadline now (h # rest) = (os, t)"
  obtains o' os' now' where "os = o' # os'" "drain_handles deadline now' rest = (os', t)" "now' \<le> max deadline now + snd h"
    "now < deadline \<Longrightarrow> fst h = Some e \<Longrightarrow> e < deadline \<Longrightarrow> o' = Joined \<and> now' < deadline"
  using assms by (cases h) (auto split: if_splits option.splits prod.splits)

lemma drain_bound:
  assumes "drain_handles deadline now hs = (os, t)"
  shows "length os = length hs \<and> t \<le> max deadline now + sum_list (map snd hs)"
  using assms
proof (induction hs arbitrary: now os)
  case (Cons h rest)
  from Cons.prems obtain o' os' now' where "os = o' # os'" "drain_handles deadline now' rest = (os', t)" "now' \<le> max deadline now + snd h"
    by (rule drain_step)
  then show ?case using Cons.IH by fastforce
qed simp

lemma drain_joins:
  assumes "drain_handles deadline now hs = (os, t)" "now < deadline" "list_all (\<lambda>h. \<exists>e < deadline. fst h = Some e) hs"
  shows "os = replicate (length hs) Joined \<and> t < deadline"
  using assms
proof (induction hs arbitrary: now os)
  case (Cons h rest)
  from Cons.prems(3) obtain e where "fst h = Some e" "e < deadline" by auto
  then obtain os' now' where "os = Joined # os'" "drain_handles deadline now' rest = (os', t)" "now' < deadline"
    using Cons.prems(1,2) by (elim drain_step [where e = e]) auto
  then show ?case using Cons.IH Cons.prems(3) by auto
qed simp

section \<open>Properties\<close>

text \<open>
  C33. DNS over TCP inside the tunnel. However the bytes of a connection arrive, every framed request is answered in
  order, each response with its own length in front, the connection ends quietly when the client closes it, even in the middle of a
  length, and no byte of a response is lost or added.
\<close>

theorem dns_tcp_answers_in_order:
  assumes "stream_ok s" "stream_bytes s = concat (map frame requests) @ rest" "length rest < 2"
    and "list_all (\<lambda>r. length r \<le> 65535) requests" "resolve_all D clock 0 st requests = Some (responses, st')" "\<forall>j. can_write j"
  shows "handle_dns_tcp_stream D clock can_write st s = (Ok (), concat (map frame responses), st')"
  unfolding handle_dns_tcp_stream_def dns_tcp_loop_answers [OF assms] by simp

definition sample_tun_dns :: dns_lib where
  "sample_tun_dns = \<lparr>dl_message_from_vec = \<lambda>_. Some (sample_request\<lparr>msg_queries := []\<rparr>), dl_message_to_vec = \<lambda>_. Some [7, 7, 7],
     dl_name_from_ascii = Some, dl_lookup = \<lambda>_ _. Ok []\<rparr>"

theorem dns_tcp_answers_in_order_witness:
  "handle_dns_tcp_stream sample_tun_dns (\<lambda>_ _. 5) (\<lambda>_. True) sample_dns_state [Data [0], Data [1, 9, 0], Data [2, 8, 8, 0]] =
     (Ok (), [0, 3, 7, 7, 7, 0, 3, 7, 7, 7], sample_dns_state)"
proof -
  have r: "resolve_request sample_tun_dns c sample_dns_state bs = (Ok [7, 7, 7], sample_dns_state)" for c bs
    by (simp add: resolve_request_def sample_tun_dns_def sample_request_def queries_from_message_def resolve_queries_def
        build_fake_answers_def to_message_bytes_def from_answers_def)
  have f: "frame [9] = [0, 1, 9]" "frame [8, 8] = [0, 2, 8, 8]" "frame [7, 7, 7] = [0, 3, 7, 7, 7]"
    by code_simp+
  have "handle_dns_tcp_stream sample_tun_dns (\<lambda>_ _. 5) (\<lambda>_. True) sample_dns_state [Data [0], Data [1, 9, 0], Data [2, 8, 8, 0]] =
     (Ok (), concat (map frame [[7, 7, 7], [7, 7, 7]]), sample_dns_state)"
    by (rule dns_tcp_answers_in_order [where requests = "[[9], [8, 8]]" and rest = "[0]"])
       (simp_all add: stream_ok_def f r)
  then show ?thesis by (simp add: f)
qed


definition sample_tun_context :: tun_runtime_context where
  "sample_tun_context = tun_runtime_context_new
     \<lparr>irc_tls_port = Some 8443, irc_fake_ipv4_range = sample_net4, irc_fake_ipv6_range = sample_net6\<rparr>
     \<lparr>tbo_name = ''am0'', tbo_mtu = 1500, tbo_stack = SmoltcpStack, tbo_platform_dns = ManualDns,
      tbo_dns_hijack = [\<lparr>th_transport = HijackTcp, th_target = HijackAny 53\<rparr>]\<rparr>
     \<lparr>sock_ip = V4 0x7F000001, sock_port = 8080, sock_scope_id = 0\<rparr>"

lemma sample_reachable: "reachable sample_net4 sample_net6 (fds_fake_ip_store sample_dns_state)"
  using sample_store_reachable by (simp add: sample_dns_state_def fake_dns_state_new_def sample_store_def)


definition sample_client :: socket_addr where
  "sample_client = \<lparr>sock_ip = V4 0xC6120001, sock_port = 50000, sock_scope_id = 0\<rparr>"



end
