(* ===== verification/Intercept.thy ===== *)
theory Intercept
  imports Fake_Dns
begin

text \<open>
  The transparent packet handlers: \<^verbatim>\<open>src/src/traffic/shared/intercept/mod.rs\<close>, \<^verbatim>\<open>tcp.rs\<close> and one
  round of the capture loop of \<^verbatim>\<open>src/src/traffic/windivert/runtime/capture.rs\<close>. A handler takes and
  returns the state it works on; the outer \<open>option\<close> is \<open>None\<close> when the code panics (a slice out of
  range, \<^verbatim>\<open>unreachable!\<close>). \<^verbatim>\<open>Instant::now()\<close> is an argument. What the code computes only for its
  log lines (the sniffed host of a redirected request) is left out.
\<close>

section \<open>Packets and dispositions\<close>

datatype transparent_capture_kind =
    TcpRequestRedirect
  | TcpDnsRedirect
  | TcpProxyResponse
  | DnsResponder
  | UdpQuicDrop
  | Generic

datatype packet_disposition = Pass | Modified | Drop

definition should_recalculate_checksums :: "packet_disposition \<Rightarrow> bool" where
  "should_recalculate_checksums d \<longleftrightarrow> d = Modified"

definition should_reinject :: "packet_disposition \<Rightarrow> bool" where
  "should_reinject d \<longleftrightarrow> d \<noteq> Drop"

text \<open>What a handler of one family reads and writes: the bytes, the direction flag of the packet
  metadata, the fake DNS server and the NAT table of the family.\<close>

record ('a, 'h) packet_state =
  ps_data :: bytes
  ps_outbound :: bool
  ps_fake_dns :: "'h fake_dns_state option"
  ps_nat :: "'a nat_table"

type_synonym ('a, 'h) handled = "(packet_disposition \<times> ('a, 'h) packet_state) option"

definition set_outbound_flag :: "bool \<Rightarrow> ('a, 'h) packet_state \<Rightarrow> ('a, 'h) packet_state" where
  "set_outbound_flag outbound st = st\<lparr>ps_outbound := outbound\<rparr>"

section \<open>TCP packets (tcp.rs)\<close>

definition upsert_nat :: "'a nat_table \<Rightarrow> 'a \<Rightarrow> u16 \<Rightarrow> 'a \<Rightarrow> u16 \<Rightarrow> instant \<Rightarrow> bool \<times> 'a nat_table" where
  "upsert_nat t client_ip client_port destination_ip destination_port expires_at =
     upsert_nat_mapping t client_ip client_port destination_ip destination_port expires_at"

definition touch_nat :: "'a nat_table \<Rightarrow> 'a \<Rightarrow> u16 \<Rightarrow> instant \<Rightarrow> instant \<Rightarrow> ('a \<times> u16) option \<times> 'a nat_table" where
  "touch_nat t client_ip client_port now expires_at = touch_nat_mapping t client_ip client_port now expires_at"

record 'a tcp_packet_context =
  tp_src_ip :: 'a
  tp_dst_ip :: 'a
  tp_src_port :: u16
  tp_dst_port :: u16
  tp_tcp_header_len :: nat
  tp_syn :: bool
  tp_is_closing :: bool

datatype detected_tcp_family = DetectedIpv4 nat | DetectedIpv6 nat

definition packet_ports :: "bytes \<Rightarrow> nat \<Rightarrow> (u16 \<times> u16) option" where
  "packet_ports data ip_header_len =
     (if length data \<ge> ip_header_len + 4
      then Some (from_be_bytes [data ! ip_header_len, data ! (ip_header_len + 1)],
                 from_be_bytes [data ! (ip_header_len + 2), data ! (ip_header_len + 3)])
      else None)"

definition tcp_details :: "packet_lib \<Rightarrow> bytes \<Rightarrow> nat \<Rightarrow> (nat \<times> bool \<times> bool) option option" where
  "tcp_details K data ip_header_len =
     (if ip_header_len \<le> length data
      then Some (map_option (\<lambda>(len, syn, fin, rst). (len, syn, fin \<or> rst)) (ep_tcp_header K (drop ip_header_len data)))
      else None)"

definition tcp_packet_context ::
  "packet_lib \<Rightarrow> ('a, 'r) packet_family \<Rightarrow> bytes \<Rightarrow> nat \<Rightarrow> 'a tcp_packet_context option option" where
  "tcp_packet_context K F data ip_header_len =
     (if length data < ip_header_len + 20 then Some None
      else case pf_read_src_ip F data of
        None \<Rightarrow> Some None
      | Some src_ip \<Rightarrow> (case pf_read_dst_ip F data of
        None \<Rightarrow> Some None
      | Some dst_ip \<Rightarrow> (case packet_ports data ip_header_len of
        None \<Rightarrow> Some None
      | Some (src_port, dst_port) \<Rightarrow> (case tcp_details K data ip_header_len of
        None \<Rightarrow> None
      | Some None \<Rightarrow> Some None
      | Some (Some (header_len, syn, is_closing)) \<Rightarrow>
          Some (Some \<lparr>tp_src_ip = src_ip, tp_dst_ip = dst_ip, tp_src_port = src_port, tp_dst_port = dst_port,
                      tp_tcp_header_len = header_len, tp_syn = syn, tp_is_closing = is_closing\<rparr>)))))"

definition with_tcp_packet_context ::
  "packet_lib \<Rightarrow> ('a, 'r) packet_family \<Rightarrow> nat \<Rightarrow> ('a, 'h) packet_state \<Rightarrow>
     (('a, 'h) packet_state \<Rightarrow> 'a tcp_packet_context \<Rightarrow> ('a, 'h) handled) \<Rightarrow> ('a, 'h) handled" where
  "with_tcp_packet_context K F ip_header_len st handler =
     (case tcp_packet_context K F (ps_data st) ip_header_len of
        None \<Rightarrow> None
      | Some None \<Rightarrow> Some (Pass, st)
      | Some (Some packet) \<Rightarrow> handler st packet)"

definition detect_tcp_family :: "packet_lib \<Rightarrow> ext_lib \<Rightarrow> bytes \<Rightarrow> detected_tcp_family option" where
  "detect_tcp_family K L data =
     (case tcp_header_len (ipv4_family K L) data of
        Some ip_header_len \<Rightarrow> Some (DetectedIpv4 ip_header_len)
      | None \<Rightarrow> map_option DetectedIpv6 (tcp_header_len (ipv6_family K L) data))"

definition nat_expiration :: "instant \<Rightarrow> bool \<Rightarrow> instant" where
  "nat_expiration now is_closing =
     now + (if is_closing then NAT_ENTRY_CLOSING_TTL else NAT_ENTRY_ESTABLISHED_TTL)"

definition upsert_nat_packet :: "'a nat_table \<Rightarrow> 'a tcp_packet_context \<Rightarrow> instant \<Rightarrow> bool \<times> 'a nat_table" where
  "upsert_nat_packet t packet now =
     (let expires_at = nat_expiration now (tp_is_closing packet)
      in upsert_nat t (tp_src_ip packet) (tp_src_port packet) (tp_dst_ip packet) (tp_dst_port packet) expires_at)"

text \<open>\<^verbatim>\<open>fake_dns_server.and_then(|server| server.resolve_fake_domain(ip, now))\<close>.\<close>

definition server_fake_domain ::
  "'h fake_dns_state option \<Rightarrow> ip_addr \<Rightarrow> instant \<Rightarrow> string option \<times> 'h fake_dns_state option" where
  "server_fake_domain server ip now =
     (case server of
        None \<Rightarrow> (None, None)
      | Some s \<Rightarrow> (let (d, s') = resolve_fake_domain s ip now in (d, Some s')))"

definition handle_request_packet_impl ::
  "packet_lib \<Rightarrow> ('a, 'r) packet_family \<Rightarrow> nat \<Rightarrow> 'r \<Rightarrow> u16 \<Rightarrow> u16 \<Rightarrow> instant \<Rightarrow> ('a, 'h) packet_state \<Rightarrow> ('a, 'h) handled" where
  "handle_request_packet_impl K F ip_header_len capture_range proxy_port tls_port now st =
     with_tcp_packet_context K F ip_header_len st (\<lambda>st packet.
       if tp_dst_port packet = proxy_port \<or> tp_dst_port packet = tls_port
          \<or> \<not> family_contains F capture_range (tp_dst_ip packet)
       then Some (Pass, st)
       else
         (case server_fake_domain (ps_fake_dns st) (pf_to_ip_addr F (tp_dst_ip packet)) now of
            (None, server) \<Rightarrow> Some (Pass, st\<lparr>ps_fake_dns := server\<rparr>)
          | (Some owned_domain, server) \<Rightarrow>
              (let st = st\<lparr>ps_fake_dns := server\<rparr>;
                   (inserted, table) = upsert_nat_packet (ps_nat st) packet now;
                   st = st\<lparr>ps_nat := table\<rparr>
               in if \<not> inserted then Some (Pass, st)
                  else let target_proxy_port = (if tp_dst_port packet = 443 then tls_port else proxy_port)
                  in Option.bind (pf_set_request_destination_ip F (ps_data st) (tp_src_ip packet)) (\<lambda>data.
                     Option.bind (copy_into (ip_header_len + 2) (to_be_bytes 2 target_proxy_port) data) (\<lambda>data.
                     Some (Modified, set_outbound_flag False (st\<lparr>ps_data := data\<rparr>)))))))"

definition handle_dns_tcp_packet_impl ::
  "packet_lib \<Rightarrow> ('a, 'r) packet_family \<Rightarrow> nat \<Rightarrow> u16 \<Rightarrow> instant \<Rightarrow> ('a, 'h) packet_state \<Rightarrow> ('a, 'h) handled" where
  "handle_dns_tcp_packet_impl K F ip_header_len local_dns_port now st =
     with_tcp_packet_context K F ip_header_len st (\<lambda>st packet.
       if tp_dst_port packet \<noteq> 53 \<or> tp_src_port packet = local_dns_port
       then Some (Pass, st)
       else
         (let (inserted, table) = upsert_nat_packet (ps_nat st) packet now;
              st = st\<lparr>ps_nat := table\<rparr>
          in if \<not> inserted then Some (Pass, st)
             else Option.bind (pf_set_request_destination_ip F (ps_data st) (tp_src_ip packet)) (\<lambda>data.
                  Option.bind (copy_into (ip_header_len + 2) (to_be_bytes 2 local_dns_port) data) (\<lambda>data.
                  Some (Modified, set_outbound_flag False (st\<lparr>ps_data := data\<rparr>))))))"

definition handle_proxy_response_packet_impl ::
  "packet_lib \<Rightarrow> ('a, 'r) packet_family \<Rightarrow> nat \<Rightarrow> u16 \<Rightarrow> u16 \<Rightarrow> u16 \<Rightarrow> instant \<Rightarrow> ('a, 'h) packet_state \<Rightarrow> ('a, 'h) handled" where
  "handle_proxy_response_packet_impl K F ip_header_len proxy_port tls_port local_dns_port now st =
     with_tcp_packet_context K F ip_header_len st (\<lambda>st packet.
       if tp_src_port packet \<noteq> proxy_port \<and> tp_src_port packet \<noteq> tls_port \<and> tp_src_port packet \<noteq> local_dns_port
       then Some (Pass, st)
       else
         (let expires_at = nat_expiration now (tp_is_closing packet)
          in case touch_nat (ps_nat st) (tp_dst_ip packet) (tp_dst_port packet) now expires_at of
               (None, table) \<Rightarrow> Some (Pass, st\<lparr>ps_nat := table\<rparr>)
             | (Some (orig_dst_ip, orig_dst_port), table) \<Rightarrow>
                 (let st = st\<lparr>ps_nat := table\<rparr>
                  in Option.bind (pf_set_response_source_ip F (ps_data st) orig_dst_ip) (\<lambda>data.
                     Option.bind (copy_into ip_header_len (to_be_bytes 2 orig_dst_port) data) (\<lambda>data.
                     Some (Modified, set_outbound_flag False (st\<lparr>ps_data := data\<rparr>)))))))"

section \<open>Dispatch (mod.rs)\<close>

text \<open>The arguments of \<^verbatim>\<open>process_packet\<close> that do not change, and the state of both families.\<close>

record capture_config =
  cc_fake_ipv4_range :: ipv4_net
  cc_fake_ipv6_range :: ipv6_net
  cc_proxy_port :: u16
  cc_tls_port :: u16
  cc_local_dns_port :: u16

record 'h capture_state =
  cs_data :: bytes
  cs_outbound :: bool
  cs_fake_dns :: "'h fake_dns_state option"
  cs_nat_v4 :: "u32 nat_table"
  cs_nat_v6 :: "u128 nat_table"

definition state_v4 :: "'h capture_state \<Rightarrow> (u32, 'h) packet_state" where
  "state_v4 st = \<lparr>ps_data = cs_data st, ps_outbound = cs_outbound st, ps_fake_dns = cs_fake_dns st, ps_nat = cs_nat_v4 st\<rparr>"

definition state_v6 :: "'h capture_state \<Rightarrow> (u128, 'h) packet_state" where
  "state_v6 st = \<lparr>ps_data = cs_data st, ps_outbound = cs_outbound st, ps_fake_dns = cs_fake_dns st, ps_nat = cs_nat_v6 st\<rparr>"

definition back_v4 :: "'h capture_state \<Rightarrow> (u32, 'h) handled \<Rightarrow> (packet_disposition \<times> 'h capture_state) option" where
  "back_v4 st r = map_option (\<lambda>(d, p). (d, st\<lparr>cs_data := ps_data p, cs_outbound := ps_outbound p,
     cs_fake_dns := ps_fake_dns p, cs_nat_v4 := ps_nat p\<rparr>)) r"

definition back_v6 :: "'h capture_state \<Rightarrow> (u128, 'h) handled \<Rightarrow> (packet_disposition \<times> 'h capture_state) option" where
  "back_v6 st r = map_option (\<lambda>(d, p). (d, st\<lparr>cs_data := ps_data p, cs_outbound := ps_outbound p,
     cs_fake_dns := ps_fake_dns p, cs_nat_v6 := ps_nat p\<rparr>)) r"

definition handle_request_packet ::
  "packet_lib \<Rightarrow> ext_lib \<Rightarrow> capture_config \<Rightarrow> instant \<Rightarrow> 'h capture_state \<Rightarrow> (packet_disposition \<times> 'h capture_state) option" where
  "handle_request_packet K L c now st =
     (case detect_tcp_family K L (cs_data st) of
        Some (DetectedIpv4 n) \<Rightarrow> back_v4 st (handle_request_packet_impl K (ipv4_family K L) n
          (cc_fake_ipv4_range c) (cc_proxy_port c) (cc_tls_port c) now (state_v4 st))
      | Some (DetectedIpv6 n) \<Rightarrow> back_v6 st (handle_request_packet_impl K (ipv6_family K L) n
          (cc_fake_ipv6_range c) (cc_proxy_port c) (cc_tls_port c) now (state_v6 st))
      | None \<Rightarrow> Some (Pass, st))"

definition handle_dns_tcp_packet ::
  "packet_lib \<Rightarrow> ext_lib \<Rightarrow> capture_config \<Rightarrow> instant \<Rightarrow> 'h capture_state \<Rightarrow> (packet_disposition \<times> 'h capture_state) option" where
  "handle_dns_tcp_packet K L c now st =
     (case detect_tcp_family K L (cs_data st) of
        Some (DetectedIpv4 n) \<Rightarrow> back_v4 st (handle_dns_tcp_packet_impl K (ipv4_family K L) n
          (cc_local_dns_port c) now (state_v4 st))
      | Some (DetectedIpv6 n) \<Rightarrow> back_v6 st (handle_dns_tcp_packet_impl K (ipv6_family K L) n
          (cc_local_dns_port c) now (state_v6 st))
      | None \<Rightarrow> Some (Pass, st))"

definition handle_proxy_response_packet ::
  "packet_lib \<Rightarrow> ext_lib \<Rightarrow> capture_config \<Rightarrow> instant \<Rightarrow> 'h capture_state \<Rightarrow> (packet_disposition \<times> 'h capture_state) option" where
  "handle_proxy_response_packet K L c now st =
     (case detect_tcp_family K L (cs_data st) of
        Some (DetectedIpv4 n) \<Rightarrow> back_v4 st (handle_proxy_response_packet_impl K (ipv4_family K L) n
          (cc_proxy_port c) (cc_tls_port c) (cc_local_dns_port c) now (state_v4 st))
      | Some (DetectedIpv6 n) \<Rightarrow> back_v6 st (handle_proxy_response_packet_impl K (ipv6_family K L) n
          (cc_proxy_port c) (cc_tls_port c) (cc_local_dns_port c) now (state_v6 st))
      | None \<Rightarrow> Some (Pass, st))"

definition log_quic_drop_for_family ::
  "('a, 'r) packet_family \<Rightarrow> bytes \<Rightarrow> 'h fake_dns_state option \<Rightarrow> instant \<Rightarrow>
     packet_disposition option \<times> 'h fake_dns_state option" where
  "log_quic_drop_for_family F data server now =
     (case pf_read_dst_ip F data of
        None \<Rightarrow> (None, server)
      | Some dst_ip \<Rightarrow>
          (case server_fake_domain server (pf_to_ip_addr F dst_ip) now of
             (None, server) \<Rightarrow> (Some Pass, server)
           | (Some domain, server) \<Rightarrow> (Some Drop, server)))"

text \<open>\<^verbatim>\<open>ipv4().or_else(ipv6)\<close> for closures that thread a state.\<close>

definition try_packet_families ::
  "('s \<Rightarrow> 'b option \<times> 's) \<Rightarrow> ('s \<Rightarrow> 'b option \<times> 's) \<Rightarrow> 's \<Rightarrow> 'b option \<times> 's" where
  "try_packet_families ipv4 ipv6 s =
     (case ipv4 s of (Some x, s) \<Rightarrow> (Some x, s) | (None, s) \<Rightarrow> ipv6 s)"

definition handle_quic_packet ::
  "packet_lib \<Rightarrow> ext_lib \<Rightarrow> instant \<Rightarrow> 'h capture_state \<Rightarrow> (packet_disposition \<times> 'h capture_state) option" where
  "handle_quic_packet K L now st =
     (let (d, server) = try_packet_families
            (\<lambda>s. log_quic_drop_for_family (ipv4_family K L) (cs_data st) s now)
            (\<lambda>s. log_quic_drop_for_family (ipv6_family K L) (cs_data st) s now) (cs_fake_dns st)
      in Some (case d of Some x \<Rightarrow> x | None \<Rightarrow> Drop, st\<lparr>cs_fake_dns := server\<rparr>))"

definition process_packet ::
  "packet_lib \<Rightarrow> ext_lib \<Rightarrow> capture_config \<Rightarrow> transparent_capture_kind \<Rightarrow> instant \<Rightarrow> 'h capture_state \<Rightarrow>
     (packet_disposition \<times> 'h capture_state) option" where
  "process_packet K L c kind now st =
     (case kind of
        TcpRequestRedirect \<Rightarrow> handle_request_packet K L c now st
      | TcpDnsRedirect \<Rightarrow> handle_dns_tcp_packet K L c now st
      | TcpProxyResponse \<Rightarrow> handle_proxy_response_packet K L c now st
      | UdpQuicDrop \<Rightarrow> handle_quic_packet K L now st
      | Generic \<Rightarrow> Some (Pass, st)
      | DnsResponder \<Rightarrow> None)"

text \<open>The slice \<^verbatim>\<open>&packet_data[ip_header_len + 8..]\<close> panics out of range: the outer \<open>option\<close>. The
  inner one is the result of the function.\<close>

definition build_fake_ip_dns_packet_for_family ::
  "('a, 'r) packet_family \<Rightarrow> dns_lib \<Rightarrow> (nat \<Rightarrow> instant) \<Rightarrow> bytes \<Rightarrow> 'h fake_dns_state \<Rightarrow>
     (bytes option \<times> 'h fake_dns_state) option" where
  "build_fake_ip_dns_packet_for_family F D clock packet_data server =
     (case udp_header_len F packet_data of
        None \<Rightarrow> Some (None, server)
      | Some ip_header_len \<Rightarrow> (case packet_ports packet_data ip_header_len of
        None \<Rightarrow> Some (None, server)
      | Some (request_src_port, request_dst_port) \<Rightarrow>
          if request_dst_port \<noteq> 53 then Some (None, server)
          else (case (pf_read_src_ip F packet_data, pf_read_dst_ip F packet_data) of
            (Some request_src_ip, Some request_dst_ip) \<Rightarrow>
              if length packet_data < ip_header_len + 8 then None
              else (case build_fake_response D clock server (drop (ip_header_len + 8) packet_data) of
                (Inr (Some response_payload), server) \<Rightarrow>
                  Some (build_udp_response_packet F request_src_ip request_dst_ip request_src_port
                          request_dst_port response_payload, server)
              | (_, server) \<Rightarrow> Some (None, server))
          | _ \<Rightarrow> Some (None, server))))"

definition build_fake_ip_dns_packet ::
  "packet_lib \<Rightarrow> ext_lib \<Rightarrow> dns_lib \<Rightarrow> (nat \<Rightarrow> instant) \<Rightarrow> bytes \<Rightarrow> 'h fake_dns_state \<Rightarrow>
     (bytes option \<times> 'h fake_dns_state) option" where
  "build_fake_ip_dns_packet K L D clock packet_data server =
     (case build_fake_ip_dns_packet_for_family (ipv4_family K L) D clock packet_data server of
        None \<Rightarrow> None
      | Some (Some p, server) \<Rightarrow> Some (Some p, server)
      | Some (None, server) \<Rightarrow>
          build_fake_ip_dns_packet_for_family (ipv6_family K L) D clock packet_data server)"

definition handle_dns_query_packet ::
  "packet_lib \<Rightarrow> ext_lib \<Rightarrow> dns_lib \<Rightarrow> (nat \<Rightarrow> instant) \<Rightarrow> 'h capture_state \<Rightarrow> (packet_disposition \<times> 'h capture_state) option" where
  "handle_dns_query_packet K L D clock st =
     (case cs_fake_dns st of
        None \<Rightarrow> Some (Pass, st)
      | Some server \<Rightarrow>
          (case build_fake_ip_dns_packet K L D clock (cs_data st) server of
             None \<Rightarrow> None
           | Some (None, server) \<Rightarrow> Some (Pass, st\<lparr>cs_fake_dns := Some server\<rparr>)
           | Some (Some response_packet, server) \<Rightarrow>
               Some (Modified, st\<lparr>cs_fake_dns := Some server, cs_data := response_packet, cs_outbound := False\<rparr>)))"

text \<open>
  One round of the capture loop for a received packet: the packet that is sent back, if any, after
  the checksums of the driver (\<open>recalc\<close>) where the handler changed it.
\<close>

definition capture_round ::
  "packet_lib \<Rightarrow> ext_lib \<Rightarrow> dns_lib \<Rightarrow> (bytes \<Rightarrow> bytes) \<Rightarrow> capture_config \<Rightarrow> transparent_capture_kind \<Rightarrow>
     instant \<Rightarrow> (nat \<Rightarrow> instant) \<Rightarrow> 'h capture_state \<Rightarrow> ((bytes \<times> bool) option \<times> 'h capture_state) option" where
  "capture_round K L D recalc c kind now clock st =
     Option.bind (if kind = DnsResponder then handle_dns_query_packet K L D clock st
                  else process_packet K L c kind now st) (\<lambda>(disposition, st).
       let data = (if should_recalculate_checksums disposition then recalc (cs_data st) else cs_data st);
           st = st\<lparr>cs_data := data\<rparr>
       in Some (if should_reinject disposition then Some (data, cs_outbound st) else None, st))"

section \<open>What the handlers do to a packet\<close>

text \<open>
  What the code relies on from \<^verbatim>\<open>etherparse\<close>: a parsed IPv4 header has at least 20 bytes, an IPv6
  header 40, and a header lies within the packet.
\<close>

definition etherparse_law :: "packet_lib \<Rightarrow> bool" where
  "etherparse_law K \<longleftrightarrow>
     (\<forall>d p n. ep_ipv4_header K d = Some (p, n) \<longrightarrow> 20 \<le> n \<and> n \<le> length d)
   \<and> (\<forall>d p n. ep_ipv6_header K d = Some (p, n) \<longrightarrow> n = 40 \<and> n \<le> length d)"

declare add_2_eq_Suc [simp del] add_2_eq_Suc' [simp del]

lemma two_bytes: "i + 2 \<le> length d \<Longrightarrow> [d ! i, d ! (i + 1)] = take 2 (drop i d)"
  by (rule nth_equalityI) (auto simp: less_Suc_eq numeral_eq_Suc)

lemma next_two_bytes: "i + 4 \<le> length d \<Longrightarrow> [d ! (i + 2), d ! (i + 3)] = take 2 (drop (i + 2) d)"
  by (rule nth_equalityI) (auto simp: less_Suc_eq numeral_eq_Suc)

lemma packet_ports_take:
  "packet_ports d n = (if n + 4 \<le> length d
     then Some (from_be_bytes (take 2 (drop n d)), from_be_bytes (take 2 (drop (n + 2) d))) else None)"
  using two_bytes [of n d] next_two_bytes [of n d] by (simp add: packet_ports_def)

lemma copy_two:
  assumes "off + 2 \<le> length d"
  obtains d' where "copy_into off (to_be_bytes 2 p) d = Some d'" "length d' = length d"
    "take 2 (drop off d') = to_be_bytes 2 p" "\<And>m. off + 2 \<le> m \<Longrightarrow> drop m d' = drop m d"
    "\<And>m. m \<le> off \<Longrightarrow> take m d' = take m d"
  using that [of "take off d @ to_be_bytes 2 p @ drop (off + 2) d"] assms by (simp add: copy_into_def)

lemma tcp_packet_context_total: "tcp_packet_context K F d n \<noteq> None"
  by (auto simp: tcp_packet_context_def tcp_details_def split: option.splits)

lemma tcp_packet_context_Some:
  assumes "tcp_packet_context K F d n = Some (Some packet)"
  shows "n + 20 \<le> length d" "pf_read_src_ip F d = Some (tp_src_ip packet)"
    "pf_read_dst_ip F d = Some (tp_dst_ip packet)"
    "packet_ports d n = Some (tp_src_port packet, tp_dst_port packet)"
  using assms by (auto simp: tcp_packet_context_def split: if_splits option.splits prod.splits)

text \<open>A packet rewritten to new addresses and ports: everything behind the ports is kept.\<close>

definition rewritten ::
  "('a, 'r) packet_family \<Rightarrow> nat \<Rightarrow> bytes \<Rightarrow> bytes \<Rightarrow> 'a \<times> u16 \<Rightarrow> 'a \<times> u16 \<Rightarrow> bool" where
  "rewritten F n d d' src dst \<longleftrightarrow>
     length d' = length d \<and> drop (n + 4) d' = drop (n + 4) d
   \<and> pf_read_src_ip F d' = Some (fst src) \<and> pf_read_dst_ip F d' = Some (fst dst)
   \<and> packet_ports d' n = Some (snd src, snd dst)"

text \<open>How every handler treats the packet: untouched unless it is modified, and then turned inward with
  its length kept; never dropped.\<close>

definition kept :: "('a, 'h) packet_state \<Rightarrow> packet_disposition \<Rightarrow> ('a, 'h) packet_state \<Rightarrow> bool" where
  "kept st r st' \<longleftrightarrow> length (ps_data st') = length (ps_data st)
     \<and> (case r of Modified \<Rightarrow> \<not> ps_outbound st'
        | Pass \<Rightarrow> ps_data st' = ps_data st \<and> ps_outbound st' = ps_outbound st
        | Drop \<Rightarrow> False)"

locale tcp_family = ip_family "pf_read_src_ip F" "pf_read_dst_ip F" "pf_set_request_destination_ip F"
  "pf_set_response_source_ip F" hdr for F :: "('a, 'r) packet_family" and hdr
begin

lemma drop_hdr: "drop hdr d' = drop hdr d \<Longrightarrow> hdr \<le> m \<Longrightarrow> drop m d' = drop m d"
  by (metis drop_drop le_add_diff_inverse2)

lemma rewrite_request:
  assumes hdr_le: "hdr \<le> n" and ctx: "tcp_packet_context K F d n = Some (Some packet)"
  obtains d1 d2 where "pf_set_request_destination_ip F d (tp_src_ip packet) = Some d1"
    "copy_into (n + 2) (to_be_bytes 2 p) d1 = Some d2"
    "rewritten F n d d2 (tp_src_ip packet, tp_src_port packet) (tp_src_ip packet, p)"
proof -
  note c = tcp_packet_context_Some [OF ctx]
  from c(1) hdr_le have "hdr \<le> length d" by simp
  from set_dst [OF this, of "tp_src_ip packet"] obtain d1 where d1: "pf_set_request_destination_ip F d (tp_src_ip packet) = Some d1"
    "length d1 = length d" "pf_read_dst_ip F d1 = Some (tp_src_ip packet)" "pf_read_src_ip F d1 = pf_read_src_ip F d"
    "drop hdr d1 = drop hdr d" by blast
  have "n + 2 + 2 \<le> length d1" using c(1) d1(2) by simp
  then obtain d2 where d2: "copy_into (n + 2) (to_be_bytes 2 p) d1 = Some d2"
    "length d2 = length d1" "take 2 (drop (n + 2) d2) = to_be_bytes 2 p"
    "\<And>m. n + 2 + 2 \<le> m \<Longrightarrow> drop m d2 = drop m d1" "\<And>m. m \<le> n + 2 \<Longrightarrow> take m d2 = take m d1"
    by (rule copy_two) (rule that)
  have "take hdr d2 = take hdr d1" using d2(5) hdr_le by simp
  then have r: "pf_read_src_ip F d2 = pf_read_src_ip F d1" "pf_read_dst_ip F d2 = pf_read_dst_ip F d1"
    using read_local by blast+
  have "take 2 (drop n d2) = take 2 (drop n d1)"
    by (rule take_drop_mono [of "n + 2"]) (simp_all add: d2(5))
  also have "\<dots> = take 2 (drop n d)" using drop_hdr [OF d1(5) hdr_le] by simp
  finally have "packet_ports d2 n = Some (tp_src_port packet, p)"
    using c(1,4) d1(2) d2(2,3) by (simp add: packet_ports_take)
  moreover have "drop (n + 4) d2 = drop (n + 4) d"
    using d2(4) [of "n + 4"] drop_hdr [OF d1(5), of "n + 4"] hdr_le by simp
  ultimately show ?thesis
    using that [OF d1(1) d2(1)] r c(2) d1(2,3,4) d2(2) by (simp add: rewritten_def)
qed

lemma rewrite_response:
  assumes hdr_le: "hdr \<le> n" and ctx: "tcp_packet_context K F d n = Some (Some packet)"
  obtains d1 d2 where "pf_set_response_source_ip F d a = Some d1"
    "copy_into n (to_be_bytes 2 p) d1 = Some d2"
    "rewritten F n d d2 (a, p) (tp_dst_ip packet, tp_dst_port packet)"
proof -
  note c = tcp_packet_context_Some [OF ctx]
  from c(1) hdr_le have "hdr \<le> length d" by simp
  from set_src [OF this, of a] obtain d1 where d1: "pf_set_response_source_ip F d a = Some d1"
    "length d1 = length d" "pf_read_src_ip F d1 = Some a" "pf_read_dst_ip F d1 = pf_read_dst_ip F d"
    "drop hdr d1 = drop hdr d" by blast
  have "n + 2 \<le> length d1" using c(1) d1(2) by simp
  then obtain d2 where d2: "copy_into n (to_be_bytes 2 p) d1 = Some d2"
    "length d2 = length d1" "take 2 (drop n d2) = to_be_bytes 2 p"
    "\<And>m. n + 2 \<le> m \<Longrightarrow> drop m d2 = drop m d1" "\<And>m. m \<le> n \<Longrightarrow> take m d2 = take m d1"
    by (rule copy_two) (rule that)
  have "take hdr d2 = take hdr d1" using d2(5) hdr_le by simp
  then have r: "pf_read_src_ip F d2 = pf_read_src_ip F d1" "pf_read_dst_ip F d2 = pf_read_dst_ip F d1"
    using read_local by blast+
  have later: "drop m d2 = drop m d" if "n + 2 \<le> m" for m
    using d2(4) [OF that] drop_hdr [OF d1(5), of m] hdr_le that by simp
  have "packet_ports d2 n = Some (p, tp_dst_port packet)"
    using c(1,4) d1(2) d2(2,3) later [of "n + 2"] by (simp add: packet_ports_take)
  with later [of "n + 4"] show ?thesis
    using that [OF d1(1) d2(1)] r c(3) d1(2,3,4) d2(2) by (simp add: rewritten_def)
qed

lemma pass_frame [simp]:
  "\<exists>dns table. st = st\<lparr>ps_fake_dns := dns, ps_nat := table\<rparr>"
  "\<exists>dns table. st\<lparr>ps_fake_dns := x\<rparr> = st\<lparr>ps_fake_dns := dns, ps_nat := table\<rparr>"
  "\<exists>dns table. st\<lparr>ps_nat := y\<rparr> = st\<lparr>ps_fake_dns := dns, ps_nat := table\<rparr>"
  "\<exists>dns table. st\<lparr>ps_fake_dns := x, ps_nat := y\<rparr> = st\<lparr>ps_fake_dns := dns, ps_nat := table\<rparr>"
proof -
  show "\<exists>dns table. st = st\<lparr>ps_fake_dns := dns, ps_nat := table\<rparr>"
    by (rule exI [of _ "ps_fake_dns st"], rule exI [of _ "ps_nat st"]) simp
  show "\<exists>dns table. st\<lparr>ps_fake_dns := x\<rparr> = st\<lparr>ps_fake_dns := dns, ps_nat := table\<rparr>"
    by (rule exI [of _ x], rule exI [of _ "ps_nat st"]) simp
  show "\<exists>dns table. st\<lparr>ps_nat := y\<rparr> = st\<lparr>ps_fake_dns := dns, ps_nat := table\<rparr>"
    by (rule exI [of _ "ps_fake_dns st"], rule exI [of _ y]) simp
qed blast

lemma with_context_pass:
  assumes "\<And>packet. tcp_packet_context K F (ps_data st) n = Some (Some packet) \<Longrightarrow>
      \<exists>dns table. handler st packet = Some (Pass, st\<lparr>ps_fake_dns := dns, ps_nat := table\<rparr>)"
  shows "\<exists>dns table. with_tcp_packet_context K F n st handler = Some (Pass, st\<lparr>ps_fake_dns := dns, ps_nat := table\<rparr>)"
  using assms tcp_packet_context_total [of K F "ps_data st" n]
  by (auto simp: with_tcp_packet_context_def split: option.splits)

text \<open>A request that meets every condition is redirected.\<close>

lemma request_impl_redirects:
  assumes "hdr \<le> n" "tcp_packet_context K F (ps_data st) n = Some (Some packet)"
    "family_contains F rng (tp_dst_ip packet)" "tp_dst_port packet \<notin> {pp, tp}"
    "server_fake_domain (ps_fake_dns st) (pf_to_ip_addr F (tp_dst_ip packet)) now = (Some name, dns)"
    "fst (upsert_nat_packet (ps_nat st) packet now)"
  obtains d where "handle_request_packet_impl K F n rng pp tp now st = Some (Modified, st\<lparr>ps_data := d, ps_outbound := False,
       ps_fake_dns := dns, ps_nat := snd (upsert_nat_packet (ps_nat st) packet now)\<rparr>)"
    "rewritten F n (ps_data st) d (tp_src_ip packet, tp_src_port packet)
       (tp_src_ip packet, if tp_dst_port packet = 443 then tp else pp)"
proof -
  obtain table where t: "upsert_nat_packet (ps_nat st) packet now = (True, table)"
    using assms(6) by (cases "upsert_nat_packet (ps_nat st) packet now") simp
  show ?thesis
    by (rule rewrite_request [OF assms(1,2), where p = "if tp_dst_port packet = 443 then tp else pp"], rule that)
       (use assms t in \<open>simp_all add: handle_request_packet_impl_def with_tcp_packet_context_def Let_def set_outbound_flag_def\<close>)
qed

text \<open>The outcome of a handler: it lets the packet through as it is, or it sends a rewritten packet inward.\<close>

lemma request_impl_cases:
  assumes hdr_le: "hdr \<le> n"
  obtains (pass) dns table where "handle_request_packet_impl K F n rng pp tp now st =
      Some (Pass, st\<lparr>ps_fake_dns := dns, ps_nat := table\<rparr>)"
  | (redirect) packet dns d where "tcp_packet_context K F (ps_data st) n = Some (Some packet)"
    "family_contains F rng (tp_dst_ip packet)" "tp_dst_port packet \<notin> {pp, tp}"
    "fst (server_fake_domain (ps_fake_dns st) (pf_to_ip_addr F (tp_dst_ip packet)) now) \<noteq> None"
    "handle_request_packet_impl K F n rng pp tp now st = Some (Modified, st\<lparr>ps_data := d, ps_outbound := False,
       ps_fake_dns := dns, ps_nat := snd (upsert_nat_packet (ps_nat st) packet now)\<rparr>)"
    "rewritten F n (ps_data st) d (tp_src_ip packet, tp_src_port packet)
       (tp_src_ip packet, if tp_dst_port packet = 443 then tp else pp)"
proof (cases "\<exists>packet. tcp_packet_context K F (ps_data st) n = Some (Some packet)
    \<and> family_contains F rng (tp_dst_ip packet) \<and> tp_dst_port packet \<notin> {pp, tp}
    \<and> fst (server_fake_domain (ps_fake_dns st) (pf_to_ip_addr F (tp_dst_ip packet)) now) \<noteq> None
    \<and> fst (upsert_nat_packet (ps_nat st) packet now)")
  case True
  then obtain packet name dns where p: "tcp_packet_context K F (ps_data st) n = Some (Some packet)"
    "family_contains F rng (tp_dst_ip packet)" "tp_dst_port packet \<notin> {pp, tp}"
    "server_fake_domain (ps_fake_dns st) (pf_to_ip_addr F (tp_dst_ip packet)) now = (Some name, dns)"
    "fst (upsert_nat_packet (ps_nat st) packet now)"
    by (auto simp: prod_eq_iff)
  show ?thesis by (rule request_impl_redirects [OF hdr_le p], rule redirect [OF p(1-3)]) (use p(4) in simp_all)
next
  case False
  have "\<exists>dns table. handle_request_packet_impl K F n rng pp tp now st =
      Some (Pass, st\<lparr>ps_fake_dns := dns, ps_nat := table\<rparr>)"
    unfolding handle_request_packet_impl_def
    by (rule with_context_pass)
       (use False in \<open>auto simp: Let_def split: prod.splits option.splits\<close>)
  then show ?thesis using pass by blast
qed

lemma dns_tcp_impl_cases:
  assumes hdr_le: "hdr \<le> n"
  obtains (pass) dns table where "handle_dns_tcp_packet_impl K F n dp now st =
      Some (Pass, st\<lparr>ps_fake_dns := dns, ps_nat := table\<rparr>)"
  | (redirect) packet d where "tcp_packet_context K F (ps_data st) n = Some (Some packet)"
    "tp_dst_port packet = 53" "tp_src_port packet \<noteq> dp"
    "handle_dns_tcp_packet_impl K F n dp now st = Some (Modified, st\<lparr>ps_data := d, ps_outbound := False,
       ps_nat := snd (upsert_nat_packet (ps_nat st) packet now)\<rparr>)"
    "rewritten F n (ps_data st) d (tp_src_ip packet, tp_src_port packet) (tp_src_ip packet, dp)"
proof (cases "\<exists>packet. tcp_packet_context K F (ps_data st) n = Some (Some packet)
    \<and> tp_dst_port packet = 53 \<and> tp_src_port packet \<noteq> dp \<and> fst (upsert_nat_packet (ps_nat st) packet now)")
  case True
  then obtain packet table where p: "tcp_packet_context K F (ps_data st) n = Some (Some packet)"
    "tp_dst_port packet = 53" "tp_src_port packet \<noteq> dp"
    "upsert_nat_packet (ps_nat st) packet now = (True, table)"
    by (auto simp: prod_eq_iff)
  show ?thesis
    by (rule rewrite_request [OF hdr_le p(1), where p = dp])
       (rule redirect [OF p(1-3)]; use p in \<open>simp add: handle_dns_tcp_packet_impl_def
          with_tcp_packet_context_def Let_def set_outbound_flag_def\<close>)
next
  case False
  have "\<exists>dns table. handle_dns_tcp_packet_impl K F n dp now st =
      Some (Pass, st\<lparr>ps_fake_dns := dns, ps_nat := table\<rparr>)"
    unfolding handle_dns_tcp_packet_impl_def
    by (rule with_context_pass)
       (use False in \<open>auto simp: Let_def split: prod.splits option.splits\<close>)
  then show ?thesis using pass by blast
qed

lemma response_impl_cases:
  assumes hdr_le: "hdr \<le> n"
  obtains (pass) dns table where "handle_proxy_response_packet_impl K F n pp tp dp now st =
      Some (Pass, st\<lparr>ps_fake_dns := dns, ps_nat := table\<rparr>)"
      "\<And>packet. tcp_packet_context K F (ps_data st) n = Some (Some packet) \<Longrightarrow>
        tp_src_port packet \<in> {pp, tp, dp} \<Longrightarrow> fst (touch_nat_mapping (ps_nat st) (tp_dst_ip packet) (tp_dst_port packet)
          now (nat_expiration now (tp_is_closing packet))) = None"
  | (restore) packet orig table d where "tcp_packet_context K F (ps_data st) n = Some (Some packet)"
    "tp_src_port packet \<in> {pp, tp, dp}"
    "touch_nat_mapping (ps_nat st) (tp_dst_ip packet) (tp_dst_port packet) now
       (nat_expiration now (tp_is_closing packet)) = (Some orig, table)"
    "handle_proxy_response_packet_impl K F n pp tp dp now st =
       Some (Modified, st\<lparr>ps_data := d, ps_outbound := False, ps_nat := table\<rparr>)"
    "rewritten F n (ps_data st) d orig (tp_dst_ip packet, tp_dst_port packet)"
proof (cases "\<exists>packet orig table. tcp_packet_context K F (ps_data st) n = Some (Some packet)
    \<and> tp_src_port packet \<in> {pp, tp, dp} \<and> touch_nat_mapping (ps_nat st) (tp_dst_ip packet) (tp_dst_port packet) now
       (nat_expiration now (tp_is_closing packet)) = (Some orig, table)")
  case True
  then obtain packet a q table where p: "tcp_packet_context K F (ps_data st) n = Some (Some packet)"
    "tp_src_port packet \<in> {pp, tp, dp}" "touch_nat_mapping (ps_nat st) (tp_dst_ip packet) (tp_dst_port packet) now
       (nat_expiration now (tp_is_closing packet)) = (Some (a, q), table)"
    by auto
  show ?thesis
    by (rule rewrite_response [OF hdr_le p(1), where a = a and p = q])
       (rule restore [OF p]; use p in \<open>auto simp: handle_proxy_response_packet_impl_def
          with_tcp_packet_context_def Let_def set_outbound_flag_def touch_nat_def\<close>)
next
  case False
  have "\<exists>dns table. handle_proxy_response_packet_impl K F n pp tp dp now st =
      Some (Pass, st\<lparr>ps_fake_dns := dns, ps_nat := table\<rparr>)"
    unfolding handle_proxy_response_packet_impl_def
    by (rule with_context_pass)
       (use False in \<open>auto simp: Let_def touch_nat_def split: prod.splits option.splits\<close>)
  moreover have "fst (touch_nat_mapping (ps_nat st) (tp_dst_ip packet) (tp_dst_port packet)
          now (nat_expiration now (tp_is_closing packet))) = None"
    if "tcp_packet_context K F (ps_data st) n = Some (Some packet)" "tp_src_port packet \<in> {pp, tp, dp}" for packet
    using False that by (metis not_None_eq prod.collapse)
  ultimately show ?thesis using pass by blast
qed

lemma impls_kept:
  assumes "hdr \<le> n"
  shows "\<exists>r p. handle_request_packet_impl K F n rng pp tp now st = Some (r, p) \<and> kept st r p"
    "\<exists>r p. handle_dns_tcp_packet_impl K F n dp now st = Some (r, p) \<and> kept st r p"
    "\<exists>r p. handle_proxy_response_packet_impl K F n pp tp dp now st = Some (r, p) \<and> kept st r p"
proof -
  show "\<exists>r p. handle_request_packet_impl K F n rng pp tp now st = Some (r, p) \<and> kept st r p"
    by (rule request_impl_cases [OF assms, of K rng pp tp now st]; simp add: kept_def rewritten_def)
  show "\<exists>r p. handle_dns_tcp_packet_impl K F n dp now st = Some (r, p) \<and> kept st r p"
    by (rule dns_tcp_impl_cases [OF assms, of K dp now st]; simp add: kept_def rewritten_def)
  show "\<exists>r p. handle_proxy_response_packet_impl K F n pp tp dp now st = Some (r, p) \<and> kept st r p"
    by (rule response_impl_cases [OF assms, of K pp tp dp now st]; simp add: kept_def rewritten_def)
qed

end

interpretation tf4: tcp_family "ipv4_family K L" 20 for K L
  by (simp add: tcp_family_def ipv4_family_def fam4.ip_family_axioms)

interpretation tf6: tcp_family "ipv6_family K L" 40 for K L
  by (simp add: tcp_family_def ipv6_family_def fam6.ip_family_axioms)

section \<open>A redirected connection\<close>

lemma upsert_nat_packet_put:
  "snd (upsert_nat_packet t packet now) = nat_put t (tp_src_ip packet, tp_src_port packet)
     \<lparr>ne_destination_ip = tp_dst_ip packet, ne_destination_port = tp_dst_port packet,
      ne_expires_at = nat_expiration now (tp_is_closing packet)\<rparr>"
  by (simp add: upsert_nat_packet_def nat_put_def upsert_nat_def Let_def)

lemma nat_expiration_ge: "now + NAT_ENTRY_CLOSING_TTL \<le> nat_expiration now closing"
  by (simp add: nat_expiration_def NAT_ENTRY_CLOSING_TTL_def NAT_ENTRY_ESTABLISHED_TTL_def secs_def)

text \<open>A response to the client of a stored mapping is given the destination the client had asked for.\<close>

context tcp_family
begin

lemma response_restored:
  assumes "hdr \<le> n" "nat_ok t" and resp: "tcp_packet_context K F (ps_data st) n = Some (Some resp)"
    and "tp_src_port resp \<in> {pp, tp, dp}"
    and client: "tp_dst_ip resp = tp_src_ip packet" "tp_dst_port resp = tp_src_port packet"
    and ops: "\<forall>op \<in> set ops. op_at op \<le> later \<and> op_key op \<noteq> Some (tp_src_ip packet, tp_src_port packet)"
    and t: "ps_nat st = fold nat.run ops (snd (upsert_nat_packet t packet now))"
    and time: "later < now + NAT_ENTRY_CLOSING_TTL"
  shows "\<exists>d table. handle_proxy_response_packet_impl K F n pp tp dp later st =
      Some (Modified, st\<lparr>ps_data := d, ps_outbound := False, ps_nat := table\<rparr>)
    \<and> rewritten F n (ps_data st) d (tp_dst_ip packet, tp_dst_port packet) (tp_src_ip packet, tp_src_port packet)"
proof -
  have live: "fst (touch_nat_mapping (ps_nat st) (tp_dst_ip resp) (tp_dst_port resp) later e) =
      Some (tp_dst_ip packet, tp_dst_port packet)" for e
    using nat.put_touch [OF assms(2) ops, of "\<lparr>ne_destination_ip = tp_dst_ip packet,
        ne_destination_port = tp_dst_port packet, ne_expires_at = nat_expiration now (tp_is_closing packet)\<rparr>" e]
      nat_expiration_ge [of now "tp_is_closing packet"] time
    by (simp add: t upsert_nat_packet_put nat_dest_def client)
  from assms(1) show ?thesis
  proof (cases rule: response_impl_cases [where pp = pp and tp = tp and dp = dp and now = later and st = st and K = K])
    case (pass dns table)
    then show ?thesis using resp live assms(4) by force
  next
    case (restore packet' orig table d)
    then have "packet' = resp" using resp by simp
    with restore live [of "nat_expiration later (tp_is_closing resp)"] client show ?thesis by auto
  qed
qed

end

section \<open>The dispatcher\<close>

lemma detected_len:
  assumes "etherparse_law K"
  shows "detect_tcp_family K L d = Some (DetectedIpv4 n) \<Longrightarrow> 20 \<le> n"
    "detect_tcp_family K L d = Some (DetectedIpv6 n) \<Longrightarrow> 40 \<le> n"
  using assms
  by (auto simp: detect_tcp_family_def tcp_header_len_def ipv4_family_def ipv6_family_def etherparse_law_def
      read_ip_header_len_v4_def read_ip_header_len_v6_def split: option.splits if_splits)

definition packet_kept :: "'h capture_state \<Rightarrow> packet_disposition \<Rightarrow> 'h capture_state \<Rightarrow> bool" where
  "packet_kept st r st' \<longleftrightarrow> length (cs_data st') = length (cs_data st)
     \<and> (case r of Modified \<Rightarrow> \<not> cs_outbound st'
        | _ \<Rightarrow> cs_data st' = cs_data st \<and> cs_outbound st' = cs_outbound st)"

lemma back_kept:
  "\<exists>r p. f = Some (r, p) \<and> kept (state_v4 st) r p \<Longrightarrow> \<exists>r st'. back_v4 st f = Some (r, st') \<and> r \<noteq> Drop \<and> packet_kept st r st'"
  "\<exists>r p. g = Some (r, p) \<and> kept (state_v6 st) r p \<Longrightarrow> \<exists>r st'. back_v6 st g = Some (r, st') \<and> r \<noteq> Drop \<and> packet_kept st r st'"
  by (auto simp: back_v4_def back_v6_def kept_def packet_kept_def state_v4_def state_v6_def
      split: packet_disposition.splits)

lemma dispatch_kept:
  assumes "etherparse_law K"
    and "\<And>n. 20 \<le> n \<Longrightarrow> \<exists>r p. f4 n = Some (r, p) \<and> kept (state_v4 st) r p"
    and "\<And>n. 40 \<le> n \<Longrightarrow> \<exists>r p. f6 n = Some (r, p) \<and> kept (state_v6 st) r p"
  shows "\<exists>r st'. (case detect_tcp_family K L (cs_data st) of
        Some (DetectedIpv4 n) \<Rightarrow> back_v4 st (f4 n)
      | Some (DetectedIpv6 n) \<Rightarrow> back_v6 st (f6 n)
      | None \<Rightarrow> Some (Pass, st)) = Some (r, st') \<and> r \<noteq> Drop \<and> packet_kept st r st'"
proof (cases "detect_tcp_family K L (cs_data st)")
  case None
  then show ?thesis by (simp add: packet_kept_def)
next
  case (Some fam)
  with detected_len [OF assms(1), of L "cs_data st"] show ?thesis
    by (cases fam) (simp_all add: back_kept assms(2,3))
qed

lemma tcp_handlers_kept:
  assumes "etherparse_law K"
  shows "\<exists>r st'. handle_request_packet K L c now st = Some (r, st') \<and> r \<noteq> Drop \<and> packet_kept st r st'"
    "\<exists>r st'. handle_dns_tcp_packet K L c now st = Some (r, st') \<and> r \<noteq> Drop \<and> packet_kept st r st'"
    "\<exists>r st'. handle_proxy_response_packet K L c now st = Some (r, st') \<and> r \<noteq> Drop \<and> packet_kept st r st'"
  unfolding handle_request_packet_def handle_dns_tcp_packet_def handle_proxy_response_packet_def
  by (rule dispatch_kept [OF assms]; rule tf4.impls_kept tf6.impls_kept; assumption)+

lemma quic_kept: "\<exists>r st'. handle_quic_packet K L now st = Some (r, st') \<and> r \<noteq> Modified \<and> packet_kept st r st'"
  by (auto simp: handle_quic_packet_def try_packet_families_def log_quic_drop_for_family_def packet_kept_def
      split: option.splits prod.splits)

lemma family_dns_packet_total: "build_fake_ip_dns_packet_for_family F D clock data server \<noteq> None"
  by (auto simp: build_fake_ip_dns_packet_for_family_def udp_header_len_def
      split: option.splits prod.splits sum.splits if_splits)

lemma dns_packet_total: "build_fake_ip_dns_packet K L D clock data server \<noteq> None"
  by (auto simp: build_fake_ip_dns_packet_def family_dns_packet_total simp del: not_None_eq split: option.splits prod.splits)

section \<open>Properties\<close>

text \<open>Packets without IP options, for the witnesses.\<close>

definition sample_packet_lib :: packet_lib where
  "sample_packet_lib =
     \<lparr>ep_ipv4_header = \<lambda>d. if 20 \<le> length d \<and> d ! 0 = 0x45 then Some (d ! 9, 20) else None,
      ep_ipv6_header = \<lambda>d. if 40 \<le> length d \<and> d ! 0 = 0x60 then Some (d ! 6, 40) else None,
      ep_tcp_header = \<lambda>d. if 20 \<le> length d then Some (20, bit (d ! 13) 1, bit (d ! 13) 0, bit (d ! 13) 2) else None,
      ep_build_udp4 = \<lambda>_ _ _ _ _ p. Some p, ep_build_udp6 = \<lambda>_ _ _ _ _ p. Some p\<rparr>"

lemma sample_etherparse_law: "etherparse_law sample_packet_lib"
  by (auto simp: etherparse_law_def sample_packet_lib_def split: if_splits)

definition sample_tcp :: "u32 \<Rightarrow> u32 \<Rightarrow> u16 \<Rightarrow> u16 \<Rightarrow> bytes" where
  "sample_tcp src dst sport dport =
     [0x45, 0, 0, 40, 0, 0, 0, 0, 64, 6, 0, 0] @ to_be_bytes 4 src @ to_be_bytes 4 dst
     @ to_be_bytes 2 sport @ to_be_bytes 2 dport @ [0, 0, 0, 0, 0, 0, 0, 0, 0x50, 0x18, 0, 0, 0, 0, 0, 0]"

lemma sample_tcp_parsed:
  "detect_tcp_family sample_packet_lib L (sample_tcp src dst sport dport) = Some (DetectedIpv4 20)"
  "tcp_packet_context sample_packet_lib (ipv4_family sample_packet_lib L) (sample_tcp src dst sport dport) 20 =
     Some (Some \<lparr>tp_src_ip = src, tp_dst_ip = dst, tp_src_port = sport, tp_dst_port = dport,
       tp_tcp_header_len = 20, tp_syn = False, tp_is_closing = False\<rparr>)"
  by (simp_all add: detect_tcp_family_def tcp_header_len_def ipv4_family_def read_ip_header_len_v4_def IP_TCP_def
      sample_packet_lib_def sample_tcp_def tcp_packet_context_def tcp_details_def read_v4_take packet_ports_take nth_append)

definition sample_capture_config :: capture_config where
  "sample_capture_config = \<lparr>cc_fake_ipv4_range = sample_net4, cc_fake_ipv6_range = sample_net6,
     cc_proxy_port = 8080, cc_tls_port = 8443, cc_local_dns_port = 5353\<rparr>"

definition sample_capture :: "bytes \<Rightarrow> u32 nat_table \<Rightarrow> unit capture_state" where
  "sample_capture data table = \<lparr>cs_data = data, cs_outbound = True, cs_fake_dns = None, cs_nat_v4 = table,
     cs_nat_v6 = new_transparent_nat_table\<rparr>"



text \<open>
  C14. A redirected connection is transparent to its client. When a request (or a DNS query over TCP) from
  a client is redirected, it arrives at a local port of the proxy with the client's own address as destination. Any
  answer from a local port to that client within the life of the mapping, whatever other connections and
  cleanup rounds happen in between, leaves with exactly the address and port the client had asked for as its
  source, towards the client, and with the payload as it was.
\<close>

theorem transparent_nat_round_trip:
  assumes "etherparse_law K" "nat_ok (cs_nat_v4 st)" "kind \<in> {TcpRequestRedirect, TcpDnsRedirect}"
    and "process_packet K L c kind now st = Some (Modified, st1)"
    and "detect_tcp_family K L (cs_data st) = Some (DetectedIpv4 n)"
    and "tcp_packet_context K (ipv4_family K L) (cs_data st) n = Some (Some request)"
    and "detect_tcp_family K L (cs_data st') = Some (DetectedIpv4 m)"
    and "tcp_packet_context K (ipv4_family K L) (cs_data st') m = Some (Some response)"
    and "tp_src_port response \<in> {cc_proxy_port c, cc_tls_port c, cc_local_dns_port c}"
    and "tp_dst_ip response = tp_src_ip request" "tp_dst_port response = tp_src_port request"
    and "cs_nat_v4 st' = fold nat.run ops (cs_nat_v4 st1)"
    and "\<forall>op \<in> set ops. op_at op \<le> later \<and> op_key op \<noteq> Some (tp_src_ip request, tp_src_port request)"
    and "later < now + NAT_ENTRY_CLOSING_TTL"
  shows "(\<exists>p \<in> {cc_proxy_port c, cc_tls_port c, cc_local_dns_port c}. rewritten (ipv4_family K L) n (cs_data st) (cs_data st1)
           (tp_src_ip request, tp_src_port request) (tp_src_ip request, p))
    \<and> (\<exists>st3. process_packet K L c TcpProxyResponse later st' = Some (Modified, st3)
         \<and> rewritten (ipv4_family K L) m (cs_data st') (cs_data st3)
             (tp_dst_ip request, tp_dst_port request) (tp_src_ip request, tp_src_port request))"
proof
  have n: "20 \<le> n" "20 \<le> m" using detected_len(1) [OF assms(1)] assms(5,7) by blast+
  have st1: "cs_nat_v4 st1 = snd (upsert_nat_packet (cs_nat_v4 st) request now)
    \<and> (\<exists>p \<in> {cc_proxy_port c, cc_tls_port c, cc_local_dns_port c}. rewritten (ipv4_family K L) n (cs_data st) (cs_data st1)
           (tp_src_ip request, tp_src_port request) (tp_src_ip request, p))"
  proof (cases "kind = TcpRequestRedirect")
    case True
    from n(1) show ?thesis
      by (cases rule: tf4.request_impl_cases [where K = K and Ka = K and L = L and rng = "cc_fake_ipv4_range c"
            and pp = "cc_proxy_port c" and tp = "cc_tls_port c" and now = now and st = "state_v4 st"])
         (use True assms(4-6) in \<open>auto simp: process_packet_def handle_request_packet_def back_v4_def state_v4_def split: if_splits\<close>)
  next
    case False
    from n(1) show ?thesis
      by (cases rule: tf4.dns_tcp_impl_cases [where K = K and Ka = K and L = L
            and dp = "cc_local_dns_port c" and now = now and st = "state_v4 st"])
         (use False assms(3-6) in \<open>auto simp: process_packet_def handle_dns_tcp_packet_def back_v4_def state_v4_def\<close>)
  qed
  then show "\<exists>p \<in> {cc_proxy_port c, cc_tls_port c, cc_local_dns_port c}. rewritten (ipv4_family K L) n (cs_data st) (cs_data st1)
           (tp_src_ip request, tp_src_port request) (tp_src_ip request, p)" by blast
  have "ps_data (state_v4 st') = cs_data st'"
    "ps_nat (state_v4 st') = fold nat.run ops (snd (upsert_nat_packet (cs_nat_v4 st) request now))"
    using st1 assms(12) by (simp_all add: state_v4_def)
  from tf4.response_restored [OF n(2) assms(2) _ assms(9-11,13) this(2) assms(14), of K K L] this(1) assms(7,8)
  show "\<exists>st3. process_packet K L c TcpProxyResponse later st' = Some (Modified, st3)
         \<and> rewritten (ipv4_family K L) m (cs_data st') (cs_data st3)
             (tp_dst_ip request, tp_dst_port request) (tp_src_ip request, tp_src_port request)"
    by (auto simp: process_packet_def handle_proxy_response_packet_def back_v4_def)
qed

text \<open>A query to a public DNS server, redirected to the local one and answered.\<close>

lemma sample_dns_redirected:
  "process_packet sample_packet_lib sample_lib sample_capture_config TcpDnsRedirect 7
     (sample_capture (sample_tcp 0x0A000002 0x08080808 50000 53) new_transparent_nat_table) =
   Some (Modified, (sample_capture (sample_tcp 0x0A000002 0x0A000002 50000 5353)
     (snd (upsert_nat_mapping new_transparent_nat_table 0x0A000002 50000 0x08080808 53 (7 + NAT_ENTRY_ESTABLISHED_TTL))))
       \<lparr>cs_outbound := False\<rparr>)"
  by (simp add: process_packet_def handle_dns_tcp_packet_def sample_tcp_parsed sample_capture_def state_v4_def back_v4_def
      handle_dns_tcp_packet_impl_def with_tcp_packet_context_def sample_capture_config_def upsert_nat_packet_def
      upsert_nat_def upsert_nat_mapping_def new_transparent_nat_table_def nat_expiration_def set_outbound_flag_def)
     (simp add: ipv4_family_def set_request_destination_ip_v4_def copy_into_def sample_tcp_def)

theorem transparent_nat_round_trip_witness:
  "\<exists>st1 st3. process_packet sample_packet_lib sample_lib sample_capture_config TcpDnsRedirect 7
      (sample_capture (sample_tcp 0x0A000002 0x08080808 50000 53) new_transparent_nat_table) = Some (Modified, st1)
    \<and> process_packet sample_packet_lib sample_lib sample_capture_config TcpProxyResponse 9
      (sample_capture (sample_tcp 0x0A000002 0x0A000002 5353 50000) (snd (prune_nat_table (cs_nat_v4 st1) 8))) = Some (Modified, st3)
    \<and> rewritten (ipv4_family sample_packet_lib sample_lib) 20 (sample_tcp 0x0A000002 0x0A000002 5353 50000) (cs_data st3)
        (0x08080808, 53) (0x0A000002, 50000)"
proof -
  let ?ctx = "\<lambda>src dst sport dport. \<lparr>tp_src_ip = src :: u32, tp_dst_ip = dst, tp_src_port = sport :: u16,
      tp_dst_port = dport, tp_tcp_header_len = 20, tp_syn = False, tp_is_closing = False\<rparr>"
  show ?thesis unfolding sample_dns_redirected
    using transparent_nat_round_trip [OF sample_etherparse_law _ _ sample_dns_redirected, where n = 20 and m = 20
        and request = "?ctx 0x0A000002 0x08080808 50000 53" and response = "?ctx 0x0A000002 0x0A000002 5353 50000"
        and ops = "[PruneOp 8]" and later = 9 and st' = "sample_capture (sample_tcp 0x0A000002 0x0A000002 5353 50000)
          (snd (prune_nat_table (snd (upsert_nat_mapping new_transparent_nat_table 0x0A000002 50000 0x08080808 53
            (7 + NAT_ENTRY_ESTABLISHED_TTL))) 8))"]
    by (simp add: new_table_ok sample_capture_def sample_tcp_parsed sample_capture_config_def NAT_ENTRY_CLOSING_TTL_def secs_def)
qed

text \<open>
  The QUIC handler takes every packet of at least 20 bytes for IPv4: an IPv6 packet is let through
  unless the bytes of its source address happen to spell a leased IPv4 address, even when its
  destination is a fake IPv6 address with a live lease.
\<close>

theorem quic_reads_ipv6_as_ipv4:
  assumes "read_dst_ip_v6 (cs_data st) = Some dst" "cs_fake_dns st = Some server"
    and "fst (resolve_fake_domain server (V4 (from_be_bytes (take 4 (drop 16 (cs_data st))))) now) = None"
  shows "\<exists>st'. process_packet K L c UdpQuicDrop now st = Some (Pass, st')"
proof -
  have "40 \<le> length (cs_data st)" using assms(1) by (simp add: read_v6_take split: if_splits)
  with assms(2,3) show ?thesis
    by (auto simp: process_packet_def handle_quic_packet_def try_packet_families_def log_quic_drop_for_family_def
        ipv4_family_def read_v4_take server_fake_domain_def split: prod.splits option.splits)
qed

text \<open>A UDP packet to port 443 of the first fake IPv6 address, leased to \<^verbatim>\<open>a.io\<close>.\<close>

definition quic_store :: fake_ip_store where
  "quic_store = snd (allocate_or_refresh_ipv6 sample_store ''a.io'' 60 5)"

definition quic_packet :: bytes where
  "quic_packet = [0x60, 0, 0, 0, 0, 8, 17, 64, 0, 0, 0, 0, 0, 0, 0, 0, 0, 0, 0, 0, 0, 0, 0, 0]
     @ to_be_bytes 16 (0xFD000000000000000000000000000003 :: u128) @ [0xC0, 0, 0x01, 0xBB, 0, 8, 0, 0]"

definition quic_state :: "unit capture_state" where
  "quic_state = (sample_capture quic_packet new_transparent_nat_table)
     \<lparr>cs_fake_dns := Some (sample_dns_state\<lparr>fds_fake_ip_store := quic_store\<rparr>)\<rparr>"

lemma quic_store_eq:
  "quic_store = \<lparr>mx_poisoned = False, mx_value = (mx_value sample_store)
     \<lparr>fi_domain_to_entry_v6 := [(''a.io'', \<lparr>fe6_ip = 0xFD000000000000000000000000000003, fe6_expires_at = 65\<rparr>)],
      fi_ip_to_domain_v6 := [(0xFD000000000000000000000000000003, ''a.io'')],
      fi_next_candidate_v6 := 0xFD000000000000000000000000000004\<rparr>\<rparr>"
proof -
  have n: "normalize_domain ''a.io'' = ''a.io''" by code_simp
  show ?thesis
    by (simp add: quic_store_def sample_store_def fake_ip_store_new_def sample_net6_def allocate_or_refresh_ipv6_def n
      prune_expired_entries_def allocate_next_ipv6_def last_usable_ipv6_def first_allocatable_ipv6_def
      first_usable_ipv6_def saturating_add_def clamp_ipv6_candidate_def advance_ipv6_candidate_def
      allocate_loop_v6.simps Let_def)
qed

theorem quic_reads_ipv6_as_ipv4_witness:
  "read_dst_ip_v6 (cs_data quic_state) = Some 0xFD000000000000000000000000000003
   \<and> fst (server_fake_domain (cs_fake_dns quic_state) (V6 0xFD000000000000000000000000000003) 20) = Some ''a.io''
   \<and> (\<exists>st'. process_packet sample_packet_lib sample_lib sample_capture_config UdpQuicDrop 20 quic_state = Some (Pass, st'))"
proof -
  have d: "read_dst_ip_v6 (cs_data quic_state) = Some 0xFD000000000000000000000000000003"
    by (simp add: quic_state_def sample_capture_def quic_packet_def read_v6_take)
  have f: "fst (resolve_fake_domain (sample_dns_state\<lparr>fds_fake_ip_store := quic_store\<rparr>) ip 20) =
      (if ip = V6 0xFD000000000000000000000000000003 then Some ''a.io'' else None)" for ip
    by (cases ip) (simp_all add: resolve_fake_domain_def quic_store_eq resolve_domain_def prune_expired_entries_def
        sample_store_def fake_ip_store_new_def)
  have s: "cs_fake_dns quic_state = Some (sample_dns_state\<lparr>fds_fake_ip_store := quic_store\<rparr>)"
    by (simp add: quic_state_def)
  from quic_reads_ipv6_as_ipv4 [OF d s, of 20] d f s show ?thesis
    by (simp add: server_fake_domain_def case_prod_beta Let_def)
qed

text \<open>
  C15. The DNS hijack and the redirection fit together: while the TTL of a fake answer lasts, a TCP packet sent to the
  IPv4 address of that answer, on any port the proxy does not own, is redirected to the proxy, and to its
  TLS port when the client spoke to port 443.
\<close>

theorem fake_answer_is_redirected:
  assumes "etherparse_law K" "ipnet_contains_law L" "ipv4_net_ok rng4" "cc_fake_ipv4_range c = rng4"
    and "reachable rng4 rng6 (fds_fake_ip_store dns)"
    and "\<forall>i. clock i \<le> T \<and> T < clock i + fdo_record_ttl (fds_options dns)"
    and "build_fake_answers D clock dns (queries_from_message request) = (Ok (Some answers), dns')"
    and "r \<in> set answers" "rr_data r = RdA a"
    and "cs_fake_dns st = Some dns'" "\<not> mx_poisoned (cs_nat_v4 st)"
    and "detect_tcp_family K L (cs_data st) = Some (DetectedIpv4 n)"
    and "tcp_packet_context K (ipv4_family K L) (cs_data st) n = Some (Some packet)"
    and "tp_dst_ip packet = a" "tp_dst_port packet \<notin> {cc_proxy_port c, cc_tls_port c}"
  shows "\<exists>st'. process_packet K L c TcpRequestRedirect T st = Some (Modified, st')
    \<and> rewritten (ipv4_family K L) n (cs_data st) (cs_data st') (tp_src_ip packet, tp_src_port packet)
        (tp_src_ip packet, if tp_dst_port packet = 443 then cc_tls_port c else cc_proxy_port c)"
proof -
  obtain name where l: "leased (fds_fake_ip_store dns') T name a" "store_ok (fds_fake_ip_store dns')" "in_pool4 rng4 a"
    by (rule answer_leased [OF assms(5-9)])
  have n: "20 \<le> n" using detected_len(1) [OF assms(1,12)] .
  have contains: "family_contains (ipv4_family K L) (cc_fake_ipv4_range c) (tp_dst_ip packet)"
    using in_pool4_contains [OF l(3) assms(3)] assms(2,3,4,14)
    by (simp add: family_contains_def ipv4_family_def ipnet_contains_law_def ip_net_ok_def)
  obtain server where server: "server_fake_domain (ps_fake_dns (state_v4 st))
      (pf_to_ip_addr (ipv4_family K L) (tp_dst_ip packet)) T = (Some name, server)"
    using leased_resolves [OF l(2,1)] assms(10,14)
    by (auto simp: server_fake_domain_def state_v4_def ipv4_family_def resolve_fake_domain_def case_prod_beta)
  have "tcp_packet_context K (ipv4_family K L) (ps_data (state_v4 st)) n = Some (Some packet)"
    using assms(13) by (simp add: state_v4_def)
  moreover have "fst (upsert_nat_packet (ps_nat (state_v4 st)) packet T)"
    using assms(11) by (simp add: state_v4_def upsert_nat_packet_def upsert_nat_def upsert_nat_mapping_def Let_def)
  ultimately show ?thesis
    by (rule tf4.request_impl_redirects [OF n _ contains assms(15) server])
       (use assms(12) in \<open>simp add: process_packet_def handle_request_packet_def back_v4_def state_v4_def\<close>)
qed

theorem fake_answer_is_redirected_witness:
  "\<exists>dns' st'. build_fake_answers sample_dns_lib (\<lambda>_. 5) sample_dns_state (queries_from_message sample_request) =
     (Ok (Some [\<lparr>rr_name = ''a.io'', rr_ttl = 0, rr_data = RdA 0xC6120003\<rparr>]), dns')
   \<and> process_packet sample_packet_lib sample_lib sample_capture_config TcpRequestRedirect 64
       ((sample_capture (sample_tcp 0x0A000002 0xC6120003 50000 443) new_transparent_nat_table)
          \<lparr>cs_fake_dns := Some dns'\<rparr>) = Some (Modified, st')
   \<and> packet_ports (cs_data st') 20 = Some (50000, 8443)"
proof -
  obtain dns' where b: "build_fake_answers sample_dns_lib (\<lambda>_. 5) sample_dns_state (queries_from_message sample_request) =
     (Ok (Some [\<lparr>rr_name = ''a.io'', rr_ttl = 0, rr_data = RdA 0xC6120003\<rparr>]), dns')"
    using sample_fake_answer by blast
  have reach: "reachable sample_net4 sample_net6 (fds_fake_ip_store sample_dns_state)"
    using sample_store_reachable by (simp add: sample_dns_state_def fake_dns_state_new_def sample_store_def)
  have net: "ipv4_net_ok sample_net4"
    by (simp add: ipv4_net_ok_def sample_net4_def take_bit_eq_mod mask_eq_exp_minus_1)
  let ?st = "(sample_capture (sample_tcp 0x0A000002 0xC6120003 50000 443) new_transparent_nat_table)\<lparr>cs_fake_dns := Some dns'\<rparr>"
  let ?p = "\<lparr>tp_src_ip = 0x0A000002 :: u32, tp_dst_ip = 0xC6120003, tp_src_port = 50000, tp_dst_port = 443,
      tp_tcp_header_len = 20, tp_syn = False, tp_is_closing = False\<rparr>"
  have "\<exists>st'. process_packet sample_packet_lib sample_lib sample_capture_config TcpRequestRedirect 64 ?st = Some (Modified, st')
    \<and> rewritten (ipv4_family sample_packet_lib sample_lib) 20 (cs_data ?st) (cs_data st') (tp_src_ip ?p, tp_src_port ?p)
        (tp_src_ip ?p, if tp_dst_port ?p = 443 then cc_tls_port sample_capture_config else cc_proxy_port sample_capture_config)"
    by (rule fake_answer_is_redirected [OF sample_etherparse_law sample_lib_contains_law net _ reach _ b,
        where a = "0xC6120003" and r = "\<lparr>rr_name = ''a.io'', rr_ttl = 0, rr_data = RdA 0xC6120003\<rparr>"])
       (simp_all add: sample_capture_config_def sample_dns_state_def fake_dns_state_new_def sample_capture_def
          sample_tcp_parsed new_transparent_nat_table_def)
  with b show ?thesis by (auto simp: rewritten_def sample_capture_config_def)
qed

text \<open>
  No captured packet is lost: every round of the capture loop ends, for every capture kind and
  any bytes, with the packet or its replacement sent on, except for QUIC packets to a fake address.
\<close>

theorem capture_round_reinjects:
  assumes "etherparse_law K"
  shows "\<exists>out st'. capture_round K L D recalc c kind now clock st = Some (out, st')
    \<and> (out = None \<longrightarrow> kind = UdpQuicDrop)"
proof (cases "kind = DnsResponder")
  case True
  show ?thesis
  proof (cases "cs_fake_dns st")
    case None
    with True show ?thesis
      by (simp add: capture_round_def handle_dns_query_packet_def should_reinject_def Let_def)
  next
    case (Some server)
    obtain p server' where "build_fake_ip_dns_packet K L D clock (cs_data st) server = Some (p, server')"
      using dns_packet_total [of K L D clock "cs_data st" server] by force
    with True Some show ?thesis
      by (cases p) (auto simp: capture_round_def handle_dns_query_packet_def should_reinject_def Let_def ex_bool_eq)
  qed
next
  case False
  have "\<exists>r st'. process_packet K L c kind now st = Some (r, st') \<and> (r = Drop \<longrightarrow> kind = UdpQuicDrop)"
    using tcp_handlers_kept [OF assms, of L c now st] quic_kept [of K L now st] False
    by (cases kind) (auto simp: process_packet_def)
  with False show ?thesis by (auto simp: capture_round_def should_reinject_def Let_def)
qed

theorem capture_round_reinjects_witness:
  "\<exists>out st'. capture_round sample_packet_lib sample_lib sample_dns_lib (\<lambda>d. d) sample_capture_config TcpRequestRedirect
     7 (\<lambda>_. 7) (sample_capture [0x45, 0] new_transparent_nat_table) = Some (Some out, st')"
  using capture_round_reinjects [OF sample_etherparse_law, of sample_lib sample_dns_lib "\<lambda>d. d" sample_capture_config
    TcpRequestRedirect 7 "\<lambda>_. 7" "sample_capture [0x45, 0] new_transparent_nat_table"]
  by auto

end
