(* ===== verification/Windivert.thy ===== *)
theory Windivert
  imports Tun Intercept
begin

text \<open>
  The WinDivert backend: \<^verbatim>\<open>src/src/traffic/windivert/{filters,config}.rs\<close> and
  \<^verbatim>\<open>src/src/traffic/windivert/runtime/startup.rs\<close>, and the choice of the backend in \<^verbatim>\<open>src/src/traffic/mod.rs\<close>. The
  driver, the file system and the environment are the fields of \<open>windivert_env\<close>. The capture loops that are running are the state:
  starting returns the loops it leaves behind also when it fails. The NAT tables the five loops share are those of
  \<open>Intercept\<close>.
\<close>

section \<open>Filters (filters.rs)\<close>

definition saturating_sub :: "'a::len word \<Rightarrow> 'a word \<Rightarrow> 'a word" where
  "saturating_sub x y = (if y \<le> x then x - y else 0)"

definition filter_first_usable_ipv4 :: "ipv4_net \<Rightarrow> u32" where
  "filter_first_usable_ipv4 rng = saturating_add (net4_network rng) 1"

definition filter_last_usable_ipv4 :: "ipv4_net \<Rightarrow> u32" where
  "filter_last_usable_ipv4 rng = saturating_sub (net4_broadcast rng) 1"

definition filter_first_usable_ipv6 :: "ipv6_net \<Rightarrow> u128" where
  "filter_first_usable_ipv6 rng = saturating_add (net6_network rng) 1"

definition ipv6_host_mask :: "nat \<Rightarrow> u128" where
  "ipv6_host_mask prefix_len =
     (let host_bits = 128 - prefix_len
      in if host_bits = 0 then 0 else if host_bits = 128 then - 1 else push_bit host_bits 1 - 1)"

definition filter_last_usable_ipv6 :: "ipv6_net \<Rightarrow> u128" where
  "filter_last_usable_ipv6 rng = or (net6_network rng) (ipv6_host_mask (net6_prefix_len rng))"

definition fake_ip_destination_clause :: "ipv4_net \<Rightarrow> ipv6_net \<Rightarrow> string" where
  "fake_ip_destination_clause rng4 rng6 =
     ''((ip and ip.DstAddr >= '' @ show_ipv4 (filter_first_usable_ipv4 rng4)
     @ '' and ip.DstAddr <= '' @ show_ipv4 (filter_last_usable_ipv4 rng4)
     @ '') or (ipv6 and ipv6.DstAddr >= '' @ show_ipv6 (filter_first_usable_ipv6 rng6)
     @ '' and ipv6.DstAddr <= '' @ show_ipv6 (filter_last_usable_ipv6 rng6) @ ''))''"

definition show_port :: "u16 \<Rightarrow> string" where
  "show_port port = decimal (unat port)"

definition build_transparent_fake_ip_tcp_request_filter :: "u16 \<Rightarrow> u16 \<Rightarrow> ipv4_net \<Rightarrow> ipv6_net \<Rightarrow> string" where
  "build_transparent_fake_ip_tcp_request_filter proxy_port tls_port rng4 rng6 =
     ''outbound and tcp and !loopback and tcp.DstPort != '' @ show_port proxy_port
     @ '' and tcp.DstPort != '' @ show_port tls_port @ '' and '' @ fake_ip_destination_clause rng4 rng6"

definition build_transparent_tcp_proxy_response_filter :: "u16 \<Rightarrow> u16 \<Rightarrow> u16 \<Rightarrow> string" where
  "build_transparent_tcp_proxy_response_filter proxy_port tls_port dns_port =
     ''outbound and tcp and (tcp.SrcPort == '' @ show_port proxy_port @ '' or tcp.SrcPort == '' @ show_port tls_port
     @ '' or tcp.SrcPort == '' @ show_port dns_port @ '')''"

definition build_transparent_dns_query_filter :: string where
  "build_transparent_dns_query_filter = ''outbound and udp and !loopback and udp.DstPort == 53''"

definition build_transparent_dns_tcp_request_filter :: string where
  "build_transparent_dns_tcp_request_filter = ''outbound and tcp and !loopback and tcp.DstPort == 53''"

definition build_transparent_fake_ip_quic_filter :: "ipv4_net \<Rightarrow> ipv6_net \<Rightarrow> string" where
  "build_transparent_fake_ip_quic_filter rng4 rng6 =
     ''outbound and udp and !loopback and udp.DstPort == 443 and '' @ fake_ip_destination_clause rng4 rng6"

section \<open>Configuration (config.rs)\<close>

datatype windivert_layer = WdNetwork | WdNetworkForward

record windivert_config =
  wd_local_proxy_addr :: socket_addr
  wd_tls_port :: u16
  wd_filter :: string
  wd_layer :: windivert_layer
  wd_priority :: "16 word"
  wd_queue_len :: u32
  wd_queue_time_ms :: u32
  wd_queue_size :: "64 word"
  wd_capture_loopback :: bool
  wd_sniff :: bool
  wd_fake_ipv4_range :: ipv4_net
  wd_fake_ipv6_range :: ipv6_net
  wd_local_dns_port :: u16
  wd_capture_kind :: transparent_capture_kind
  wd_fake_dns_server :: bool

record windivert_assets =
  wa_root :: string
  wa_dll_path :: string
  wa_sys_path :: string

record windows_backend_plan =
  wp_filter :: string
  wp_priority :: "16 word"
  wp_sniff_flag :: bool
  wp_queue_len :: u32
  wp_queue_time_ms :: u32
  wp_queue_size :: "64 word"
  wp_layer :: windivert_layer

datatype windivert_error =
    FilterEmpty | FilterMultiLine | ProxyUnspecified | QueueLenZero | QueueTimeZero | QueueSizeZero
  | AssetRootMissing string | AssetMissing string | DriverMissing string "string list"
  | FilterHasNul | OpenFailed

record windivert_env =
  we_path_var :: "string option"
  we_canonicalize :: "string \<Rightarrow> string option"
  we_is_file :: "string \<Rightarrow> bool"
  we_open :: "windows_backend_plan \<Rightarrow> nat option"

definition ip_is_unspecified :: "ip_addr \<Rightarrow> bool" where
  "ip_is_unspecified ip = (case ip of V4 a \<Rightarrow> a = 0 | V6 a \<Rightarrow> a = 0)"

definition validate_config :: "windivert_config \<Rightarrow> (windivert_error, unit) result" where
  "validate_config config =
     bind_r (ensure_r (trim (wd_filter config) \<noteq> []) FilterEmpty) (\<lambda>_.
     bind_r (ensure_r (\<not> contains_char (wd_filter config) (CHR 0x0A)) FilterMultiLine) (\<lambda>_.
     bind_r (ensure_r (\<not> ip_is_unspecified (sock_ip (wd_local_proxy_addr config))) ProxyUnspecified) (\<lambda>_.
     bind_r (ensure_r (wd_queue_len config > 0) QueueLenZero) (\<lambda>_.
     bind_r (ensure_r (wd_queue_time_ms config > 0) QueueTimeZero) (\<lambda>_.
     ensure_r (wd_queue_size config > 0) QueueSizeZero)))))"

text \<open>\<^verbatim>\<open>Path::join\<close> on Windows with a plain file name.\<close>

definition windows_join :: "string \<Rightarrow> string \<Rightarrow> string" where
  "windows_join root file =
     (if root = [] \<or> last root = CHR 0x5C \<or> last root = CHR ''/'' then root @ file else root @ [CHR 0x5C] @ file)"

definition require_file :: "windivert_env \<Rightarrow> string \<Rightarrow> string \<Rightarrow> (windivert_error, string) result" where
  "require_file E root file_name =
     (let candidate = windows_join root file_name
      in bind_r (ensure_r (we_is_file E candidate) (AssetMissing candidate)) (\<lambda>_. Ok candidate))"

definition require_first_existing :: "windivert_env \<Rightarrow> string \<Rightarrow> string list \<Rightarrow> (windivert_error, string) result" where
  "require_first_existing E root file_names =
     ok_or (DriverMissing root file_names) (find (we_is_file E) (map (windows_join root) file_names))"

definition discover_assets :: "windivert_env \<Rightarrow> (windivert_error, windivert_assets) result" where
  "discover_assets E =
     (let root = unwrap_or ''.'' (we_path_var E)
      in bind_r (ok_or (AssetRootMissing root) (we_canonicalize E root)) (\<lambda>root.
         bind_r (require_file E root ''WinDivert.dll'') (\<lambda>dll_path.
         bind_r (require_first_existing E root [''WinDivert64.sys'', ''WinDivert32.sys'']) (\<lambda>sys_path.
         Ok \<lparr>wa_root = root, wa_dll_path = dll_path, wa_sys_path = sys_path\<rparr>))))"

definition plan_from_config :: "windivert_config \<Rightarrow> windows_backend_plan" where
  "plan_from_config config =
     \<lparr>wp_filter = wd_filter config, wp_priority = wd_priority config, wp_sniff_flag = wd_sniff config,
      wp_queue_len = wd_queue_len config, wp_queue_time_ms = wd_queue_time_ms config, wp_queue_size = wd_queue_size config,
      wp_layer = wd_layer config\<rparr>"

datatype windivert_param = QueueLength | QueueTime | QueueSize

definition param_updates :: "windows_backend_plan \<Rightarrow> (windivert_param \<times> 64 word) list" where
  "param_updates plan =
     [(QueueLength, ucast (wp_queue_len plan)), (QueueTime, ucast (wp_queue_time_ms plan)), (QueueSize, wp_queue_size plan)]"

record windivert_runtime =
  wr_config :: windivert_config
  wr_assets :: windivert_assets
  wr_plan :: windows_backend_plan

definition windivert_runtime_new :: "windivert_env \<Rightarrow> windivert_config \<Rightarrow> (windivert_error, windivert_runtime) result" where
  "windivert_runtime_new E config =
     bind_r (validate_config config) (\<lambda>_.
     bind_r (discover_assets E) (\<lambda>assets.
     Ok \<lparr>wr_config = config, wr_assets = assets, wr_plan = plan_from_config config\<rparr>))"

section \<open>Startup (runtime/startup.rs)\<close>

record transparent_runtime_context =
  xc_local_proxy_addr :: socket_addr
  xc_tls_port :: u16
  xc_local_dns_port :: u16
  xc_fake_ipv4_range :: ipv4_net
  xc_fake_ipv6_range :: ipv6_net
  xc_layer :: windivert_layer

text \<open>The remaining fields are those of \<^verbatim>\<open>WinDivertConfig::default()\<close>.\<close>

definition build_runtime_config ::
  "transparent_runtime_context \<Rightarrow> string \<Rightarrow> transparent_capture_kind \<Rightarrow> windivert_config" where
  "build_runtime_config c filter_text capture_kind =
     \<lparr>wd_local_proxy_addr = xc_local_proxy_addr c, wd_tls_port = xc_tls_port c, wd_filter = filter_text, wd_layer = xc_layer c,
      wd_priority = 0, wd_queue_len = 4096, wd_queue_time_ms = 2000, wd_queue_size = 4 * 1024 * 1024, wd_capture_loopback = False,
      wd_sniff = False, wd_fake_ipv4_range = xc_fake_ipv4_range c, wd_fake_ipv6_range = xc_fake_ipv6_range c,
      wd_local_dns_port = xc_local_dns_port c, wd_capture_kind = capture_kind, wd_fake_dns_server = True\<rparr>"

record running_runtime =
  rr_handle :: nat
  rr_shutting_down :: bool
  rr_kind :: transparent_capture_kind

text \<open>What runs in the process: the clean-up task of the NAT tables and the capture loops.\<close>

record windivert_world =
  ww_nat_cleanup :: bool
  ww_runtimes :: "running_runtime list"

definition map_windivert_layer :: "windivert_layer_config \<Rightarrow> windivert_layer" where
  "map_windivert_layer layer = (case layer of NetworkLayer \<Rightarrow> WdNetwork | NetworkForwardLayer \<Rightarrow> WdNetworkForward)"

definition open_raw_handle :: "windivert_env \<Rightarrow> windows_backend_plan \<Rightarrow> (windivert_error, nat) result" where
  "open_raw_handle E plan =
     bind_r (ensure_r (\<not> contains_char (wp_filter plan) (CHR 0x00)) FilterHasNul) (\<lambda>_. ok_or OpenFailed (we_open E plan))"

definition runtime_start ::
  "windivert_env \<Rightarrow> windivert_runtime \<Rightarrow> windivert_world \<Rightarrow> (windivert_error, running_runtime) result \<times> windivert_world" where
  "runtime_start E r w =
     (case open_raw_handle E (wr_plan r) of
        Inl e \<Rightarrow> (Err e, w)
      | Inr handle \<Rightarrow>
          (let running = \<lparr>rr_handle = handle, rr_shutting_down = False, rr_kind = wd_capture_kind (wr_config r)\<rparr>
           in (Ok running, w\<lparr>ww_runtimes := ww_runtimes w @ [running]\<rparr>)))"

definition start_transparent_runtime ::
  "windivert_env \<Rightarrow> windivert_config \<Rightarrow> windivert_world \<Rightarrow> (windivert_error, running_runtime) result \<times> windivert_world" where
  "start_transparent_runtime E config w =
     (case windivert_runtime_new E config of Inl e \<Rightarrow> (Err e, w) | Inr r \<Rightarrow> runtime_start E r w)"

text \<open>The elements of the \<^verbatim>\<open>vec!\<close> in order, each with its question mark.\<close>

fun start_runtimes ::
  "windivert_env \<Rightarrow> windivert_config list \<Rightarrow> windivert_world \<Rightarrow> (windivert_error, running_runtime list) result \<times> windivert_world" where
  "start_runtimes E [] w = (Ok [], w)"
| "start_runtimes E (config # configs) w =
     (case start_transparent_runtime E config w of
        (Inl e, w) \<Rightarrow> (Err e, w)
      | (Inr r, w) \<Rightarrow> (case start_runtimes E configs w of (rs, w) \<Rightarrow> (bind_r rs (\<lambda>rs. Ok (r # rs)), w)))"

definition transparent_configs :: "transparent_runtime_context \<Rightarrow> u16 \<Rightarrow> windivert_config list" where
  "transparent_configs c proxy_port =
     [build_runtime_config c build_transparent_dns_query_filter DnsResponder,
      build_runtime_config c build_transparent_dns_tcp_request_filter TcpDnsRedirect,
      build_runtime_config c (build_transparent_fake_ip_tcp_request_filter proxy_port (xc_tls_port c)
        (xc_fake_ipv4_range c) (xc_fake_ipv6_range c)) TcpRequestRedirect,
      build_runtime_config c (build_transparent_fake_ip_quic_filter (xc_fake_ipv4_range c) (xc_fake_ipv6_range c)) UdpQuicDrop,
      build_runtime_config c (build_transparent_tcp_proxy_response_filter proxy_port (xc_tls_port c) (xc_local_dns_port c)) TcpProxyResponse]"

definition run_transparent_windivert_runtimes ::
  "windivert_env \<Rightarrow> transparent_intercept_runtime_config \<Rightarrow> windivert_backend_options \<Rightarrow> u16 \<Rightarrow> socket_addr \<Rightarrow> windivert_world \<Rightarrow>
     (windivert_error, running_runtime list) result \<times> windivert_world" where
  "run_transparent_windivert_runtimes E runtime_config backend listen_port proxy_redirect_addr w =
     (let proxy_port = sock_port proxy_redirect_addr;
          c = \<lparr>xc_local_proxy_addr = proxy_redirect_addr,
               xc_tls_port = unwrap_or (proxy_port + 1) (irc_tls_port runtime_config), xc_local_dns_port = listen_port,
               xc_fake_ipv4_range = irc_fake_ipv4_range runtime_config, xc_fake_ipv6_range = irc_fake_ipv6_range runtime_config,
               xc_layer = map_windivert_layer (wbo_layer backend)\<rparr>
      in start_runtimes E (transparent_configs c proxy_port) (w\<lparr>ww_nat_cleanup := True\<rparr>))"

text \<open>The shutdown of a handle: its loops are told to stop, joined, and then the clean-up task ends.\<close>

definition windivert_shutdown :: "running_runtime list \<Rightarrow> windivert_world \<Rightarrow> windivert_world" where
  "windivert_shutdown runtimes w =
     w\<lparr>ww_runtimes := filter (\<lambda>r. r \<notin> set runtimes) (ww_runtimes w), ww_nat_cleanup := False\<rparr>"

section \<open>The backend (traffic/mod.rs)\<close>

datatype intercept_handle = TunHandle smoltcp_handle | WinDivertHandle "running_runtime list"

datatype intercept_error = TunError tun_error | WinDivertError windivert_error

definition run_transparent_intercept_backend ::
  "tun_env \<Rightarrow> windivert_env \<Rightarrow> socket_addr \<Rightarrow> u16 option \<Rightarrow> backend_options \<Rightarrow> windivert_world \<Rightarrow>
     (intercept_error, intercept_handle) result \<times> windivert_world" where
  "run_transparent_intercept_backend N E listen_addr tls_port backend w =
     (let runtime_config = \<lparr>irc_tls_port = tls_port, irc_fake_ipv4_range = fdo_fake_ipv4_range (bo_dns backend),
                            irc_fake_ipv6_range = fdo_fake_ipv6_range (bo_dns backend)\<rparr>
      in case bo_kind backend of
           TunKind \<Rightarrow>
             (case run_transparent_tun_runtimes N runtime_config (bo_tun backend) listen_addr of
                Inl e \<Rightarrow> (Err (TunError e), w)
              | Inr handle \<Rightarrow> (Ok (TunHandle handle), w))
         | WinDivertKind \<Rightarrow>
             if tn_os N = Windows
             then (case run_transparent_windivert_runtimes E runtime_config (bo_windivert backend)
                          (sock_port (fdo_listen_addr (bo_dns backend))) listen_addr w of
                     (Inl e, w) \<Rightarrow> (Err (WinDivertError e), w)
                   | (Inr runtimes, w) \<Rightarrow> (Ok (WinDivertHandle runtimes), w))
             else (Err (TunError WinDivertUnsupported), w))"

section \<open>Filters are valid\<close>

text \<open>The text of a filter: visible characters and blanks.\<close>

abbreviation printable :: "string \<Rightarrow> bool" where
  "printable s \<equiv> list_all (\<lambda>c. ascii_graphic c \<or> c = CHR '' '') s"

lemma printable_graphic: "list_all ascii_graphic s \<Longrightarrow> printable s"
  by (simp add: list_all_iff)

lemma hexadecimal_graphic: "list_all ascii_graphic (hexadecimal n)"
proof (induction n rule: hexadecimal.induct)
  case (1 n)
  have "ascii_graphic (hex_digit k)" if "k < 16" for k :: nat using that by (simp add: ascii_graphic_def hex_digit_def)
  then show ?case using 1 by (subst hexadecimal.simps) auto
qed

lemma join_with_graphic: "list_all (list_all ascii_graphic) ws \<Longrightarrow> ascii_graphic c \<Longrightarrow> list_all ascii_graphic (join_with c ws)"
  by (induction c ws rule: join_with.induct) auto

lemma show_graphic: "list_all ascii_graphic (show_ipv4 a)" "list_all ascii_graphic (show_ipv6 b)"
proof -
  have dot: "ascii_graphic CHR ''.''" "ascii_graphic CHR '':''" by (simp_all add: ascii_graphic_def)
  show v4: "list_all ascii_graphic (show_ipv4 a)" for a
    unfolding show_ipv4_def by (rule join_with_graphic [OF _ dot(1)]) (simp add: list_all_iff decimal_graphic [unfolded list_all_iff])
  have f: "list_all ascii_graphic (join_with CHR '':'' (map hexadecimal gs))" for gs
    by (rule join_with_graphic [OF _ dot(2)]) (simp add: list_all_iff hexadecimal_graphic [unfolded list_all_iff])
  show "list_all ascii_graphic (show_ipv6 b)"
    by (simp add: show_ipv6_def Let_def f v4 split: prod.split) (simp add: ascii_graphic_def)
qed

lemma clause_printable: "printable (fake_ip_destination_clause rng4 rng6)"
  unfolding fake_ip_destination_clause_def list_all_append
  using printable_graphic [OF show_graphic(1)] printable_graphic [OF show_graphic(2)]
  by (simp add: ascii_graphic_def)

lemma port_printable: "printable (show_port p)"
  unfolding show_port_def by (rule printable_graphic [OF decimal_graphic])

lemma configs_valid:
  assumes "config \<in> set (transparent_configs c proxy_port)"
  shows "printable (wd_filter config)" "\<exists>s. wd_filter config = CHR ''o'' # s"
    and "wd_local_proxy_addr config = xc_local_proxy_addr c"
    and "0 < wd_queue_len config \<and> 0 < wd_queue_time_ms config \<and> 0 < wd_queue_size config"
proof -
  show "printable (wd_filter config)"
    using assms clause_printable port_printable
    by (auto simp: transparent_configs_def build_runtime_config_def build_transparent_dns_query_filter_def ascii_graphic_def
        build_transparent_dns_tcp_request_filter_def build_transparent_fake_ip_tcp_request_filter_def
        build_transparent_fake_ip_quic_filter_def build_transparent_tcp_proxy_response_filter_def)
qed (use assms in \<open>auto simp: transparent_configs_def build_runtime_config_def build_transparent_dns_query_filter_def
        build_transparent_dns_tcp_request_filter_def build_transparent_fake_ip_tcp_request_filter_def
        build_transparent_fake_ip_quic_filter_def build_transparent_tcp_proxy_response_filter_def\<close>)

lemma printable_no_control: "printable s \<Longrightarrow> \<not> contains_char s (CHR 0x0A) \<and> \<not> contains_char s (CHR 0x00)"
  by (auto simp: contains_char_def list_all_iff ascii_graphic_def)

lemma transparent_config_accepted:
  assumes "config \<in> set (transparent_configs c proxy_port)" "\<not> ip_is_unspecified (sock_ip (xc_local_proxy_addr c))"
  shows "validate_config config = Ok ()" "\<not> contains_char (wd_filter config) (CHR 0x00)"
proof -
  note v = configs_valid [OF assms(1)]
  obtain f where f: "wd_filter config = CHR ''o'' # f" using v(2) by blast
  have "trim (wd_filter config) \<noteq> []" unfolding f by (rule trim_nonempty) (simp add: ascii_graphic_def)
  then show "validate_config config = Ok ()" "\<not> contains_char (wd_filter config) (CHR 0x00)"
    using v(3,4) assms(2) printable_no_control [OF v(1)] by (simp_all add: validate_config_def)
qed

lemma start_runtimes_ok:
  assumes "\<forall>config \<in> set configs. validate_config config = Ok () \<and> \<not> contains_char (wd_filter config) (CHR 0x00)"
    and "discover_assets E = Ok assets" "\<forall>plan. \<exists>h. we_open E plan = Some h"
  shows "\<exists>rs. start_runtimes E configs w = (Ok rs, w\<lparr>ww_runtimes := ww_runtimes w @ rs\<rparr>)
    \<and> map rr_kind rs = map wd_capture_kind configs \<and> list_all (\<lambda>r. \<not> rr_shutting_down r) rs"
  using assms(1)
proof (induction configs arbitrary: w)
  case (Cons config configs)
  obtain h where "we_open E (plan_from_config config) = Some h" using assms(3) by blast
  then have "start_transparent_runtime E config w =
      (Ok \<lparr>rr_handle = h, rr_shutting_down = False, rr_kind = wd_capture_kind config\<rparr>,
       w\<lparr>ww_runtimes := ww_runtimes w @ [\<lparr>rr_handle = h, rr_shutting_down = False, rr_kind = wd_capture_kind config\<rparr>]\<rparr>)"
    using Cons.prems assms(2)
    by (simp add: start_transparent_runtime_def windivert_runtime_new_def runtime_start_def open_raw_handle_def Let_def)
       (simp add: plan_from_config_def Let_def)
  then show ?case using Cons.IH [of "w\<lparr>ww_runtimes := ww_runtimes w @ [\<lparr>rr_handle = h, rr_shutting_down = False, rr_kind = wd_capture_kind config\<rparr>]\<rparr>"]
    Cons.prems by auto
qed simp

lemma start_runtimes_prefix:
  "start_runtimes E configs w = (r, w') \<Longrightarrow> \<exists>rs. w' = w\<lparr>ww_runtimes := ww_runtimes w @ rs\<rparr>
     \<and> map rr_kind rs = map wd_capture_kind (take (length rs) configs) \<and> length rs \<le> length configs
     \<and> (case r of Inr rs' \<Rightarrow> rs' = rs \<and> length rs = length configs | Inl e \<Rightarrow> length rs < length configs)"
proof (induction configs arbitrary: w r)
  case (Cons config configs)
  show ?case
  proof (cases "fst (start_transparent_runtime E config w)")
    case (Inl e)
    then have "r = Err e \<and> w' = w" using Cons.prems
      by (auto simp: start_transparent_runtime_def runtime_start_def Let_def split: sum.splits prod.splits)
    then show ?thesis by (intro exI [of _ "[]"]) simp
  next
    case (Inr x)
    then have x: "start_transparent_runtime E config w = (Ok x, w\<lparr>ww_runtimes := ww_runtimes w @ [x]\<rparr>)" "rr_kind x = wd_capture_kind config"
      by (auto simp: start_transparent_runtime_def runtime_start_def windivert_runtime_new_def Let_def result_simps split: sum.splits prod.splits)
    obtain r2 where "start_runtimes E configs (w\<lparr>ww_runtimes := ww_runtimes w @ [x]\<rparr>) = (r2, w')" and r: "r = bind_r r2 (\<lambda>rs. Ok (x # rs))"
      using Cons.prems x by (auto split: prod.splits)
    from Cons.IH [OF this(1)] obtain rs where "w' = w\<lparr>ww_runtimes := ww_runtimes w @ x # rs\<rparr>"
      "map rr_kind rs = map wd_capture_kind (take (length rs) configs)" "length rs \<le> length configs"
      "case r2 of Inr rs' \<Rightarrow> rs' = rs \<and> length rs = length configs | Inl e \<Rightarrow> length rs < length configs" by auto
    then show ?thesis using x(2) r by (intro exI [of _ "x # rs"]) (auto split: sum.splits)
  qed
qed simp

section \<open>Properties\<close>

text \<open>An address that resolves to a name is in the pool of its family.\<close>

lemma resolved_in_pool:
  assumes "reachable rng4 rng6 s" "fst (resolve_domain s ip now) = Some d"
  shows "case ip of V4 a \<Rightarrow> in_pool4 rng4 a | V6 a \<Rightarrow> in_pool6 rng6 a"
proof -
  let ?pr = "prune_expired_entries (mx_value s) now"
  have "fake_ip_inv ?pr" using prune_inv [OF reachable_inv [OF assms(1)]] .
  moreover have "fi_fake_ipv4_range ?pr = rng4" "fi_fake_ipv6_range ?pr = rng6"
    using reachable_frame [OF assms(1)] by (simp_all add: prune_ranges)
  moreover have "case ip of V4 a \<Rightarrow> \<exists>d. map_of (fi_ip_to_domain_v4 ?pr) a = Some d | V6 a \<Rightarrow> \<exists>d. map_of (fi_ip_to_domain_v6 ?pr) a = Some d"
    using assms(2) by (auto simp: resolve_domain_def Let_def split: if_splits ip_addr.splits Option.bind_splits)
  ultimately show ?thesis by (auto simp: fake_ip_inv_def split: ip_addr.splits)
qed

lemma saturating_add_mono: "unat y \<le> unat z \<Longrightarrow> saturating_add x y \<le> saturating_add x z" for x y z :: "'a::len word"
  by (simp add: word_le_nat_alt unat_saturating_add)

text \<open>
  C38. Both backends see the fake addresses. An address that the DNS server handed out and that still resolves
  to its name lies between the bounds that the WinDivert filters print for its family, and it is neither the address of the TUN device nor the
  reserved DNS address of the tunnel, so that traffic to it is captured and not taken for DNS.
\<close>

theorem fake_addresses_captured:
  assumes "reachable rng4 rng6 s" "fst (resolve_domain s ip now) = Some d" "unat (net6_network rng6) + 3 < 2 ^ 128"
  shows "(case ip of
      V4 a \<Rightarrow> filter_first_usable_ipv4 rng4 \<le> a \<and> a \<le> filter_last_usable_ipv4 rng4
        \<and> tdp_first_fake_v4 (tun_dns_plan_new rng4 rng6) \<le> a
        \<and> a \<notin> {tdp_tun_addr_v4 (tun_dns_plan_new rng4 rng6), tdp_dns_addr_v4 (tun_dns_plan_new rng4 rng6)}
    | V6 a \<Rightarrow> filter_first_usable_ipv6 rng6 \<le> a \<and> a \<le> filter_last_usable_ipv6 rng6
        \<and> tdp_first_fake_v6 (tun_dns_plan_new rng4 rng6) \<le> a
        \<and> a \<notin> {tdp_tun_addr_v6 (tun_dns_plan_new rng4 rng6), tdp_dns_addr_v6 (tun_dns_plan_new rng4 rng6)})
    \<and> \<not> matches_reserved_dns_target (tun_dns_plan_new rng4 rng6) \<lparr>sock_ip = ip, sock_port = port, sock_scope_id = scope\<rparr>"
proof (cases ip)
  case (V4 a)
  then have "in_pool4 rng4 a" using resolved_in_pool [OF assms(1,2)] by simp
  note b = in_pool4_bounds [OF this]
  have "unat (net4_network rng4) + 3 < 2 ^ 32" using b(1) unsigned_less [of a, where ?'a = nat] by simp
  then have "unat (saturating_add (net4_network rng4) k) = unat (net4_network rng4) + unat k" if "unat k \<le> 3" for k
    using that by (simp add: unat_saturating_add)
  from this [of 1] this [of 2] this [of 3] have
    "unat (saturating_add (net4_network rng4) 1) = unat (net4_network rng4) + 1"
    "unat (saturating_add (net4_network rng4) 2) = unat (net4_network rng4) + 2"
    "unat (saturating_add (net4_network rng4) 3) = unat (net4_network rng4) + 3" by simp_all
  moreover have "unat (saturating_sub (net4_broadcast rng4) 1) = unat (net4_broadcast rng4) - 1"
    using b(2) by (auto simp: saturating_sub_def unat_sub word_le_nat_alt)
  ultimately show ?thesis
    using b V4 by (auto simp: word_le_nat_alt filter_first_usable_ipv4_def filter_last_usable_ipv4_def tun_dns_plan_new_def Let_def
        matches_reserved_dns_target_def)
next
  case (V6 a)
  then have p: "in_pool6 rng6 a" using resolved_in_pool [OF assms(1,2)] by simp
  have n: "unat (saturating_add (net6_network rng6) k) = unat (net6_network rng6) + unat k" if "unat k \<le> 3" for k
    using that assms(3) by (simp add: unat_saturating_add)
  from n [of 1] n [of 2] n [of 3] have n: "unat (saturating_add (net6_network rng6) 1) = unat (net6_network rng6) + 1"
    "unat (saturating_add (net6_network rng6) 2) = unat (net6_network rng6) + 2"
    "unat (saturating_add (net6_network rng6) 3) = unat (net6_network rng6) + 3" by simp_all
  have "unat (first_allocatable_ipv6 rng6) = unat (net6_network rng6) + 3"
    using n(1) assms(3) by (simp add: first_allocatable_ipv6_def first_usable_ipv6_def unat_saturating_add [of "saturating_add _ _"])
  then have "unat (net6_network rng6) + 3 \<le> unat a" "a \<le> filter_last_usable_ipv6 rng6"
    using p by (auto simp: in_pool6_def word_le_nat_alt last_usable_ipv6_def filter_last_usable_ipv6_def ipv6_host_mask_def Let_def
        split: if_splits)
  then show ?thesis
    using n V6 by (auto simp: word_le_nat_alt filter_first_usable_ipv6_def tun_dns_plan_new_def Let_def matches_reserved_dns_target_def)
qed

theorem fake_addresses_captured_witness:
  "fst (resolve_domain (run_op (AllocV4 ''A.io.'' 60 5) sample_store) (V4 0xC6120003) 64) = Some ''a.io''
    \<and> filter_first_usable_ipv4 sample_net4 \<le> 0xC6120003 \<and> 0xC6120003 \<le> filter_last_usable_ipv4 sample_net4"
proof -
  have np: "\<not> mx_poisoned sample_store" "fake_ip_inv (mx_value sample_store)"
    using reachable_frame [OF sample_store_reachable] reachable_inv [OF sample_store_reachable] by auto
  note l = lease_of_alloc [OF np sample_alloc]
  have n: "normalize_domain ''A.io.'' = ''a.io''" by code_simp
  have r: "fst (resolve_domain (run_op (AllocV4 ''A.io.'' 60 5) sample_store) (V4 0xC6120003) 64) = Some ''a.io''"
    using lease_resolves [OF l(2,3,1), of 64] n by simp
  have "reachable sample_net4 sample_net6 (run_op (AllocV4 ''A.io.'' 60 5) sample_store)"
    by (rule reachable.step [OF sample_store_reachable])
  from fake_addresses_captured [OF this r] r show ?thesis by (simp add: sample_net6_def)
qed

text \<open>
  The WinDivert backend starts. With the driver files in place and a driver that opens every handle, and a proxy
  address that is not the unspecified one, the filters pass validation whatever the ports and ranges, and the five capture loops run,
  in their order, beside those that ran before.
\<close>

theorem windivert_starts:
  assumes "\<not> ip_is_unspecified (sock_ip proxy)" "discover_assets E = Ok assets" "\<forall>plan. \<exists>h. we_open E plan = Some h"
  shows "\<exists>rs. run_transparent_windivert_runtimes E runtime_config backend listen_port proxy w =
      (Ok rs, w\<lparr>ww_nat_cleanup := True, ww_runtimes := ww_runtimes w @ rs\<rparr>)
    \<and> map rr_kind rs = [DnsResponder, TcpDnsRedirect, TcpRequestRedirect, UdpQuicDrop, TcpProxyResponse]
    \<and> list_all (\<lambda>r. \<not> rr_shutting_down r) rs"
proof -
  let ?c = "\<lparr>xc_local_proxy_addr = proxy, xc_tls_port = unwrap_or (sock_port proxy + 1) (irc_tls_port runtime_config),
    xc_local_dns_port = listen_port, xc_fake_ipv4_range = irc_fake_ipv4_range runtime_config,
    xc_fake_ipv6_range = irc_fake_ipv6_range runtime_config, xc_layer = map_windivert_layer (wbo_layer backend)\<rparr>"
  have valid: "\<forall>config \<in> set (transparent_configs ?c (sock_port proxy)).
      validate_config config = Ok () \<and> \<not> contains_char (wd_filter config) (CHR 0x00)"
    using transparent_config_accepted [of _ ?c "sock_port proxy"] assms(1) by auto
  have kinds: "map wd_capture_kind (transparent_configs ?c (sock_port proxy)) =
      [DnsResponder, TcpDnsRedirect, TcpRequestRedirect, UdpQuicDrop, TcpProxyResponse]"
    by (simp add: transparent_configs_def build_runtime_config_def)
  from start_runtimes_ok [OF valid assms(2,3), of "w\<lparr>ww_nat_cleanup := True\<rparr>"] show ?thesis
    unfolding kinds by (auto simp: run_transparent_windivert_runtimes_def Let_def)
qed

definition sample_windivert :: windivert_env where
  "sample_windivert = \<lparr>we_path_var = None, we_canonicalize = Some, we_is_file = \<lambda>_. True, we_open = \<lambda>_. Some 1\<rparr>"

theorem windivert_starts_witness:
  "\<exists>rs w. run_transparent_windivert_runtimes sample_windivert
      \<lparr>irc_tls_port = None, irc_fake_ipv4_range = sample_net4, irc_fake_ipv6_range = sample_net6\<rparr> \<lparr>wbo_layer = NetworkLayer\<rparr> 5353
      \<lparr>sock_ip = V4 0x7F000001, sock_port = 8787, sock_scope_id = 0\<rparr> \<lparr>ww_nat_cleanup = False, ww_runtimes = []\<rparr> = (Ok rs, w)
    \<and> length (ww_runtimes w) = 5"
proof -
  have "\<exists>assets. discover_assets sample_windivert = Ok assets"
    by (simp add: discover_assets_def sample_windivert_def require_file_def require_first_existing_def Let_def)
  then obtain assets where a: "discover_assets sample_windivert = Ok assets" by blast
  have "\<not> ip_is_unspecified (sock_ip \<lparr>sock_ip = V4 0x7F000001, sock_port = 8787, sock_scope_id = 0\<rparr>)"
    by (simp add: ip_is_unspecified_def)
  from windivert_starts [OF this a] show ?thesis
    by (fastforce simp: sample_windivert_def dest: arg_cong [of _ _ length])
qed

text \<open>
  A start that fails part of the way leaves what it started: the loops before the failing one and the clean-up task keep
  running and nobody holds their handles.
\<close>

lemma failed_start_leaves_loops:
  assumes "run_transparent_windivert_runtimes E runtime_config backend listen_port proxy w = (Err e, w')"
  shows "\<exists>rs. w' = w\<lparr>ww_nat_cleanup := True, ww_runtimes := ww_runtimes w @ rs\<rparr> \<and> length rs < 5
    \<and> map rr_kind rs = take (length rs) [DnsResponder, TcpDnsRedirect, TcpRequestRedirect, UdpQuicDrop, TcpProxyResponse]"
proof -
  let ?c = "\<lparr>xc_local_proxy_addr = proxy, xc_tls_port = unwrap_or (sock_port proxy + 1) (irc_tls_port runtime_config),
    xc_local_dns_port = listen_port, xc_fake_ipv4_range = irc_fake_ipv4_range runtime_config,
    xc_fake_ipv6_range = irc_fake_ipv6_range runtime_config, xc_layer = map_windivert_layer (wbo_layer backend)\<rparr>"
  have kinds: "map wd_capture_kind (transparent_configs ?c (sock_port proxy)) =
      [DnsResponder, TcpDnsRedirect, TcpRequestRedirect, UdpQuicDrop, TcpProxyResponse]"
    "length (transparent_configs ?c (sock_port proxy)) = 5"
    by (simp_all add: transparent_configs_def build_runtime_config_def)
  have "start_runtimes E (transparent_configs ?c (sock_port proxy)) (w\<lparr>ww_nat_cleanup := True\<rparr>) = (Err e, w')"
    using assms by (simp add: run_transparent_windivert_runtimes_def Let_def)
  from start_runtimes_prefix [OF this] show ?thesis by (auto simp: take_map [symmetric] kinds)
qed

end
