(* ===== verification/Traffic.thy ===== *)
theory Traffic
  imports Windivert
begin

text \<open>
  The loops of the two packet backends over the life of the process: the capture loop of
  \<^verbatim>\<open>src/src/traffic/windivert/runtime/capture.rs\<close>, and the accept loop, the UDP loop and the device of
  \<^verbatim>\<open>src/src/traffic/tun/smoltcp.rs\<close>, with the default configuration of \<^verbatim>\<open>src/src/traffic/windivert/config.rs\<close>. A loop takes what the
  driver, the listener or the \<^verbatim>\<open>select!\<close> delivers as a list of events; the last of them ends it.
\<close>

section \<open>The capture loop (capture.rs)\<close>

text \<open>
  A received packet has its bytes, the direction flag of its address, the time, the clock of the DNS answer and whether sending it back
  succeeds.
\<close>

datatype capture_event =
    RecvFailed
  | Received bytes bool instant "nat \<Rightarrow> instant" bool

fun run_raw_capture_loop ::
  "packet_lib \<Rightarrow> ext_lib \<Rightarrow> dns_lib \<Rightarrow> (bytes \<Rightarrow> bytes) \<Rightarrow> capture_config \<Rightarrow> transparent_capture_kind \<Rightarrow>
     capture_event list \<Rightarrow> 'h capture_state \<Rightarrow> ((bytes \<times> bool) list \<times> 'h capture_state) option" where
  "run_raw_capture_loop K L D recalc c kind [] st = Some ([], st)"
| "run_raw_capture_loop K L D recalc c kind (RecvFailed # _) st = Some ([], st)"
| "run_raw_capture_loop K L D recalc c kind (Received data outbound now clock sent # events) st =
     Option.bind (capture_round K L D recalc c kind now clock (st\<lparr>cs_data := data, cs_outbound := outbound\<rparr>)) (\<lambda>(out, st).
     Option.bind (run_raw_capture_loop K L D recalc c kind events st) (\<lambda>(outs, st).
     Some ((case out of Some packet \<Rightarrow> if sent then [packet] else [] | None \<Rightarrow> []) @ outs, st)))"

section \<open>The default configuration (config.rs)\<close>

definition windivert_config_default :: windivert_config where
  "windivert_config_default =
     (let local_proxy_addr = \<lparr>sock_ip = V4 0x7F000001, sock_port = 8787, sock_scope_id = 0\<rparr>;
          tls_port = 8788;
          p = decimal (unat (sock_port local_proxy_addr)); t = decimal (unat tls_port);
          filter_text = ''outbound and tcp and ( (tcp.DstPort != '' @ p @ '' and tcp.DstPort != '' @ t
            @ '' and !loopback) or tcp.SrcPort == '' @ p @ '' or tcp.SrcPort == '' @ t @ '' )''
      in \<lparr>wd_local_proxy_addr = local_proxy_addr, wd_tls_port = tls_port, wd_filter = filter_text, wd_layer = WdNetwork,
          wd_priority = 0, wd_queue_len = 4096, wd_queue_time_ms = 2000, wd_queue_size = 4 * 1024 * 1024,
          wd_capture_loopback = False, wd_sniff = True,
          wd_fake_ipv4_range = \<lparr>net4_network = 0xC6120000, net4_prefix_len = 16, net4_broadcast = 0xC612FFFF\<rparr>,
          wd_fake_ipv6_range = \<lparr>net6_network = 0xFD000198001800000000000000000000, net6_prefix_len = 48\<rparr>,
          wd_local_dns_port = 15353, wd_capture_kind = Generic, wd_fake_dns_server = False\<rparr>)"

section \<open>The device (smoltcp.rs)\<close>

record tun_device_options =
  td_name :: string
  td_mtu :: u16
  td_ipv4 :: "u32 \<times> nat"
  td_ipv6 :: "u128 \<times> nat"
  td_packet_information :: "bool option"

definition build_tun_device :: "bool \<Rightarrow> tun_runtime_context \<Rightarrow> tun_device_options" where
  "build_tun_device unix context =
     \<lparr>td_name = tc_tun_name context, td_mtu = tc_tun_mtu context,
      td_ipv4 = (tdp_tun_addr_v4 (tc_dns_plan context), net4_prefix_len (tc_fake_ipv4_range context)),
      td_ipv6 = (tdp_tun_addr_v6 (tc_dns_plan context), net6_prefix_len (tc_fake_ipv6_range context)),
      td_packet_information = (if unix then Some False else None)\<rparr>"

section \<open>Connections and datagrams of the tunnel (smoltcp.rs)\<close>

text \<open>An accepted stream with the time and with which of the tasks have finished by then.\<close>

datatype accept_event =
    AcceptShutdown
  | ListenerEnded
  | AcceptedStream instant "bridge_task \<Rightarrow> bool" socket_addr socket_addr

fun run_tcp_accept_loop ::
  "tun_runtime_context \<Rightarrow> accept_event list \<Rightarrow> bridge_task list mutex \<times> 'h fake_dns_state \<Rightarrow>
     bridge_task list mutex \<times> 'h fake_dns_state" where
  "run_tcp_accept_loop context [] s = s"
| "run_tcp_accept_loop context (AcceptShutdown # _) s = s"
| "run_tcp_accept_loop context (ListenerEnded # _) s = s"
| "run_tcp_accept_loop context (AcceptedStream now finished client_addr target_addr # events) s =
     run_tcp_accept_loop context events (tcp_accept context now finished client_addr target_addr s)"

datatype bridge_error = BridgeConnectFailed socket_addr | BridgeRelayFailed socket_addr socket_addr socket_addr

text \<open>The task of a bridge: whether the local listener accepts, and whether the relay ends without an error.\<close>

definition bridge_tcp_stream ::
  "(socket_addr \<Rightarrow> bool) \<Rightarrow> bool \<Rightarrow> socket_addr \<Rightarrow> socket_addr \<Rightarrow> socket_addr \<Rightarrow> (bridge_error, unit) result" where
  "bridge_tcp_stream connect copy_bidirectional client_addr target_addr local_target =
     bind_r (ensure_r (connect local_target) (BridgeConnectFailed local_target)) (\<lambda>_.
     ensure_r copy_bidirectional (BridgeRelayFailed client_addr target_addr local_target))"

text \<open>A datagram with its source and its target, the clock and whether a response can be sent.\<close>

datatype udp_event =
    UdpShutdown
  | UdpEnded
  | UdpReceived bytes socket_addr socket_addr "nat \<Rightarrow> instant" bool

fun run_udp_loop ::
  "tun_runtime_context \<Rightarrow> dns_lib \<Rightarrow> udp_event list \<Rightarrow> 'h fake_dns_state \<Rightarrow>
     (bytes \<times> socket_addr \<times> socket_addr) list \<times> 'h fake_dns_state" where
  "run_udp_loop context D [] st = ([], st)"
| "run_udp_loop context D (UdpShutdown # _) st = ([], st)"
| "run_udp_loop context D (UdpEnded # _) st = ([], st)"
| "run_udp_loop context D (UdpReceived payload client_addr target_addr clock sent # events) st =
     (case udp_message context D clock payload client_addr target_addr st of
        (outcome, st) \<Rightarrow>
          (case run_udp_loop context D events st of
             (replies, st) \<Rightarrow>
               ((case outcome of
                   UdpReply response from_addr to_addr \<Rightarrow> if sent then [(response, from_addr, to_addr)] else []
                 | _ \<Rightarrow> []) @ replies, st)))"

section \<open>Facts\<close>

fun sendable :: "capture_event \<Rightarrow> bool" where
  "sendable RecvFailed = False"
| "sendable (Received data outbound now clock sent) = sent"

lemma accept_loop_poison [simp]: "mx_poisoned (fst (run_tcp_accept_loop context events s)) = mx_poisoned (fst s)"
proof (induction events arbitrary: s)
  case (Cons e events)
  then show ?case by (cases e) (auto simp: tcp_accept_def prune_bridge_tasks_def Let_def split: prod.splits)
qed simp

lemma accept_loop_keeps:
  assumes "task \<in> set (mx_value (fst s))"
    and "\<forall>now finished client target. AcceptedStream now finished client target \<in> set events \<longrightarrow> \<not> finished task"
  shows "task \<in> set (mx_value (fst (run_tcp_accept_loop context events s)))"
  using assms
proof (induction events arbitrary: s)
  case (Cons e events)
  show ?case
  proof (cases e)
    case (AcceptedStream now finished client target)
    then have "\<not> finished task" using Cons.prems(2) by auto
    then have "task \<in> set (mx_value (fst (tcp_accept context now finished client target s)))"
      using Cons.prems(1) by (auto simp: tcp_accept_def prune_bridge_tasks_def Let_def split: prod.splits)
    then have "task \<in> set (mx_value (fst (run_tcp_accept_loop context events (tcp_accept context now finished client target s))))"
      by (rule Cons.IH) (use Cons.prems(2) in auto)
    then show ?thesis by (simp add: AcceptedStream)
  qed (use Cons.prems in simp_all)
qed simp

lemma accept_registers:
  assumes "\<not> mx_poisoned (fst s)"
  shows "fst (dispatch_tcp context now client target (snd s)) \<in> set (mx_value (fst (tcp_accept context now finished client target s)))"
  using assms by (auto simp: tcp_accept_def prune_bridge_tasks_def Let_def split: prod.splits)

lemma accept_loop_append:
  assumes "\<forall>e \<in> set pre. \<exists>now finished client target. e = AcceptedStream now finished client target"
  shows "run_tcp_accept_loop context (pre @ post) s = run_tcp_accept_loop context post (run_tcp_accept_loop context pre s)"
  using assms
proof (induction pre arbitrary: s)
  case (Cons e pre)
  then obtain now finished client target where "e = AcceptedStream now finished client target" by auto
  with Cons show ?case by simp
qed simp

lemma shutdown_drains_registry:
  "map fst (sr_drained (smoltcp_shutdown P drain now h)) = mx_value (sh_bridge_tasks h)"
proof -
  obtain os t where d: "drain_handles (now + BRIDGE_TASK_DRAIN_TIMEOUT) now (map drain (mx_value (sh_bridge_tasks h))) = (os, t)"
    by fastforce
  with drain_bound [OF d] show ?thesis by (auto simp: smoltcp_shutdown_def Let_def)
qed

lemma in_pool6_bounds:
  assumes "in_pool6 rng a" "unat (net6_network rng) + 3 < 2 ^ 128"
  shows "unat (net6_network rng) + 3 \<le> unat a"
  using assms
  by (auto simp: in_pool6_def first_allocatable_ipv6_def first_usable_ipv6_def word_le_nat_alt unat_saturating_add min_def)

text \<open>An address between the network and an address of the pool has the same prefix as the latter.\<close>

lemma pool_neighbour_prefix:
  assumes "in_pool4 rng a" "ipv4_net_ok rng" "unat (net4_network rng) \<le> unat x" "unat x \<le> unat a"
  shows "in_prefix x (net4_prefix_len rng) a"
proof -
  let ?k = "32 - net4_prefix_len rng"
  have ok: "net4_prefix_len rng \<le> 32" "take_bit ?k (net4_network rng) = 0" "net4_broadcast rng = net4_network rng + mask ?k"
    using assms(2) by (simp_all add: ipv4_net_ok_def)
  have "unat (net4_network rng + mask ?k) \<le> unat (net4_network rng) + unat (mask ?k :: u32)"
    unfolding unat_word_ariths by (rule mod_less_eq_dividend)
  then have "unat a < unat (net4_network rng) + 2 ^ ?k"
    using in_pool4_bounds(2) [OF assms(1)] unat_mask_le [where 'a = 32, of ?k] ok(3) by simp
  then have "in_prefix (net4_network rng) (net4_prefix_len rng) a" "in_prefix (net4_network rng) (net4_prefix_len rng) x"
    using word_range_in_prefix [of "net4_prefix_len rng" "net4_network rng"] in_pool4_bounds(1) [OF assms(1)] ok(1,2) assms(3,4)
    by simp_all
  then show ?thesis by (simp add: in_prefix_def)
qed

text \<open>A default runtime would be accepted: its filter is one visible line and no bound is zero.\<close>

lemma ascii_graphic_o: "ascii_graphic (CHR ''o'')"
  by (simp add: ascii_graphic_def)

lemma default_config_valid: "validate_config windivert_config_default = Ok ()"
proof -
  have g: "printable (decimal n)" for n using decimal_graphic printable_graphic by blast
  have f: "printable (wd_filter windivert_config_default)" "wd_filter windivert_config_default \<noteq> []"
    "hd (wd_filter windivert_config_default) = CHR ''o''"
    using g by (simp_all add: windivert_config_default_def Let_def ascii_graphic_def)
  then have "\<not> contains_char (wd_filter windivert_config_default) (CHR 0x0A)"
    by (auto simp: contains_char_def list_all_iff ascii_graphic_def)
  moreover have "trim (wd_filter windivert_config_default) \<noteq> []"
    using f(2,3) trim_nonempty [of "CHR ''o''" "tl (wd_filter windivert_config_default)"] by (metis ascii_graphic_o list.collapse)
  ultimately show ?thesis
    by (simp add: validate_config_def) (simp add: windivert_config_default_def ip_is_unspecified_def Let_def)
qed

section \<open>Properties\<close>



text \<open>
  C37. Every connection the tunnel accepted is drained at shutdown: the task of an accepted stream, DNS or bridge, stays in
  the registry, whatever is accepted after it, unless it has finished, and the shutdown of the backend waits for it.
\<close>

theorem accepted_streams_are_drained:
  assumes "\<forall>e \<in> set pre. \<exists>now finished client target. e = AcceptedStream now finished client target"
    and "\<not> mx_poisoned (sh_bridge_tasks h)"
    and "task = fst (dispatch_tcp context now client target (snd (run_tcp_accept_loop context pre (sh_bridge_tasks h, st))))"
    and "\<forall>now finished client target. AcceptedStream now finished client target \<in> set post \<longrightarrow> \<not> finished task"
    and "tasks = fst (run_tcp_accept_loop context (pre @ AcceptedStream now finished client target # post) (sh_bridge_tasks h, st))"
  shows "task \<in> fst ` set (sr_drained (smoltcp_shutdown P drain stop_time (h\<lparr>sh_bridge_tasks := tasks\<rparr>)))"
proof -
  let ?s = "run_tcp_accept_loop context pre (sh_bridge_tasks h, st)"
  have "task \<in> set (mx_value (fst (tcp_accept context now finished client target ?s)))"
    using accept_registers [of ?s "context" now client target finished] assms(2,3) by simp
  from accept_loop_keeps [OF this assms(4), of "context"] have "task \<in> set (mx_value tasks)"
    by (simp add: assms(5) accept_loop_append [OF assms(1)])
  moreover have "map fst (sr_drained (smoltcp_shutdown P drain stop_time (h\<lparr>sh_bridge_tasks := tasks\<rparr>))) = mx_value tasks"
    by (simp add: shutdown_drains_registry)
  ultimately show ?thesis by (metis image_set)
qed

theorem accepted_streams_are_drained_witness:
  "\<exists>domain. BridgeTask sample_client \<lparr>sock_ip = V4 0x01020304, sock_port = 80, sock_scope_id = 0\<rparr>
        (tc_proxy_redirect_addr sample_tun_context) domain
     \<in> fst ` set (sr_drained (smoltcp_shutdown
        \<lparr>pl_run = \<lambda>_ _. None, pl_device_name = None, pl_device_if_index = None, pl_set_dns_servers = \<lambda>_. False,
         pl_clear_dns_servers = \<lambda>_. False\<rparr> (\<lambda>_. (None, 3)) 10
        \<lparr>sh_core_tasks = [], sh_bridge_tasks = fst (run_tcp_accept_loop sample_tun_context
             [AcceptedStream 7 (\<lambda>_. False) sample_client \<lparr>sock_ip = V4 0x01020304, sock_port = 80, sock_scope_id = 0\<rparr>, AcceptShutdown]
             (mutex_new [], sample_dns_state)),
         sh_platform_dns_guard = NoopGuard\<rparr>))"
proof -
  let ?t = "\<lparr>sock_ip = V4 0x01020304, sock_port = 80, sock_scope_id = 0\<rparr>"
  let ?h = "\<lparr>sh_core_tasks = [], sh_bridge_tasks = mutex_new [], sh_platform_dns_guard = NoopGuard\<rparr>"
  let ?P = "\<lparr>pl_run = \<lambda>_ _. None, pl_device_name = None, pl_device_if_index = None, pl_set_dns_servers = \<lambda>_. False,
         pl_clear_dns_servers = \<lambda>_. False\<rparr>"
  have "\<not> should_hijack_dns sample_tun_context TunTcp ?t"
    by (simp add: should_hijack_dns_def sample_tun_context_def tun_runtime_context_new_def plan_should_hijack_dns_def
        matches_reserved_dns_target_def spec_matches_dns_target_def)
  then have d: "fst (dispatch_tcp sample_tun_context 7 sample_client ?t sample_dns_state) =
      BridgeTask sample_client ?t (tc_proxy_redirect_addr sample_tun_context) (fst (resolve_fake_domain sample_dns_state (sock_ip ?t) 7))"
    by (simp add: dispatch_tcp_def select_tcp_dispatch_target_def case_prod_beta)
  have np: "\<not> mx_poisoned (sh_bridge_tasks ?h)" by (simp add: mutex_new_def)
  show ?thesis
    using accepted_streams_are_drained [of "[]" ?h _ sample_tun_context 7 sample_client ?t sample_dns_state "[AcceptShutdown]"
        _ "\<lambda>_. False" ?P "\<lambda>_. (None, 3)" 10, OF _ np refl _ refl] d
    by auto
qed



text \<open>A datagram is only ever answered when it is a DNS query the tunnel hijacks, and the answer goes back the way it came.\<close>

lemma udp_replies_to_hijacked:
  assumes "(response, from_addr, to_addr) \<in> set (fst (run_udp_loop context D events st))"
  shows "should_hijack_dns context TunUdp from_addr
    \<and> (\<exists>payload clock. UdpReceived payload to_addr from_addr clock True \<in> set events)"
  using assms
proof (induction events arbitrary: st)
  case (Cons e events)
  show ?case
  proof (cases e)
    case (UdpReceived payload client target clock sent)
    obtain outcome st1 where m: "udp_message context D clock payload client target st = (outcome, st1)" by fastforce
    then consider "outcome = UdpReply response from_addr to_addr" "sent"
      | "(response, from_addr, to_addr) \<in> set (fst (run_udp_loop context D events st1))"
      using Cons.prems UdpReceived by (auto split: prod.splits udp_outcome.splits if_splits)
    then show ?thesis
    proof cases
      case 1
      then have "should_hijack_dns context TunUdp target" "from_addr = target" "to_addr = client"
        using m by (auto simp: udp_message_def split: prod.splits sum.splits if_splits)
      with UdpReceived 1 show ?thesis by auto
    qed (use Cons.IH [of st1] in fastforce)
  qed (use Cons.prems in simp_all)
qed simp

end
