(* ===== verification/Connect.thy ===== *)
theory Connect
  imports Gateway Tls_Intercept
begin

text \<open>
  HTTPS through an explicit proxy: the server configurations and \<^verbatim>\<open>serve_app_tls_stream\<close> of
  \<^verbatim>\<open>src/src/gateway/transport/tls.rs\<close>, and the branch of \<^verbatim>\<open>handle_upgraded_connect\<close> in
  \<^verbatim>\<open>src/src/gateway/handlers/proxy_entry.rs\<close> that serves an intercepted CONNECT tunnel with them. The handshake and the HTTP
  connection are rustls and hyper: whether the handshake with a key succeeds is an argument, and so are the requests the connection
  delivers.
\<close>

section \<open>Server configurations (tls.rs)\<close>

datatype cert_resolver = DynamicCertResolver | FixedCertResolver string

record server_config =
  sc_cert_resolver :: cert_resolver
  sc_client_auth :: bool
  sc_alpn_protocols :: "string list"

definition listener_server_config :: server_config where
  "listener_server_config =
     \<lparr>sc_cert_resolver = DynamicCertResolver, sc_client_auth = False, sc_alpn_protocols = SERVER_ALPN_PROTOCOLS\<rparr>"

definition host_server_config :: "string \<Rightarrow> server_config" where
  "host_server_config hostname =
     \<lparr>sc_cert_resolver = FixedCertResolver hostname, sc_client_auth = False, sc_alpn_protocols = SERVER_ALPN_PROTOCOLS\<rparr>"

definition resolve_certificate ::
  "('p, 'c, 'k) tls_env \<Rightarrow> nat \<times> nat \<Rightarrow> server_config \<Rightarrow> client_hello \<Rightarrow> ('c, 'k) tls_intercept_state \<Rightarrow>
     ('c, 'k) certified_key option \<times> ('c, 'k) tls_intercept_state" where
  "resolve_certificate T seeds config hello tls =
     (case sc_cert_resolver config of
        DynamicCertResolver \<Rightarrow> dynamic_resolve T seeds hello tls
      | FixedCertResolver hostname \<Rightarrow> fixed_resolve T seeds hostname hello tls)"

section \<open>A TLS stream with a handler (tls.rs, proxy_entry.rs)\<close>

datatype tls_stream_error = HandshakeFailed string

text \<open>A stream that was served: the key of the handshake and the answer of the handler to each request.\<close>

definition serve_app_tls_stream ::
  "('p, 'c, 'k) tls_env \<Rightarrow> nat \<times> nat \<Rightarrow> (('c, 'k) certified_key \<Rightarrow> bool) \<Rightarrow> ('c, 'k) tls_intercept_state \<Rightarrow> client_hello \<Rightarrow>
     'q list \<Rightarrow> string \<Rightarrow> ('q \<Rightarrow> 'a) \<Rightarrow>
     (tls_stream_error, ('c, 'k) certified_key \<times> 'a list) result \<times> ('c, 'k) tls_intercept_state" where
  "serve_app_tls_stream T seeds handshake service hello requests hostname handler =
     (let config = host_server_config hostname
      in case resolve_certificate T seeds config hello service of
           (None, service) \<Rightarrow> (Err (HandshakeFailed hostname), service)
         | (Some key, service) \<Rightarrow>
             if handshake key then (Ok (key, map handler requests), service) else (Err (HandshakeFailed hostname), service))"

definition serve_intercepted_connect ::
  "('h, 'b, 'j) gateway_env \<Rightarrow> ('h, 'j) app_state \<Rightarrow> ('p, 'c, 'k) tls_env \<Rightarrow> nat \<times> nat \<Rightarrow> (('c, 'k) certified_key \<Rightarrow> bool) \<Rightarrow>
     ('c, 'k) tls_intercept_state \<Rightarrow> client_hello \<Rightarrow> ('h, 'b) request list \<Rightarrow> connect_authority \<Rightarrow>
     (tls_stream_error, ('c, 'k) certified_key \<times> ('h, 'b) gateway_result list) result \<times> ('c, 'k) tls_intercept_state" where
  "serve_intercepted_connect G st T seeds handshake service hello requests connect_target =
     (let hostname = ca_host connect_target
      in serve_app_tls_stream T seeds handshake service hello requests hostname
           (handle_explicit_connect_https_request G st connect_target))"

section \<open>Facts\<close>

text \<open>
  The URLs a request in a tunnel can stand for: an absolute one for the host and port of the tunnel, or the path on the
  authority of the tunnel.
\<close>

definition tunnel_url :: "ext_lib \<Rightarrow> connect_authority \<Rightarrow> uri \<Rightarrow> url \<Rightarrow> bool" where
  "tunnel_url L t uri u \<longleftrightarrow>
     url_parse L (uri_to_string uri) = Some u \<and> url_scheme u = ''https'' \<and> url_host_str u = Some (ca_host t)
       \<and> url_port_or_known_default u = Some (ca_port t)
   \<or> url_parse L (''https://'' @ https_authority t @ unwrap_or ''/'' (uri_path_and_query uri)) = Some u"

lemma resolved_tunnel_url:
  "resolve_explicit_https_target L t uri = Ok u \<Longrightarrow> tunnel_url L t uri u"
  by (auto simp: resolve_explicit_https_target_def validate_connect_target_url_def parse_absolute_url_def parse_request_url_def
      tunnel_url_def ensure_r_def result_simps split: if_splits sum.splits option.splits)

text \<open>What the handler of a tunnel gives for a request.\<close>

definition tunnel_answer ::
  "('h, 'b, 'j) gateway_env \<Rightarrow> ('h, 'j) app_state \<Rightarrow> connect_authority \<Rightarrow> ('h, 'b) request \<Rightarrow> ('h, 'b) gateway_result \<Rightarrow> bool" where
  "tunnel_answer G st t request answer \<longleftrightarrow>
     (\<exists>code message. answer = json_err (code, message) \<and> resolve_explicit_https_target (ge_lib G) t (rq_uri request) = Err (code, message))
   \<or> answer = Err (PanicHeaderValue (host_header t)) \<and> ge_header_value G (host_header t) = None
   \<or> (\<exists>u host. tunnel_url (ge_lib G) t (rq_uri request) u \<and> ge_header_value G (host_header t) = Some host
        \<and> answer = forward_intercepted_request G st (rq_method request) (ge_headers_insert G HOST host (rq_headers request))
            (rq_body request) u ''explicit-https'')"

lemma handler_tunnel_answer: "tunnel_answer G st t request (handle_explicit_connect_https_request G st t request)"
proof (cases "resolve_explicit_https_target (ge_lib G) t (rq_uri request)")
  case (Inl e)
  then show ?thesis by (cases e) (auto simp: tunnel_answer_def handle_explicit_connect_https_request_def)
next
  case (Inr u)
  then show ?thesis
    using resolved_tunnel_url [OF Inr]
    by (cases "ge_header_value G (host_header t)") (auto simp: tunnel_answer_def handle_explicit_connect_https_request_def)
qed

section \<open>Properties\<close>


text \<open>A client that connects to one host and asks for another in its hello and in its request.\<close>

definition sample_connect :: connect_authority where
  "sample_connect = \<lparr>ca_authority = ''a.io:443'', ca_host = ''a.io'', ca_port = 443\<rparr>"

definition sample_hello :: client_hello where
  "sample_hello = \<lparr>ch_server_name = Some ''other.io'', ch_signature_schemes = [2]\<rparr>"

definition sample_tunnel_request :: "(unit, string) request" where
  "sample_tunnel_request = \<lparr>rq_method = ''GET'', rq_uri = \<lparr>uri_to_string = ''https://other.io/'', uri_path_and_query = Some ''/''\<rparr>,
     rq_headers = (), rq_body = [], rq_tls_intercepted = False\<rparr>"

lemma sample_connect_sniffed: "\<exists>io. handle_upgraded_connect sample_connect [Data [0x16, 0x03, 0x01]] = Ok (InterceptTls io ''a.io'')"
proof -
  let ?s = "[Data [0x16, 0x03, 0x01]]"
  have "stream_ok ?s" by (simp add: stream_ok_def)
  then obtain s' where "sniff_loop [] ?s = Ok (take 2 (stream_bytes ?s), s')"
    using sniff_loop_total [of ?s "[]"] by (auto simp: CONNECT_PEEK_BYTES_def)
  then show ?thesis
    by (simp add: handle_upgraded_connect_def sniff_connect_stream_def looks_like_tls_client_hello_def
        TLS_HANDSHAKE_RECORD_TYPE_def TLS_LEGACY_VERSION_MAJOR_def sample_connect_def)
qed

lemma sample_connect_served:
  "\<exists>k service'. serve_intercepted_connect G st sample_tls (1, 2) (\<lambda>_. True) (tls_intercept_new ''cert'' ''ca'') sample_hello
     requests sample_connect = (Ok (k, map (handle_explicit_connect_https_request G st sample_connect) requests), service')"
  by (simp add: serve_intercepted_connect_def serve_app_tls_stream_def resolve_certificate_def host_server_config_def
      fixed_resolve_def certified_key_for_host_def host_certified_keys_def tls_intercept_new_def mutex_new_def
      issue_host_keys_def build_ca_params_def build_leaf_certified_key_def sample_tls_def cache_host_keys_def Let_def)


end
