(* ===== verification/Script_Pool.thy ===== *)
theory Script_Pool
  imports Script_Worker
begin

text \<open>
  The pool of QuickJS workers: \<^verbatim>\<open>QuickJsPool\<close>, its \<^verbatim>\<open>execute\<close> and \<^verbatim>\<open>Drop\<close> and
  \<^verbatim>\<open>quickjs_worker_loop\<close> of \<^verbatim>\<open>src/src/plugins/quickjs/engine.rs\<close>. Callers and worker threads interleave: every
  access to a shared atomic, lock or channel is one step of \<open>pool_step\<close>. The counter of pending tasks is an integer, so that a
  decrement too many would show; it counts calls in flight, which stay far below the word size.
\<close>

section \<open>The pool\<close>

text \<open>A worker thread: its join handle keeps its index. A call is numbered in the order in which it entered \<^verbatim>\<open>execute\<close>.\<close>

datatype ('w, 'f) worker_thread = Starting | Idle 'w | Busy 'w nat "'f quickjs_task" | Exited

datatype call_phase = Reserved int | Ensured | HasSender | Waiting

datatype pool_error =
    PoolWithoutWorkers | WorkerLockPoisoned | SpawnFailed | SenderLockPoisoned | PoolShutDown | SubmitFailed | ScriptFailed script_error

record ('w, 'f) quickjs_pool =
  qp_tx :: "bool mutex"
  qp_receiver_poisoned :: bool
  qp_queue :: "(nat \<times> 'f quickjs_task) list"
  qp_workers :: "(nat \<times> ('w, 'f) worker_thread) list mutex"
  qp_max_workers :: nat
  qp_pending_tasks :: int
  qp_next_worker_index :: nat
  qp_next_call :: nat
  qp_calls :: "(nat \<times> call_phase \<times> 'f quickjs_task) list"
  qp_answers :: "(nat \<times> 'f quickjs_task \<times> (pool_error, 'f json) result) list"

definition script_pool_new :: "nat \<Rightarrow> (pool_error, ('w, 'f) quickjs_pool) result" where
  "script_pool_new worker_count =
     bind_r (ensure_r (worker_count \<noteq> 0) PoolWithoutWorkers) (\<lambda>_.
     Ok \<lparr>qp_tx = mutex_new True, qp_receiver_poisoned = False, qp_queue = [], qp_workers = mutex_new [],
         qp_max_workers = worker_count, qp_pending_tasks = 0, qp_next_worker_index = 0, qp_next_call = 0, qp_calls = [],
         qp_answers = []\<rparr>)"

text \<open>\<open>spawned\<close> says whether the system starts the thread.\<close>

definition ensure_worker_capacity ::
  "bool \<Rightarrow> int \<Rightarrow> ('w, 'f) quickjs_pool \<Rightarrow> (pool_error, unit) result \<times> ('w, 'f) quickjs_pool" where
  "ensure_worker_capacity spawned pending_tasks p =
     (if mx_poisoned (qp_workers p) then (Err WorkerLockPoisoned, p)
      else
        (let active_workers = length (mx_value (qp_workers p));
             should_spawn = active_workers = 0 \<or> (pending_tasks > int active_workers \<and> active_workers < qp_max_workers p)
         in if \<not> should_spawn then (Ok (), p)
            else
              (let worker_index = qp_next_worker_index p; p = p\<lparr>qp_next_worker_index := Suc worker_index\<rparr>
               in if spawned
                  then (Ok (), p\<lparr>qp_workers := (qp_workers p)\<lparr>mx_value := mx_value (qp_workers p) @ [(worker_index, Starting)]\<rparr>\<rparr>)
                  else (Err SpawnFailed, p))))"

section \<open>The steps of a call\<close>

definition answer_call ::
  "nat \<Rightarrow> 'f quickjs_task \<Rightarrow> (pool_error, 'f json) result \<Rightarrow> ('w, 'f) quickjs_pool \<Rightarrow> ('w, 'f) quickjs_pool" where
  "answer_call n task r p =
     p\<lparr>qp_calls := filter (\<lambda>(m, _). m \<noteq> n) (qp_calls p), qp_answers := qp_answers p @ [(n, task, r)]\<rparr>"

definition set_phase :: "nat \<Rightarrow> call_phase \<Rightarrow> ('w, 'f) quickjs_pool \<Rightarrow> ('w, 'f) quickjs_pool" where
  "set_phase n phase p = p\<lparr>qp_calls := map (\<lambda>(m, ph, t). (m, if m = n then phase else ph, t)) (qp_calls p)\<rparr>"

definition execute_reserve :: "'f quickjs_task \<Rightarrow> ('w, 'f) quickjs_pool \<Rightarrow> ('w, 'f) quickjs_pool" where
  "execute_reserve task p =
     (let pending_tasks = qp_pending_tasks p + 1
      in p\<lparr>qp_pending_tasks := pending_tasks, qp_next_call := Suc (qp_next_call p),
           qp_calls := qp_calls p @ [(qp_next_call p, Reserved pending_tasks, task)]\<rparr>)"

definition execute_ensure :: "bool \<Rightarrow> nat \<Rightarrow> int \<Rightarrow> 'f quickjs_task \<Rightarrow> ('w, 'f) quickjs_pool \<Rightarrow> ('w, 'f) quickjs_pool" where
  "execute_ensure spawned n pending_tasks task p =
     (case ensure_worker_capacity spawned pending_tasks p of
        (Inl error, p) \<Rightarrow> answer_call n task (Err error) (p\<lparr>qp_pending_tasks := qp_pending_tasks p - 1\<rparr>)
      | (Inr _, p) \<Rightarrow> set_phase n Ensured p)"

definition execute_sender :: "nat \<Rightarrow> 'f quickjs_task \<Rightarrow> ('w, 'f) quickjs_pool \<Rightarrow> ('w, 'f) quickjs_pool" where
  "execute_sender n task p =
     (if mx_poisoned (qp_tx p) then answer_call n task (Err SenderLockPoisoned) p
      else if \<not> mx_value (qp_tx p) then answer_call n task (Err PoolShutDown) p
      else set_phase n HasSender p)"

text \<open>The receiver is a field of the pool, which the caller borrows: sending fails only when it is gone.\<close>

definition execute_send :: "bool \<Rightarrow> nat \<Rightarrow> 'f quickjs_task \<Rightarrow> ('w, 'f) quickjs_pool \<Rightarrow> ('w, 'f) quickjs_pool" where
  "execute_send receiver_alive n task p =
     (if receiver_alive then set_phase n Waiting (p\<lparr>qp_queue := qp_queue p @ [(n, task)]\<rparr>)
      else answer_call n task (Err SubmitFailed) (p\<lparr>qp_pending_tasks := qp_pending_tasks p - 1\<rparr>))"

section \<open>The steps of a worker\<close>

definition set_worker :: "nat \<Rightarrow> ('w, 'f) worker_thread \<Rightarrow> ('w, 'f) quickjs_pool \<Rightarrow> ('w, 'f) quickjs_pool" where
  "set_worker k th p = p\<lparr>qp_workers := (qp_workers p)\<lparr>mx_value := (mx_value (qp_workers p))[k := (fst (mx_value (qp_workers p) ! k), th)]\<rparr>\<rparr>"

text \<open>\<open>k\<close> is the position of the thread in the list of handles. The worker that fails to initialise returns.\<close>

definition worker_init ::
  "('e, 'm, 'n, 'h, 'v, 'f) script_env \<Rightarrow> nat \<Rightarrow> (('e, 'h) quickjs_worker, 'f) quickjs_pool \<Rightarrow> (('e, 'h) quickjs_worker, 'f) quickjs_pool" where
  "worker_init S k p =
     (case quickjs_worker_new S (fst (mx_value (qp_workers p) ! k)) of
        None \<Rightarrow> set_worker k Exited p
      | Some w \<Rightarrow> set_worker k (Idle w) p)"

text \<open>\<^verbatim>\<open>recv\<close> under the lock of the receiver; it fails once no sender is left and the queue is empty.\<close>

definition sender_left :: "('w, 'f) quickjs_pool \<Rightarrow> bool" where
  "sender_left p \<longleftrightarrow> mx_value (qp_tx p) \<or> (\<exists>(_, phase, _) \<in> set (qp_calls p). phase = HasSender)"

definition worker_receive :: "nat \<Rightarrow> 'w \<Rightarrow> ('w, 'f) quickjs_pool \<Rightarrow> ('w, 'f) quickjs_pool option" where
  "worker_receive k w p =
     (if qp_receiver_poisoned p then Some (set_worker k Exited p)
      else case qp_queue p of
             (n, task) # queue \<Rightarrow> Some (set_worker k (Busy w n task) (p\<lparr>qp_queue := queue\<rparr>))
           | [] \<Rightarrow> if sender_left p then None else Some (set_worker k Exited p))"

text \<open>The reply reaches the call when it still waits.\<close>

definition worker_finish ::
  "('e, 'm, 'n, 'h, 'v, 'f) script_env \<Rightarrow> nat \<Rightarrow> ('e, 'h) quickjs_worker \<Rightarrow> nat \<Rightarrow> 'f quickjs_task \<Rightarrow>
     (('e, 'h) quickjs_worker, 'f) quickjs_pool \<Rightarrow> (('e, 'h) quickjs_worker, 'f) quickjs_pool" where
  "worker_finish S k w n task p =
     (case worker_execute S task w of (result, _, w) \<Rightarrow>
        (let p = set_worker k (Idle w) (p\<lparr>qp_pending_tasks := qp_pending_tasks p - 1\<rparr>)
         in if (\<exists>(m, _) \<in> set (qp_calls p). m = n)
            then answer_call n task (case result of Inl e \<Rightarrow> Err (ScriptFailed e) | Inr v \<Rightarrow> Ok v) p
            else p))"

section \<open>The steps of the pool\<close>

definition pool_drop :: "('w, 'f) quickjs_pool \<Rightarrow> ('w, 'f) quickjs_pool" where
  "pool_drop p = (if mx_poisoned (qp_tx p) then p else p\<lparr>qp_tx := (qp_tx p)\<lparr>mx_value := False\<rparr>\<rparr>)"

definition pool_join :: "('w, 'f) quickjs_pool \<Rightarrow> ('w, 'f) quickjs_pool" where
  "pool_join p = (if mx_poisoned (qp_workers p) then p else p\<lparr>qp_workers := (qp_workers p)\<lparr>mx_value := []\<rparr>\<rparr>)"

text \<open>
  Callers borrow the pool: it is dropped when no call is left, and not entered afterwards. A call can be abandoned where it awaits its
  reply.
\<close>

inductive pool_step ::
  "('e, 'm, 'n, 'h, 'v, 'f) script_env \<Rightarrow> (string \<Rightarrow> string) \<Rightarrow> (('e, 'h) quickjs_worker, 'f) quickjs_pool \<Rightarrow>
     (('e, 'h) quickjs_worker, 'f) quickjs_pool \<Rightarrow> bool" for S source where
  reserve: "mx_value (qp_tx p) \<Longrightarrow> qt_source task = source (qt_entry_module_name task) \<Longrightarrow> pool_step S source p (execute_reserve task p)"
| ensure: "(n, Reserved m, task) \<in> set (qp_calls p) \<Longrightarrow> pool_step S source p (execute_ensure spawned n m task p)"
| sender: "(n, Ensured, task) \<in> set (qp_calls p) \<Longrightarrow> pool_step S source p (execute_sender n task p)"
| send: "(n, HasSender, task) \<in> set (qp_calls p) \<Longrightarrow> pool_step S source p (execute_send True n task p)"
| abandon: "(n, Waiting, task) \<in> set (qp_calls p) \<Longrightarrow>
    pool_step S source p (p\<lparr>qp_calls := filter (\<lambda>(m, _). m \<noteq> n) (qp_calls p)\<rparr>)"
| init: "k < length (mx_value (qp_workers p)) \<Longrightarrow> snd (mx_value (qp_workers p) ! k) = Starting \<Longrightarrow> pool_step S source p (worker_init S k p)"
| receive: "k < length (mx_value (qp_workers p)) \<Longrightarrow> snd (mx_value (qp_workers p) ! k) = Idle w \<Longrightarrow> worker_receive k w p = Some p' \<Longrightarrow>
    pool_step S source p p'"
| finish: "k < length (mx_value (qp_workers p)) \<Longrightarrow> snd (mx_value (qp_workers p) ! k) = Busy w n task \<Longrightarrow>
    pool_step S source p (worker_finish S k w n task p)"
| drop: "qp_calls p = [] \<Longrightarrow> mx_value (qp_tx p) \<Longrightarrow> pool_step S source p (pool_drop p)"
| join: "\<not> mx_value (qp_tx p) \<Longrightarrow> \<forall>(_, th) \<in> set (mx_value (qp_workers p)). th = Exited \<Longrightarrow> pool_step S source p (pool_join p)"

section \<open>The invariant\<close>

fun busy_of :: "('w, 'f) worker_thread \<Rightarrow> (nat \<times> 'f quickjs_task) list" where
  "busy_of (Busy w n task) = [(n, task)]"
| "busy_of _ = []"

text \<open>The tasks that are queued or run.\<close>

definition outstanding :: "('w, 'f) quickjs_pool \<Rightarrow> (nat \<times> 'f quickjs_task) list" where
  "outstanding p = qp_queue p @ concat (map (busy_of \<circ> snd) (mx_value (qp_workers p)))"

definition submitting :: "('w, 'f) quickjs_pool \<Rightarrow> (nat \<times> call_phase \<times> 'f quickjs_task) list" where
  "submitting p = filter (\<lambda>(_, phase, _). phase \<noteq> Waiting) (qp_calls p)"

definition pool_sized :: "('w, 'f) quickjs_pool \<Rightarrow> bool" where
  "pool_sized p \<longleftrightarrow> \<not> mx_poisoned (qp_tx p) \<and> \<not> mx_poisoned (qp_workers p) \<and> \<not> qp_receiver_poisoned p
     \<and> 0 < qp_max_workers p \<and> length (mx_value (qp_workers p)) \<le> qp_max_workers p \<and> (qp_calls p \<noteq> [] \<longrightarrow> mx_value (qp_tx p))
     \<and> (mx_value (qp_tx p) \<and> (qp_queue p \<noteq> [] \<or> (\<exists>(_, phase, _) \<in> set (qp_calls p). phase = Ensured \<or> phase = HasSender))
          \<longrightarrow> mx_value (qp_workers p) \<noteq> [])"

definition pool_counted :: "('w, 'f) quickjs_pool \<Rightarrow> bool" where
  "pool_counted p \<longleftrightarrow> qp_pending_tasks p = int (length (submitting p) + length (outstanding p))
     \<and> distinct (map fst (qp_calls p)) \<and> (\<forall>(n, _) \<in> set (qp_calls p). n < qp_next_call p)
     \<and> (\<forall>(n, _) \<in> set (outstanding p). n < qp_next_call p)
     \<and> (\<forall>(n, phase, _) \<in> set (qp_calls p). phase \<noteq> Waiting \<longrightarrow> n \<notin> fst ` set (outstanding p))
     \<and> (\<forall>(n, phase, task) \<in> set (qp_calls p). phase = Waiting \<longrightarrow> (n, task) \<in> set (outstanding p))"

fun thread_ok :: "('e, 'm, 'n, 'h, 'v, 'f) script_env \<Rightarrow> (string \<Rightarrow> string) \<Rightarrow> (('e, 'h) quickjs_worker, 'f) worker_thread \<Rightarrow> bool" where
  "thread_ok S source (Idle w) = (\<exists>index w0. quickjs_worker_new S index = Some w0 \<and> (worker_step S source)\<^sup>*\<^sup>* w0 w)"
| "thread_ok S source (Busy w n task) = (\<exists>index w0. quickjs_worker_new S index = Some w0 \<and> (worker_step S source)\<^sup>*\<^sup>* w0 w)"
| "thread_ok S source _ = True"

text \<open>An answer is what running the task gave, or the system refused the call a thread.\<close>

definition answer_ok ::
  "('e, 'm, 'n, 'h, 'v, 'f) script_env \<Rightarrow> (string \<Rightarrow> string) \<Rightarrow> nat \<times> 'f quickjs_task \<times> (pool_error, 'f json) result \<Rightarrow> bool" where
  "answer_ok S source a \<longleftrightarrow>
     (case a of (_, task, r) \<Rightarrow>
        r = Err SpawnFailed \<or>
        (\<exists>index w0 w result events w'. quickjs_worker_new S index = Some w0 \<and> (worker_step S source)\<^sup>*\<^sup>* w0 w
           \<and> worker_execute S task w = (result, events, w')
           \<and> r = (case result of Inl e \<Rightarrow> Err (ScriptFailed e) | Inr v \<Rightarrow> Ok v)))"

definition pool_faithful ::
  "('e, 'm, 'n, 'h, 'v, 'f) script_env \<Rightarrow> (string \<Rightarrow> string) \<Rightarrow> (('e, 'h) quickjs_worker, 'f) quickjs_pool \<Rightarrow> bool" where
  "pool_faithful S source p \<longleftrightarrow>
     (\<forall>(_, _, task) \<in> set (qp_calls p). qt_source task = source (qt_entry_module_name task))
     \<and> (\<forall>(_, task) \<in> set (outstanding p). qt_source task = source (qt_entry_module_name task))
     \<and> (\<forall>(_, th) \<in> set (mx_value (qp_workers p)). thread_ok S source th) \<and> (\<forall>a \<in> set (qp_answers p). answer_ok S source a)"

text \<open>A step of a call touches its own entry, a step of a worker its own handle.\<close>

definition call_at ::
  "('w, 'f) quickjs_pool \<Rightarrow> nat \<Rightarrow> call_phase \<Rightarrow> 'f quickjs_task \<Rightarrow> (nat \<times> call_phase \<times> 'f quickjs_task) list \<Rightarrow>
     (nat \<times> call_phase \<times> 'f quickjs_task) list \<Rightarrow> bool" where
  "call_at p n phase task cs ds \<longleftrightarrow> qp_calls p = cs @ (n, phase, task) # ds \<and> n \<notin> fst ` set cs \<and> n \<notin> fst ` set ds"

lemma call_atE:
  assumes "pool_counted p" "(n, phase, task) \<in> set (qp_calls p)"
  obtains cs ds where "call_at p n phase task cs ds"
proof -
  obtain cs ds where "qp_calls p = cs @ (n, phase, task) # ds" using assms(2) by (auto dest: split_list)
  then show ?thesis using assms(1) by (intro that [of cs ds]) (auto simp: call_at_def pool_counted_def)
qed

lemma other_calls:
  assumes "n \<notin> fst ` set cs"
  shows "map (\<lambda>(m, ph, t). (m, if m = n then ph' else ph, t)) cs = cs" "filter (\<lambda>(m, _). m \<noteq> n) cs = cs"
  using assms by (induction cs) auto

lemma call_steps:
  assumes "call_at p n phase task cs ds" "qp_calls q = qp_calls p"
  shows "set_phase n ph' q = q\<lparr>qp_calls := cs @ (n, ph', task) # ds\<rparr>"
    "answer_call n task' r q = q\<lparr>qp_calls := cs @ ds, qp_answers := qp_answers q @ [(n, task', r)]\<rparr>"
    "filter (\<lambda>(m, _). m \<noteq> n) (qp_calls p) = cs @ ds"
  using assms by (simp_all add: call_at_def set_phase_def answer_call_def other_calls)

lemma ensure_cases:
  assumes "pool_sized p"
  obtains (full) "ensure_worker_capacity spawned m p = (Ok (), p)" "mx_value (qp_workers p) \<noteq> []"
  | (spawned) i where "length (mx_value (qp_workers p)) < qp_max_workers p"
      "ensure_worker_capacity spawned m p = (Ok (), p\<lparr>qp_next_worker_index := Suc i,
         qp_workers := (qp_workers p)\<lparr>mx_value := mx_value (qp_workers p) @ [(i, Starting)]\<rparr>\<rparr>)"
  | (failed) i where "length (mx_value (qp_workers p)) < qp_max_workers p" "ensure_worker_capacity spawned m p = (Err SpawnFailed, p\<lparr>qp_next_worker_index := i\<rparr>)"
proof -
  let ?active = "length (mx_value (qp_workers p))"
  have p: "\<not> mx_poisoned (qp_workers p)" "0 < qp_max_workers p" using assms by (simp_all add: pool_sized_def)
  show ?thesis
  proof (cases "?active = 0 \<or> (m > int ?active \<and> ?active < qp_max_workers p)")
    case False
    then show ?thesis using p by (intro full) (auto simp: ensure_worker_capacity_def)
  next
    case True
    then have room: "?active < qp_max_workers p" using p by auto
    show ?thesis
    proof (cases spawned)
      case sp: True
      show ?thesis by (rule spawned [OF room, of "qp_next_worker_index p"]) (use sp True p in \<open>auto simp: ensure_worker_capacity_def Let_def\<close>)
    next
      case sp: False
      show ?thesis by (rule failed [OF room, of "Suc (qp_next_worker_index p)"]) (use sp True p in \<open>auto simp: ensure_worker_capacity_def Let_def\<close>)
    qed
  qed
qed

lemma worker_split:
  assumes "k < length xs" "snd (xs ! k) = th"
  obtains as i bs where "xs = as @ (i, th) # bs" "k = length as"
  using assms id_take_nth_drop [of k xs] by (metis prod.collapse length_take min.absorb4)

lemma set_worker_at:
  assumes "mx_value (qp_workers p) = as @ (i, th0) # bs" "k = length as"
  shows "set_worker k th p = p\<lparr>qp_workers := (qp_workers p)\<lparr>mx_value := as @ (i, th) # bs\<rparr>\<rparr>"
  using assms by (simp add: set_worker_def)

lemma sized_step: "pool_step S source p p' \<Longrightarrow> pool_sized p \<Longrightarrow> pool_counted p \<Longrightarrow> pool_sized p'"
proof (induction rule: pool_step.induct)
  case (ensure n m task p spawned)
  obtain cs ds where c: "call_at p n (Reserved m) task cs ds" using call_atE [OF ensure(3,1)] .
  from \<open>pool_sized p\<close> show ?case
    by (cases rule: ensure_cases [where spawned = spawned and m = m])
       (use \<open>pool_sized p\<close> c in \<open>auto simp: execute_ensure_def call_steps [OF c] call_at_def pool_sized_def\<close>)
next
  case (sender n task p)
  then show ?case by (force simp: pool_sized_def execute_sender_def set_phase_def split: if_splits)
next
  case (send n task p)
  then show ?case by (force simp: pool_sized_def execute_send_def set_phase_def split: if_splits)
qed (auto simp: pool_sized_def execute_reserve_def worker_init_def set_worker_def worker_receive_def worker_finish_def answer_call_def
    pool_drop_def pool_join_def Let_def split: option.splits prod.splits list.splits if_splits)

text \<open>A worker's step on its own thread.\<close>

lemma idle_exited: "\<forall>(_, th) \<in> set ws. th = Exited \<Longrightarrow> concat (map (busy_of \<circ> snd) ws) = []"
  by auto

lemma receive_cases:
  assumes "worker_receive k w p = Some p'" "pool_sized p"
  obtains (task) n task queue where "qp_queue p = (n, task) # queue" "p' = set_worker k (Busy w n task) (p\<lparr>qp_queue := queue\<rparr>)"
  | (closed) "qp_queue p = []" "p' = set_worker k Exited p"
  using assms by (auto simp: worker_receive_def pool_sized_def split: list.splits if_splits)

lemma finish_cases:
  assumes "pool_counted p" "(n, task) \<in> set (outstanding p)"
  obtains (answered) cs task' ds r events w' where "call_at p n Waiting task' cs ds" "worker_execute S task w = (r, events, w')"
      "worker_finish S k w n task p = (set_worker k (Idle w') p)\<lparr>qp_pending_tasks := qp_pending_tasks p - 1, qp_calls := cs @ ds,
         qp_answers := qp_answers p @ [(n, task, case r of Inl e \<Rightarrow> Err (ScriptFailed e) | Inr v \<Rightarrow> Ok v)]\<rparr>"
  | (gone) r events w' where "n \<notin> fst ` set (qp_calls p)" "worker_execute S task w = (r, events, w')"
      "worker_finish S k w n task p = (set_worker k (Idle w') p)\<lparr>qp_pending_tasks := qp_pending_tasks p - 1\<rparr>"
proof (cases "n \<in> fst ` set (qp_calls p)")
  case False
  obtain r events w' where run: "worker_execute S task w = (r, events, w')" by (metis prod_cases3)
  show ?thesis by (rule gone [OF False run]) (use False run in \<open>force simp: worker_finish_def Let_def set_worker_def\<close>)
next
  case True
  then obtain phase task' where call: "(n, phase, task') \<in> set (qp_calls p)" by auto
  moreover have "n \<in> fst ` set (outstanding p)" using assms(2) by force
  ultimately have "phase = Waiting" using assms(1) by (auto simp: pool_counted_def)
  then obtain cs ds where c: "call_at p n Waiting task' cs ds" using call_atE [OF assms(1) call] by blast
  obtain r events w' where run: "worker_execute S task w = (r, events, w')" by (metis prod_cases3)
  have q: "qp_calls (set_worker k (Idle w') (p\<lparr>qp_pending_tasks := qp_pending_tasks p - 1\<rparr>)) = qp_calls p" by (simp add: set_worker_def)
  have "worker_finish S k w n task p = answer_call n task (case r of Inl e \<Rightarrow> Err (ScriptFailed e) | Inr v \<Rightarrow> Ok v)
      (set_worker k (Idle w') (p\<lparr>qp_pending_tasks := qp_pending_tasks p - 1\<rparr>))"
    using call run by (force simp: worker_finish_def Let_def set_worker_def)
  then show ?thesis by (intro answered [OF c run]) (simp only: call_steps(2) [OF c q], simp add: set_worker_def)
qed

text \<open>A call that is being submitted moves on, or ends.\<close>

lemma counted_move:
  assumes "pool_counted p" "call_at p n phase task cs ds" "phase \<noteq> Waiting" "phase' \<noteq> Waiting"
    and "qp_calls q = cs @ (n, phase', task) # ds" "outstanding q = outstanding p"
    and "qp_pending_tasks q = qp_pending_tasks p" "qp_next_call q = qp_next_call p"
  shows "pool_counted q"
  using assms by (simp add: pool_counted_def call_at_def submitting_def)

lemma counted_end:
  assumes "pool_counted p" "call_at p n phase task cs ds" "phase \<noteq> Waiting"
    and "qp_calls q = cs @ ds" "outstanding q = outstanding p"
    and "qp_pending_tasks q = qp_pending_tasks p - 1" "qp_next_call q = qp_next_call p"
  shows "pool_counted q"
  using assms by (simp add: pool_counted_def call_at_def submitting_def)

lemma counted_sent:
  assumes "pool_counted p" "call_at p n phase task cs ds" "phase \<noteq> Waiting"
    and q: "qp_calls q = cs @ (n, Waiting, task) # ds" "length (outstanding q) = Suc (length (outstanding p))"
      "set (outstanding q) = insert (n, task) (set (outstanding p))"
      "qp_pending_tasks q = qp_pending_tasks p" "qp_next_call q = qp_next_call p"
  shows "pool_counted q"
proof -
  have other: "m \<noteq> n" if "(m, ph, t) \<in> set cs \<union> set ds" for m ph t using that assms(2) by (force simp: call_at_def)
  show ?thesis using assms(1-3) q(1,2,4,5) other unfolding pool_counted_def q(3) by (simp add: call_at_def submitting_def) fast
qed

lemma counted_done:
  assumes p: "pool_counted p" and calls: "set (qp_calls q) \<subseteq> set (qp_calls p)" "n \<notin> fst ` set (qp_calls q)"
      "distinct (map fst (qp_calls q))" "length (submitting q) = length (submitting p)"
    and q: "length (outstanding p) = Suc (length (outstanding q))" "set (outstanding p) = insert (n, task) (set (outstanding q))"
      "qp_pending_tasks q = qp_pending_tasks p - 1" "qp_next_call q = qp_next_call p"
  shows "pool_counted q"
proof -
  have "qp_pending_tasks q = int (length (submitting q) + length (outstanding q))" using p calls(4) q(1,3) by (simp add: pool_counted_def)
  moreover have "\<forall>(m, _) \<in> set (qp_calls q). m < qp_next_call q" "\<forall>(m, _) \<in> set (outstanding q). m < qp_next_call q"
    using p calls(1) q(2,4) by (auto simp: pool_counted_def)
  moreover have "m \<notin> fst ` set (outstanding q)" if "(m, ph, t) \<in> set (qp_calls q)" "ph \<noteq> Waiting" for m ph t
  proof -
    have "m \<notin> fst ` set (outstanding p)" using p that calls(1) by (fastforce simp: pool_counted_def)
    then show ?thesis using q(2) by auto
  qed
  moreover have "(m, t) \<in> set (outstanding q)" if "(m, Waiting, t) \<in> set (qp_calls q)" for m t
  proof -
    have "(m, t) \<in> set (outstanding p)" using p that calls(1) by (fastforce simp: pool_counted_def)
    moreover have "m \<noteq> n" using that calls(2) by force
    ultimately show ?thesis using q(2) by auto
  qed
  ultimately show ?thesis using calls(3) unfolding pool_counted_def by blast
qed

lemma counted_receive:
  assumes "k < length (mx_value (qp_workers p))" "snd (mx_value (qp_workers p) ! k) = Idle w" "worker_receive k w p = Some p'"
    and "pool_sized p" "pool_counted p"
  shows "pool_counted p'"
proof -
  obtain as i bs where w: "mx_value (qp_workers p) = as @ (i, Idle w) # bs" "k = length as" using worker_split [OF assms(1,2)] .
  from assms(3,4) show ?thesis
  proof (cases rule: receive_cases)
    case (task n task queue)
    have "mx_value (qp_workers (p\<lparr>qp_queue := queue\<rparr>)) = as @ (i, Idle w) # bs" using w by simp
    note q = set_worker_at [OF this w(2)]
    show ?thesis using \<open>pool_counted p\<close> w(1) task
      by (auto simp: q pool_counted_def submitting_def outstanding_def)
  next
    case closed
    then show ?thesis using \<open>pool_counted p\<close> w(1)
      by (auto simp: set_worker_at [OF w] pool_counted_def submitting_def outstanding_def)
  qed
qed

lemma counted_finish:
  assumes "k < length (mx_value (qp_workers p))" "snd (mx_value (qp_workers p) ! k) = Busy w n task" "pool_counted p"
  shows "pool_counted (worker_finish S k w n task p)"
proof -
  obtain as i bs where w: "mx_value (qp_workers p) = as @ (i, Busy w n task) # bs" "k = length as" using worker_split [OF assms(1,2)] .
  then have out: "(n, task) \<in> set (outstanding p)" by (simp add: outstanding_def)
  from assms(3) out show ?thesis
  proof (cases rule: finish_cases [where S = S and w = w and k = k])
    case (answered cs task' ds r events w')
    have "distinct (map fst (cs @ (n, Waiting, task') # ds))" using assms(3) answered(1) by (simp add: pool_counted_def call_at_def)
    then show ?thesis using w(1) answered(1)
      by (intro counted_done [OF assms(3), of _ n task])
         (auto simp: answered(3) set_worker_at [OF w] call_at_def submitting_def outstanding_def)
  next
    case (gone r events w')
    have "distinct (map fst (qp_calls p))" using assms(3) by (simp add: pool_counted_def)
    then show ?thesis using w(1) gone(1)
      by (intro counted_done [OF assms(3), of _ n task]) (auto simp: gone(3) set_worker_at [OF w] submitting_def outstanding_def)
  qed
qed

lemma counted_step: "pool_step S source p p' \<Longrightarrow> pool_sized p \<Longrightarrow> pool_counted p \<Longrightarrow> pool_counted p'"
proof (induction rule: pool_step.induct)
  case (reserve p task)
  let ?p = "execute_reserve task p"
  have p: "submitting ?p = submitting p @ [(qp_next_call p, Reserved (qp_pending_tasks p + 1), task)]" "outstanding ?p = outstanding p"
    "qp_calls ?p = qp_calls p @ [(qp_next_call p, Reserved (qp_pending_tasks p + 1), task)]"
    "qp_next_call ?p = Suc (qp_next_call p)" "qp_pending_tasks ?p = qp_pending_tasks p + 1"
    by (simp_all add: execute_reserve_def submitting_def outstanding_def Let_def)
  have "qp_next_call p \<notin> fst ` set (qp_calls p)" "qp_next_call p \<notin> fst ` set (outstanding p)"
    using reserve by (auto simp: pool_counted_def)
  moreover have "fst ` set (submitting p) \<subseteq> fst ` set (qp_calls p)" by (auto simp: submitting_def)
  ultimately show ?case using \<open>pool_counted p\<close> unfolding pool_counted_def p
    by (intro conjI) (simp; fastforce)+
next
  case (ensure n m task p spawned)
  obtain cs ds where c: "call_at p n (Reserved m) task cs ds" using call_atE [OF ensure(3,1)] .
  from \<open>pool_sized p\<close> show ?case
  proof (cases rule: ensure_cases [where spawned = spawned and m = m])
    case full
    then show ?thesis by (intro counted_move [OF ensure(3) c, of Ensured]) (simp_all add: execute_ensure_def call_steps [OF c] outstanding_def)
  next
    case (spawned i)
    then show ?thesis by (intro counted_move [OF ensure(3) c, of Ensured]) (simp_all add: execute_ensure_def call_steps [OF c] outstanding_def)
  next
    case (failed i)
    then show ?thesis by (intro counted_end [OF ensure(3) c]) (simp_all add: execute_ensure_def call_steps [OF c] outstanding_def)
  qed
next
  case (sender n task p)
  obtain cs ds where c: "call_at p n Ensured task cs ds" using call_atE [OF sender(3,1)] .
  have "mx_value (qp_tx p)" "\<not> mx_poisoned (qp_tx p)" using sender by (auto simp: pool_sized_def)
  then show ?case
    by (intro counted_move [OF sender(3) c, of HasSender]) (simp_all add: execute_sender_def call_steps [OF c] outstanding_def)
next
  case (send n task p)
  obtain cs ds where c: "call_at p n HasSender task cs ds" using call_atE [OF send(3,1)] .
  show ?case by (rule counted_sent [OF send(3) c]) (auto simp: execute_send_def call_steps [OF c] outstanding_def)
next
  case (abandon n task p)
  obtain cs ds where c: "call_at p n Waiting task cs ds" using call_atE [OF abandon(3,1)] .
  show ?case using \<open>pool_counted p\<close> c unfolding call_steps(3) [OF c refl]
    by (simp add: call_at_def pool_counted_def submitting_def outstanding_def)
next
  case (init k p)
  obtain as i bs where w: "mx_value (qp_workers p) = as @ (i, Starting) # bs" "k = length as" using worker_split [OF init(1,2)] .
  show ?case using \<open>pool_counted p\<close> w(1)
    by (auto simp: worker_init_def set_worker_at [OF w] pool_counted_def submitting_def outstanding_def split: option.split)
next
  case (receive k p w p')
  from receive(1-5) show ?case by (rule counted_receive)
next
  case (finish k p w n task)
  from finish(1,2,4) show ?case by (rule counted_finish)
next
  case (drop p)
  then show ?case by (auto simp: pool_drop_def pool_counted_def submitting_def outstanding_def)
next
  case (join p)
  then show ?case using idle_exited [OF join(2)] by (auto simp: pool_join_def pool_counted_def submitting_def outstanding_def)
qed

lemma faithful_finish:
  assumes "k < length (mx_value (qp_workers p))" "snd (mx_value (qp_workers p) ! k) = Busy w n task" "pool_counted p" "pool_faithful S source p"
  shows "pool_faithful S source (worker_finish S k w n task p)"
proof -
  obtain as i bs where w: "mx_value (qp_workers p) = as @ (i, Busy w n task) # bs" "k = length as" using worker_split [OF assms(1,2)] .
  then have out: "(n, task) \<in> set (outstanding p)" by (simp add: outstanding_def)
  then have src: "qt_source task = source (qt_entry_module_name task)" using assms(4) by (auto simp: pool_faithful_def)
  obtain index w0 where w0: "quickjs_worker_new S index = Some w0" "(worker_step S source)\<^sup>*\<^sup>* w0 w"
    using assms(4) w(1) by (auto simp: pool_faithful_def)
  have run: "(worker_step S source)\<^sup>*\<^sup>* w0 w'" "answer_ok S source (n, task, case r of Inl e \<Rightarrow> Err (ScriptFailed e) | Inr v \<Rightarrow> Ok v)"
    if "worker_execute S task w = (r, events, w')" for r events w'
    using w0 that worker_step.serve [where source = source, OF src that] unfolding answer_ok_def prod.case by (auto, blast)
  from assms(3) out show ?thesis
  proof (cases rule: finish_cases [where S = S and w = w and k = k])
    case (answered cs task' ds r events w')
    from run [OF answered(2)] w0(1) have "thread_ok S source (Idle w')" by auto
    then show ?thesis using \<open>pool_faithful S source p\<close> w(1) answered(1) run(2) [OF answered(2)]
      by (auto simp: answered(3) set_worker_at [OF w] call_at_def pool_faithful_def outstanding_def simp del: thread_ok.simps)
  next
    case (gone r events w')
    from run [OF gone(2)] w0(1) have "thread_ok S source (Idle w')" by auto
    then show ?thesis using \<open>pool_faithful S source p\<close> w(1)
      by (auto simp: gone(3) set_worker_at [OF w] pool_faithful_def outstanding_def simp del: thread_ok.simps)
  qed
qed

lemma faithful_step: "pool_step S source p p' \<Longrightarrow> pool_sized p \<Longrightarrow> pool_counted p \<Longrightarrow> pool_faithful S source p \<Longrightarrow> pool_faithful S source p'"
proof (induction rule: pool_step.induct)
  case (ensure n m task p spawned)
  obtain cs ds where c: "call_at p n (Reserved m) task cs ds" using call_atE [OF ensure(3,1)] .
  from \<open>pool_sized p\<close> show ?case
    by (cases rule: ensure_cases [where spawned = spawned and m = m])
       (use \<open>pool_faithful S source p\<close> c in
        \<open>auto simp: execute_ensure_def call_steps [OF c] call_at_def pool_faithful_def outstanding_def answer_ok_def\<close>)
next
  case (sender n task p)
  obtain cs ds where c: "call_at p n Ensured task cs ds" using call_atE [OF sender(3,1)] .
  have "mx_value (qp_tx p)" "\<not> mx_poisoned (qp_tx p)" using sender by (auto simp: pool_sized_def)
  then show ?case using \<open>pool_faithful S source p\<close> c
    by (auto simp: execute_sender_def call_steps [OF c] call_at_def pool_faithful_def outstanding_def)
next
  case (send n task p)
  obtain cs ds where c: "call_at p n HasSender task cs ds" using call_atE [OF send(3,1)] .
  show ?case using \<open>pool_faithful S source p\<close> c
    by (auto simp: execute_send_def call_steps [OF c] call_at_def pool_faithful_def outstanding_def)
next
  case (init k p)
  obtain as i bs where w: "mx_value (qp_workers p) = as @ (i, Starting) # bs" "k = length as" using worker_split [OF init(1,2)] .
  show ?case using \<open>pool_faithful S source p\<close> w(1)
    by (auto simp: worker_init_def set_worker_at [OF w] pool_faithful_def outstanding_def split: option.split)
next
  case (receive k p w p')
  obtain as i bs where w: "mx_value (qp_workers p) = as @ (i, Idle w) # bs" "k = length as" using worker_split [OF receive(1,2)] .
  from receive(3,4) show ?case
  proof (cases rule: receive_cases)
    case (task n task queue)
    have "mx_value (qp_workers (p\<lparr>qp_queue := queue\<rparr>)) = as @ (i, Idle w) # bs" using w by simp
    note q = set_worker_at [OF this w(2)]
    show ?thesis using \<open>pool_faithful S source p\<close> w(1) task by (auto simp: q pool_faithful_def outstanding_def)
  next
    case closed
    then show ?thesis using \<open>pool_faithful S source p\<close> w(1) by (auto simp: set_worker_at [OF w] pool_faithful_def outstanding_def)
  qed
next
  case (finish k p w n task)
  from finish(1,2,4,5) show ?case by (rule faithful_finish)
next
  case (join p)
  then show ?case using idle_exited [OF join(2)] by (auto simp: pool_join_def pool_faithful_def outstanding_def)
qed (auto simp: pool_faithful_def execute_reserve_def Let_def outstanding_def pool_drop_def)

lemma new_pool:
  assumes "script_pool_new max_workers = Ok p"
  shows "pool_sized p" "pool_counted p" "pool_faithful S source p" "qp_max_workers p = max_workers"
  using assms by (auto simp: script_pool_new_def result_simps pool_sized_def pool_counted_def pool_faithful_def submitting_def
      outstanding_def mutex_new_def)

lemma max_workers_fixed: "pool_step S source p p' \<Longrightarrow> qp_max_workers p' = qp_max_workers p"
  by (induction rule: pool_step.induct)
     (auto simp: execute_reserve_def execute_ensure_def ensure_worker_capacity_def execute_sender_def execute_send_def set_phase_def
      answer_call_def worker_init_def set_worker_def worker_receive_def worker_finish_def pool_drop_def pool_join_def Let_def
      split: option.splits prod.splits list.splits if_splits sum.splits)

lemma pool_reachable:
  assumes "script_pool_new max_workers = Ok p0" "(pool_step S source)\<^sup>*\<^sup>* p0 p"
  shows "pool_sized p \<and> pool_counted p \<and> pool_faithful S source p \<and> qp_max_workers p = max_workers"
  using assms(2)
proof (induction rule: rtranclp_induct)
  case (step p p')
  then show ?case using sized_step counted_step faithful_step max_workers_fixed by metis
qed (use new_pool [OF assms(1)] in blast)

section \<open>A pool whose workers are gone\<close>

definition stuck :: "('w, 'f) quickjs_pool \<Rightarrow> bool" where
  "stuck p \<longleftrightarrow> (\<forall>(_, th) \<in> set (mx_value (qp_workers p)). th = Exited)
     \<and> (length (mx_value (qp_workers p)) = qp_max_workers p \<or> \<not> mx_value (qp_tx p))"

lemma stuck_exited:
  assumes "stuck p" "k < length (mx_value (qp_workers p))"
  shows "snd (mx_value (qp_workers p) ! k) = Exited"
proof -
  obtain i th where e: "mx_value (qp_workers p) ! k = (i, th)" by (rule prod.exhaust)
  then have "(i, th) \<in> set (mx_value (qp_workers p))" using assms(2) nth_mem by metis
  then have "th = Exited" using assms(1) unfolding stuck_def by blast
  then show ?thesis using e by simp
qed

lemma stuck_step:
  "pool_step S source p p' \<Longrightarrow> pool_sized p \<Longrightarrow> pool_counted p \<Longrightarrow> stuck p \<Longrightarrow> stuck p' \<and> qp_answers p' = qp_answers p"
proof (induction rule: pool_step.induct)
  case (ensure n m task p spawned)
  obtain cs ds where c: "call_at p n (Reserved m) task cs ds" using call_atE [OF ensure(3,1)] .
  have "length (mx_value (qp_workers p)) = qp_max_workers p" using ensure by (auto simp: stuck_def pool_sized_def)
  with \<open>pool_sized p\<close> show ?case
    by (cases rule: ensure_cases [where spawned = spawned and m = m])
       (use \<open>stuck p\<close> in \<open>simp_all add: execute_ensure_def call_steps [OF c] stuck_def\<close>)
next
  case (sender n task p)
  then have "mx_value (qp_tx p)" "\<not> mx_poisoned (qp_tx p)" by (auto simp: pool_sized_def)
  then show ?case using \<open>stuck p\<close> by (simp add: execute_sender_def set_phase_def stuck_def)
next
  case (receive k p w p')
  then show ?case by (simp add: stuck_exited)
next
  case (init k p)
  then show ?case by (simp add: stuck_exited)
next
  case (finish k p w n task)
  then show ?case by (simp add: stuck_exited)
qed (auto simp: stuck_def execute_reserve_def execute_send_def set_phase_def pool_drop_def pool_join_def Let_def)

text \<open>
  A worker that fails to initialise exits, but its handle still counts as a worker. When that has happened to all of them no call is
  ever answered again.
\<close>

lemma stuck_pool_answers_nothing:
  assumes "script_pool_new max_workers = Ok p0" "(pool_step S source)\<^sup>*\<^sup>* p0 p" "stuck p" "(pool_step S source)\<^sup>*\<^sup>* p p'"
  shows "stuck p' \<and> qp_answers p' = qp_answers p"
  using assms(4)
proof (induction rule: rtranclp_induct)
  case (step q q')
  then have "(pool_step S source)\<^sup>*\<^sup>* p0 q" using assms(2) by simp
  then have "pool_sized q" "pool_counted q" using pool_reachable [OF assms(1)] by blast+
  then show ?case using stuck_step [OF step(2)] step.IH by simp
qed (use assms(3) in simp)

section \<open>Properties\<close>

text \<open>
  C39. The pool keeps every call. Whatever way callers and workers interleave, the pool never has more workers than
  configured, its counter of pending tasks is exactly the number of calls being submitted and of tasks queued or running, a call that
  waits has its task queued or running and a worker to run it, and every answer is what running that task on some worker of the pool gave,
  or the refusal of the system to start a thread.
\<close>

theorem pool_keeps_every_call:
  assumes new: "script_pool_new max_workers = Ok p0" and reach: "(pool_step S source)\<^sup>*\<^sup>* p0 p"
  shows "length (mx_value (qp_workers p)) \<le> max_workers
    \<and> qp_pending_tasks p = int (length (submitting p) + length (outstanding p))
    \<and> (\<forall>(n, phase, task) \<in> set (qp_calls p).
         phase = Waiting \<longrightarrow> (n, task) \<in> set (outstanding p) \<and> mx_value (qp_workers p) \<noteq> [])
    \<and> (\<forall>a \<in> set (qp_answers p). answer_ok S source a)"
proof -
  note inv = pool_reachable [OF new reach]
  have "(n, task) \<in> set (outstanding p) \<and> mx_value (qp_workers p) \<noteq> []" if call: "(n, Waiting, task) \<in> set (qp_calls p)" for n task
  proof -
    have out: "(n, task) \<in> set (outstanding p)" using inv call by (force simp: pool_counted_def)
    have "mx_value (qp_tx p)" using inv call by (auto simp: pool_sized_def)
    then have "mx_value (qp_workers p) \<noteq> []" using inv out by (cases "qp_queue p") (auto simp: pool_sized_def outstanding_def)
    with out show ?thesis ..
  qed
  then show ?thesis using inv by (auto simp: pool_sized_def pool_counted_def pool_faithful_def)
qed

text \<open>The first call of a pool up to the point where it waits; \<open>th\<close> is its worker.\<close>

definition first_call :: "'f quickjs_task \<Rightarrow> ('w, 'f) worker_thread \<Rightarrow> ('w, 'f) quickjs_pool" where
  "first_call task th =
     \<lparr>qp_tx = mutex_new True, qp_receiver_poisoned = False, qp_queue = [(0, task)], qp_workers = mutex_new [(0, th)],
      qp_max_workers = 1, qp_pending_tasks = 1, qp_next_worker_index = 1, qp_next_call = 1, qp_calls = [(0, Waiting, task)], qp_answers = []\<rparr>"

lemma first_call_reachable:
  assumes "script_pool_new 1 = Ok p0" "qt_source task = source (qt_entry_module_name task)"
  shows "(pool_step S source)\<^sup>*\<^sup>* p0 (first_call task Starting)"
proof -
  let ?p = "\<lambda>phase. (first_call task Starting)\<lparr>qp_queue := [], qp_calls := [(0, phase, task)]\<rparr>"
  have "pool_step S source p0 (execute_reserve task p0)"
    using assms by (intro pool_step.reserve) (auto simp: script_pool_new_def result_simps mutex_new_def)
  moreover have "execute_reserve task p0 = (?p (Reserved 1))\<lparr>qp_workers := mutex_new [], qp_next_worker_index := 0\<rparr>"
    using assms(1) by (auto simp: script_pool_new_def result_simps execute_reserve_def first_call_def)
  moreover have "pool_step S source ((?p (Reserved 1))\<lparr>qp_workers := mutex_new [], qp_next_worker_index := 0\<rparr>) (?p Ensured)"
    using pool_step.ensure [where n = 0 and m = 1 and task = task and spawned = True and
        p = "(?p (Reserved 1))\<lparr>qp_workers := mutex_new [], qp_next_worker_index := 0\<rparr>" and S = S and source = source]
    by (simp add: execute_ensure_def ensure_worker_capacity_def set_phase_def first_call_def mutex_new_def)
  moreover have "pool_step S source (?p Ensured) (?p HasSender)"
    using pool_step.sender [where n = 0 and task = task and p = "?p Ensured" and S = S and source = source]
    by (simp add: execute_sender_def set_phase_def first_call_def mutex_new_def)
  moreover have "pool_step S source (?p HasSender) (first_call task Starting)"
    using pool_step.send [where n = 0 and task = task and p = "?p HasSender" and S = S and source = source]
    by (simp add: execute_send_def set_phase_def first_call_def mutex_new_def)
  ultimately show ?thesis by (auto intro: converse_rtranclp_into_rtranclp)
qed

theorem pool_keeps_every_call_witness:
  "\<exists>p. qp_calls p = [(0, Waiting, sample_task)] \<and> (pool_step sample_engine (\<lambda>_. ''x''))\<^sup>*\<^sup>* (projr (script_pool_new 1)) p
     \<and> (0, sample_task) \<in> set (outstanding p) \<and> mx_value (qp_workers p) \<noteq> []"
proof -
  obtain p0 :: "((nat, string) quickjs_worker, unit) quickjs_pool" where p0: "script_pool_new 1 = Ok p0"
    by (simp add: script_pool_new_def)
  define p where "p = (first_call sample_task Starting :: ((nat, string) quickjs_worker, unit) quickjs_pool)"
  have reach: "(pool_step sample_engine (\<lambda>_. ''x''))\<^sup>*\<^sup>* p0 p"
    unfolding p_def by (rule first_call_reachable [OF p0]) (simp add: sample_task_def)
  have calls: "qp_calls p = [(0, Waiting, sample_task)]" by (simp add: p_def first_call_def)
  from pool_keeps_every_call [OF p0 reach] have "(0, sample_task) \<in> set (outstanding p)" "mx_value (qp_workers p) \<noteq> []"
    by (simp_all add: calls)
  with reach calls p0 show ?thesis by (intro exI [of _ p]) simp
qed

text \<open>A pool of one worker whose engine cannot be created leaves its first call waiting for ever.\<close>

lemma failed_worker_strands_call:
  assumes new: "script_pool_new 1 = Ok p0" and src: "qt_source task = source (qt_entry_module_name task)"
    and engine: "se_engine_new S 0 = None"
  shows "\<exists>p. (pool_step S source)\<^sup>*\<^sup>* p0 p \<and> qp_calls p = [(0, Waiting, task)]
    \<and> (\<forall>p'. (pool_step S source)\<^sup>*\<^sup>* p p' \<longrightarrow> qp_answers p' = [])"
proof -
  have "pool_step S source (first_call task Starting) (first_call task Exited)"
    using pool_step.init [where k = 0 and p = "first_call task Starting" and S = S and source = source] engine
    by (simp add: first_call_def worker_init_def quickjs_worker_new_def set_worker_def mutex_new_def)
  then have reach: "(pool_step S source)\<^sup>*\<^sup>* p0 (first_call task Exited)" using first_call_reachable [where source = source, OF new src] by (rule rtranclp.rtrancl_into_rtrancl [rotated])
  have "stuck (first_call task Exited)" by (simp add: stuck_def first_call_def mutex_new_def)
  from stuck_pool_answers_nothing [OF new reach this] reach show ?thesis
    by (intro exI [of _ "first_call task Exited"]) (simp add: first_call_def)
qed

end
