(* ===== verification/Spec2Isabelle.thy ===== *)
theory Spec2Isabelle
  imports Server Traffic Connect Script_Pool
begin

text \<open>
  AnyMirror redirects HTTP traffic to mirrors. This library models its Rust code (\<^verbatim>\<open>src/src/\<close>) and proves what its parts
  promise.

  \<^bold>\<open>How the program works.\<close> A YAML configuration is validated into rules, plugins and a backend. A request reaches the gateway as an
  explicit proxy request, through the fetch end point, or transparently: the fake DNS server answers queries for captured hosts with
  leased fake addresses, and a packet backend (WinDivert on Windows, a TUN device elsewhere) diverts connections to these addresses to
  the local proxy, where TLS is terminated with a certificate issued for the host. The gateway resolves the URL against the rules;
  the action mirrors, passes on, rejects, answers with a body or hands the request to a JavaScript plugin, and the executor sends
  what results upstream. A watch task reloads the configuration, and the runtime restarts what changed.

  \<^bold>\<open>Theories and sources\<close>, in the order in which they build on each other:
  \<^item> \<open>Prelude\<close>: results, strings, mutexes, clocks and the contract of a cache (\<open>keyed_cache\<close>). \<open>Net_Types\<close>: addresses, networks, their
    parsing and printing. \<open>Byte_Stream\<close>: reads from a stream that arrives in pieces.
  \<^item> \<open>Rule_Model\<close>, \<open>Rule_Matching\<close>, \<open>Rule_Trie\<close>, \<open>Rule_Index\<close>, \<open>Rule_Runtime\<close>, \<open>Rule_Resolution\<close>, \<open>Rule_Compile\<close>:
    \<^verbatim>\<open>rules/{model,schema,matching,compile}.rs\<close> and \<^verbatim>\<open>rules/pool/*.rs\<close>. Tries and hash maps are instances of the locales
    \<open>index_trie\<close> and \<open>rule_buckets\<close>; resolution through the index refines a specification that looks at every rule.
  \<^item> \<open>Fake_Ip\<close>, \<open>Nat_Table\<close>, \<open>Packet\<close>, \<open>Fake_Dns\<close>, \<open>Intercept\<close>: \<^verbatim>\<open>traffic/shared/\<close> and the capture loop. Both address families
    share the locales \<open>candidate_ring\<close>, \<open>expiring_table\<close>, \<open>ip_family\<close> and \<open>tcp_family\<close>. The lemmas show that leases stay
    injective, fake answers resolve back, redirection is undone on the way back, and no packet makes the code panic.
  \<^item> \<open>Config\<close> (\<^verbatim>\<open>config.rs\<close>), \<open>Reload\<close> (\<^verbatim>\<open>supervisors/\<close> and \<^verbatim>\<open>gateway/runtime.rs\<close>): validation, the watch
    task and both receive loops, instances of \<open>reload_loop\<close>: after the channel is drained the last configuration that loaded runs.
  \<^item> \<open>Tun_Dns\<close>, \<open>Tun\<close> (\<^verbatim>\<open>traffic/tun/\<close>), \<open>Windivert\<close> (\<^verbatim>\<open>traffic/windivert/\<close>, \<^verbatim>\<open>traffic/mod.rs\<close>):
    the two packet backends, from their start to their shutdown. \<open>Traffic\<close>: their loops over the life of the process, the TUN
    device and the addresses it reserves.
  \<^item> \<open>Plugins\<close> (\<^verbatim>\<open>plugins/{mod,model}.rs\<close>), \<open>Script_Worker\<close>, \<open>Script_Pool\<close> (\<^verbatim>\<open>plugins/quickjs/\<close>): the registry with
    its permissions, a script worker, and the pool of workers as a step relation over interleaved callers and threads.
  \<^item> \<open>Forwarding\<close> (\<^verbatim>\<open>gateway/forwarding/\<close>), \<open>Gateway\<close> (\<^verbatim>\<open>gateway/handlers/\<close>, \<^verbatim>\<open>gateway/http/\<close>), \<open>Upstream\<close>
    (\<^verbatim>\<open>gateway/upstream/\<close>), \<open>Tls_Intercept\<close> (\<^verbatim>\<open>gateway/transport/tls.rs\<close>), \<open>Observability\<close>
    (\<^verbatim>\<open>observability/\<close>, \<^verbatim>\<open>workers/\<close>): the request path and what watches it. The certificate cache, the handler cache and the
    three caches of the executor are instances of \<open>keyed_cache\<close>: whatever was cached was built for its key.
  \<^item> \<open>Connect\<close> (\<^verbatim>\<open>gateway/transport/tls.rs\<close>, \<^verbatim>\<open>gateway/handlers/\<close>): an intercepted CONNECT tunnel, from the sniffed bytes to the
    forwarded requests. \<open>Dns_Server\<close> (\<^verbatim>\<open>traffic/shared/dns/\<close>, \<^verbatim>\<open>socket.rs\<close>): the start of the DNS server and what its listeners send, the same
    answer as its direct entry gives. \<open>Routers\<close> (\<^verbatim>\<open>gateway/routers/\<close>): the route tables and the applications of both modes.
    \<open>Server\<close> (\<^verbatim>\<open>main.rs\<close>, \<^verbatim>\<open>gateway/{runtime,state}.rs\<close>, \<^verbatim>\<open>watch.rs\<close>, \<^verbatim>\<open>observability/telemetry.rs\<close>): the process from the command
    line to its shutdown, with the snapshots and events it reports; \<open>observed_loop\<close> extends \<open>reload_loop\<close> by them, and both modes are
    instances.
  This theory holds what spans them: a gateway started from a loaded configuration, and the process started from the command line
  after any number of reloads, answer every request.

  \<^bold>\<open>How it is modelled.\<close> Rust functions are HOL functions with the state passed explicitly, structs are records, enums datatypes;
  an error is \<open>Inl\<close>, a panic a value of its own, machine integers are words of their width. A mutex is its content and a poison flag.
  Concurrent access to shared state is a step relation whose steps are the sections under a lock, and its invariants are proved by rule
  induction. Crates, the operating system and files are functions in a record of the environment; a law a proof needs of them is a
  named hypothesis, and the samples satisfy it.

  \<^bold>\<open>Termination.\<close> No function has fuel: every loop of the model is total, by structure or by a measure (the unread bytes of a stream, the
  addresses left in a pool, the unparsed part of a message). Loops that run for the life of the process are modelled by the events
  that reach them.

  \<^bold>\<open>Not modelled.\<close> Log lines, trace spans and the export of telemetry; the byte copying of tunnels and bridges, which tokio does; the
  JavaScript engine, TLS and HTTP implementations, the HTTP router, the WinDivert driver and the user-space network stack, which are
  crates; the handle of a task (\<^verbatim>\<open>workers/shutdown.rs\<close>); vendored code.
\<close>

section \<open>The gateway as a whole\<close>

text \<open>
  A gateway that runs a loaded configuration answers. With the rules of a configuration that loaded and a plugin
  registry that was built, the transparent and the fetch entry point return a response for every request, whatever it
  is, and so does the proxy entry point, unless the request is a CONNECT, whose tunnel it opens; the one exception is a
  plugin that answers with a status that is not one, which aborts the request.
\<close>

theorem gateway_answers_every_request:
  assumes config: "load_config E dir parsed = Ok config"
    and registry: "registry_build (ge_plugins (ee_gateway N)) options (ac_rules config) = Ok registry"
    and crates: "http_laws (ee_gateway N)" "url_reparse_law (ge_lib (ee_gateway N))"
    and state: "st = \<lparr>as_plugins = live_registry_new registry, as_rules = live_new (ac_rules config)\<rparr>"
  shows "answers (ee_gateway N) st (transparent_entry (ee_gateway N) st request)
    \<and> answers (ee_gateway N) st (fetch_url (ee_gateway N) st query request)
    \<and> (case proxy_entry N st request of
         Answered r \<Rightarrow> answers (ee_gateway N) st r
       | Tunnelled t \<Rightarrow> rq_method request = ''CONNECT'')"
proof -
  from config obtain rs where "ac_rules config = rule_set_new rs" "\<forall>r \<in> set rs. rule_wf r"
    by (elim load_config_ok compile_rule_set_Ok) (use compile_rule_schema_wf in blast)
  with registry have "gateway_started (ee_gateway N) st"
    by (auto simp: gateway_started_def state live_registry_snapshot_def live_registry_new_def live_snapshot_def live_new_def)
  note entries = entries_answer [OF crates this]
  show ?thesis
    using entries by (auto simp: proxy_entry_def handle_connect_def split: sum.splits)
qed


theorem gateway_answers_every_request_witness:
  "\<exists>config st. load_config sample_config_env ''/etc'' (de_config sample_config_env (sample_doc (Some empty_backend))) = Ok config
     \<and> as_rules st = live_new (ac_rules config)
     \<and> answers (sample_gateway (sample_answer PaDirect None)) st (fetch_url (sample_gateway (sample_answer PaDirect None)) st ''https://a.io/''
         \<lparr>rq_method = ''GET'', rq_uri = \<lparr>uri_to_string = ''/fetch'', uri_path_and_query = None\<rparr>, rq_headers = (), rq_body = [],
          rq_tls_intercepted = False\<rparr>)"
proof -
  let ?G = "sample_gateway (sample_answer PaDirect None)"
  let ?N = "\<lparr>ee_gateway = ?G, ee_authority_parse = \<lambda>_. None\<rparr>"
  obtain config where config:
    "load_config sample_config_env ''/etc'' (de_config sample_config_env (sample_doc (Some empty_backend))) = Ok config"
    using sample_doc_loads by blast
  have reg: "registry_build (ge_plugins (ee_gateway ?N)) \<lparr>pro_enabled = False, pro_workers = 1, pro_definitions = []\<rparr> (ac_rules config)
      = Ok registry_default"
    by (simp add: registry_build_def)
  show ?thesis
    using gateway_answers_every_request [OF config reg _ _ refl] sample_gateway_laws config by (intro exI conjI) auto
qed

section \<open>From the command line to an answer\<close>

lemma loaded_rules_wf:
  assumes "load_config_file M path = Ok config"
  shows "\<exists>rs. ac_rules config = rule_set_new rs \<and> (\<forall>r \<in> set rs. rule_wf r)"
proof -
  obtain dir parsed where "load_config (pc_config M) dir parsed = Ok config"
    using assms by (auto simp: load_config_file_def split: option.splits sum.splits)
  then show ?thesis by (elim load_config_ok compile_rule_set_Ok) (use compile_rule_schema_wf in blast)
qed

lemma described_started:
  assumes "ge_plugins G = E" "registry_build E options (rules :: 'h rule_set) = Ok (live_registry_snapshot plugins)"
    and "live_snapshot live = ac_rules config" "load_config_file M path = Ok config"
  shows "gateway_started G \<lparr>as_plugins = plugins, as_rules = (live :: 'h live_rule_set)\<rparr>"
  using assms(1-3) loaded_rules_wf [OF assms(4)] by (auto simp: gateway_started_def)


text \<open>A process started from a file without plugins.\<close>

definition quiet_plugins :: "unit plugin_env" where
  "quiet_plugins = \<lparr>pe_lib = sample_lib, pe_is_dir = \<lambda>_. False, pe_exists = \<lambda>_. False, pe_read_to_string = \<lambda>_. None,
     pe_canonicalize = Some, pe_execute = \<lambda>_ _ _ _ _ _. None, pe_null = (), pe_get_rules = \<lambda>_. None,
     pe_load_input = \<lambda>_. None, pe_compile_input = \<lambda>_. None, pe_request_input = \<lambda>_. None, pe_response_input = \<lambda>_. None,
     pe_load_output = Some, pe_compile_output = Some, pe_rule_schemas = \<lambda>_. None, pe_request_output = \<lambda>_. None,
     pe_response_output = \<lambda>_. None, pe_json_to_vec = \<lambda>_. None, pe_base64_decode = \<lambda>_. None\<rparr>"

definition quiet_entry :: "(unit, string, unit) entry_env" where
  "quiet_entry = \<lparr>ee_gateway = \<lparr>ge_plugins = quiet_plugins, ge_status_from_u16 = (\<lambda>s. 100 \<le> s \<and> s \<le> 999), ge_method_parse = Some,
      ge_header_name = Some, ge_header_value = Some, ge_value_to_str = Some, ge_headers_new = (),
      ge_headers_append = \<lambda>_ _ _. (), ge_headers_insert = \<lambda>_ _ _. (), ge_headers_remove = \<lambda>_ _. (),
      ge_headers_get = \<lambda>_ _. None, ge_headers_iter = \<lambda>_. [], ge_body_from = id, ge_body_collect = Some,
      ge_base64_encode = id, ge_read_file = \<lambda>_. None, ge_execute = \<lambda>_ _ _ _ _. None\<rparr>,
     ee_authority_parse = \<lambda>_. None\<rparr>"

definition quiet_raw :: "(unit, unit) raw_config" where
  "quiet_raw = (let raw = de_config sample_config_env (sample_doc (Some empty_backend))
     in raw\<lparr>rc_plugins := (rc_plugins raw)\<lparr>rpr_enabled := False\<rparr>\<rparr>)"

definition sample_process :: "(unit, unit, unit, string, string, string) process_env" where
  "sample_process = \<lparr>pc_is_file = \<lambda>_. True, pc_read = Some, pc_from_yaml = \<lambda>_. Some quiet_raw, pc_config = sample_config_env,
     pc_exporter = \<lambda>_. True, pc_launch = \<lparr>ln_supervisors = sample_supervisors, ln_plugins = quiet_plugins, ln_tls = sample_tls,
       ln_seed = 0\<rparr>\<rparr>"

lemma quiet_laws:
  "http_laws (ee_gateway quiet_entry)" "url_reparse_law (ge_lib (ee_gateway quiet_entry))"
  "ge_plugins (ee_gateway quiet_entry) = ln_plugins (pc_launch sample_process)"
  using sample_lib_reparse by (simp_all add: http_laws_def quiet_entry_def quiet_plugins_def sample_process_def)

lemma quiet_loads: "\<exists>config. load_config_file sample_process ''/etc/c.yml'' = Ok config \<and> \<not> pro_enabled (ac_plugins config)"
proof -
  obtain cfg where cfg: "load_config sample_config_env ''/etc'' (de_config sample_config_env (sample_doc (Some empty_backend))) = Ok cfg"
    using sample_doc_loads by blast
  have "path_parent ''/etc/c.yml'' = Some ''/etc''" by code_simp
  then show ?thesis
    using cfg
    by (auto simp: load_config_file_def sample_process_def quiet_raw_def Let_def load_config_def bind_r_Ok_iff
        plugin_runtime_from_raw_def)
qed

lemma sample_process_starts:
  "\<exists>(process :: (unit, unit, unit, string, string) process) fs ob. main_launch sample_process 1 [] Map.empty
       \<lparr>cli_mode = Transparent, cli_config = ''/etc/c.yml'', cli_watch_config = True\<rparr> = (Ok process, fs)
     \<and> ps_server process = TransparentServer ob \<and> se_exit (ob_loop ob) = None
     \<and> load_config_file sample_process ''/etc/c.yml'' = Ok (se_active_config (ob_loop ob)) \<and> se_active_config (ob_loop ob) = ps_config process"
proof -
  obtain config where config: "load_config_file sample_process ''/etc/c.yml'' = Ok config" "\<not> pro_enabled (ac_plugins config)"
    using quiet_loads by blast
  have "\<exists>rt. start_transparent_components sample_supervisors config = Ok rt"
    by (simp add: start_transparent_components_def start_fake_dns_instance_def dns_build_def dns_start_def start_http_def
        start_tls_def start_intercept_def sample_supervisors_def Let_def)
  then obtain rt where rt: "start_transparent_components (ln_supervisors (pc_launch sample_process)) config = Ok rt"
    by (auto simp: sample_process_def)
  obtain state :: "(unit, unit, unit, string, string) gateway_state" and fs ob where
    "serve_transparent_launch (pc_launch sample_process) 1 [] Map.empty config = (Ok (state, ob), fs)"
    "se_active_config (ob_loop ob) = config" "se_exit (ob_loop ob) = None"
    using config(2) rt
    by (simp add: serve_transparent_launch_def plugins_start_def build_registry_def registry_build_def build_state_def
        tls_service_new_def get_or_generate_ca_cert_def build_ca_params_def launched_def Let_def)
      (simp add: sample_process_def sample_tls_def launched_def)
  moreover have "init_tracing sample_process ob = Ok \<lparr>tg_provider = oo_enabled ob\<rparr>" for ob
    by (simp add: init_tracing_def sample_process_def)
  moreover have "resolve_config_path (pc_is_file sample_process) p = Ok p" for p
    by (simp add: resolve_config_path_def sample_process_def)
  ultimately show ?thesis
    using config(1) by (auto simp: main_launch_def)
qed


end
